theory Spec2Isabelle
  imports Complex_Main "HOL-Library.AList"
begin

section \<open>The gamemaster audio client\<close>

text \<open>
  A shallow embedding of the audio part of the gamemaster client (the module-level
  state, the handlers that \<open>setupAudioEventListeners\<close> registers, the unlock gate,
  the progress reporter and the audio API of the exported \<open>gamemaster\<close> object) and of
  the voice lookup of the ElevenLabs helper.

  The module-level variables become the fields of one record that every operation
  takes and returns. Audio elements are objects that the maps, the variable
  \<open>ttsAudio\<close> and the \<open>onended\<close> closures share, so they live in a store: the list
  \<open>els\<close>, in which \<open>new Audio(url)\<close> allocates the next index. The two JavaScript
  \<open>Map\<close>s are association lists with the insertion order a \<open>Map\<close> iterates in:
  \<open>set\<close> is \<open>AList.update\<close>, \<open>delete\<close> is \<open>AList.delete\<close>, \<open>get\<close> is \<open>map_of\<close>.
  Every \<open>socket.emit\<close> appends to the field \<open>emitted\<close>.

  Of the platform, the model keeps what the code reads and writes: a property
  assignment stores the value, \<open>pause()\<close> sets \<open>paused\<close>, \<open>play()\<close> clears it (the
  promise it returns is only logged on rejection). Two platform calls throw, and the
  handlers do not catch: the \<open>volume\<close> setter of an element throws \<open>IndexSizeError\<close>
  for a value outside the range 0 to 1, and \<open>atob\<close> throws \<open>InvalidCharacterError\<close> for
  a payload that is not base64. A handler that throws stops there, and what it did before
  stays done: a handler returns an \<open>outcome\<close>, the state together with the exception if
  one was thrown. Numbers are reals, with \<open>None\<close> for the \<open>NaN\<close> that \<open>duration\<close>
  holds before the metadata is known. Debug logging and the game registration state are
  left out: no audio operation reads them.
\<close>

subsection \<open>Data\<close>

type_synonym ref = nat

text \<open>The \<open>onended\<close> closures of the source: the preset one captures \<open>presetIdx\<close>
  (and the element it is attached to), the speech one captures the object URL.\<close>

datatype end_handler = NoHandler | PresetEnd int | TtsEnd string

record audio_el =
  src :: string
  volume :: real
  loop :: bool
  paused :: bool
  currentTime :: real
  duration :: "real option"
  ended :: bool
  onended :: end_handler
  routed :: bool

record audio_config =
  enabled :: bool
  autoUnlock :: bool
  debug :: bool

text \<open>\<open>Partial<AudioConfig>\<close>: a field is absent, or present with the value
  \<open>undefined\<close> (which the type admits), or holds a boolean.\<close>

datatype 'a partial_field = Absent | Undefined | Given 'a

record partial_config =
  enabled_opt :: "bool partial_field"
  autoUnlock_opt :: "bool partial_field"
  debug_opt :: "bool partial_field"

text \<open>Outbound events: \<open>register-audio-player\<close> and \<open>audio:preset-progress\<close> with its
  payload \<open>presetIdx\<close>, \<open>currentTime\<close>, \<open>duration\<close> and whether \<open>ended: true\<close> is
  present.\<close>

datatype outbound =
  RegisterAudioPlayer
  | PresetProgress int "real option" "real option" bool

record state =
  audioConfig :: audio_config
  audioUnlocked :: bool
  audioCtx :: bool
  masterGain :: "real option"
  masterVolume :: real
  iaVolume :: real
  els :: "audio_el list"
  ambientAudios :: "(string \<times> ref) list"
  presetAudios :: "(int \<times> ref) list"
  ttsAudio :: "ref option"
  progressInterval :: "nat option"
  timerCount :: nat
  unlockListeners :: "string list"
  primerStarts :: nat
  objectURLs :: "string list"
  urlCount :: nat
  emitted :: "outbound list"

definition BACKOFFICE_URL :: string where
  "BACKOFFICE_URL = ''http://192.168.10.1:3000''"

definition unlockEvents :: "string list" where
  "unlockEvents = [''click'', ''touchstart'', ''keydown'']"

text \<open>The module's initial state, after the \<open>initAudio\<close> block has run in a browser:
  the default configuration has \<open>autoUnlock\<close>, so the gesture listeners are attached.\<close>

definition init :: state where
  "init = \<lparr> audioConfig = \<lparr> enabled = True, autoUnlock = True, debug = False \<rparr>,
            audioUnlocked = False, audioCtx = False, masterGain = None,
            masterVolume = 1, iaVolume = 1, els = [],
            ambientAudios = [], presetAudios = [], ttsAudio = None,
            progressInterval = None, timerCount = 0,
            unlockListeners = unlockEvents, primerStarts = 0,
            objectURLs = [], urlCount = 0, emitted = [] \<rparr>"

subsection \<open>The element store\<close>

definition new_el :: "string \<Rightarrow> audio_el" where
  "new_el url = \<lparr> src = url, volume = 1, loop = False, paused = True, currentTime = 0,
                   duration = None, ended = False, onended = NoHandler, routed = False \<rparr>"

text \<open>An assignment to, or a method call on, the element behind a reference. The code
  only holds references that \<open>new Audio\<close> returned; at any other index nothing changes.\<close>

definition upd_el :: "ref \<Rightarrow> (audio_el \<Rightarrow> audio_el) \<Rightarrow> state \<Rightarrow> state" where
  "upd_el r f s = s\<lparr> els := (els s)[r := f (els s ! r)] \<rparr>"

text \<open>\<open>audio.pause(); audio.src = ""\<close>, the teardown every stop path performs.\<close>

definition teardown :: "ref \<Rightarrow> state \<Rightarrow> state" where
  "teardown r = upd_el r (\<lambda>a. a\<lparr> paused := True, src := [] \<rparr>)"

text \<open>What a handler leaves behind: it returned, or it threw out of the handler with
  the state as it was at the throw.\<close>

datatype error = IndexSizeError | InvalidCharacterError

datatype outcome = Returned state | Thrown error state

fun state_of :: "outcome \<Rightarrow> state" where
  "state_of (Returned s) = s"
| "state_of (Thrown e s) = s"

fun and_then :: "outcome \<Rightarrow> (state \<Rightarrow> outcome) \<Rightarrow> outcome" where
  "and_then (Returned s) f = f s"
| "and_then (Thrown e s) f = Thrown e s"

fun map_outcome :: "(state \<Rightarrow> state) \<Rightarrow> outcome \<Rightarrow> outcome" where
  "map_outcome g (Returned s) = Returned (g s)"
| "map_outcome g (Thrown e s) = Thrown e (g s)"

text \<open>\<open>audio.volume = v\<close>: the setter stores a value from 0 to 1 and throws for any
  other.\<close>

definition valid_volume :: "real \<Rightarrow> bool" where
  "valid_volume v = (0 \<le> v \<and> v \<le> 1)"

definition set_volume :: "ref \<Rightarrow> real \<Rightarrow> state \<Rightarrow> outcome" where
  "set_volume r v s =
     (if valid_volume v then Returned (upd_el r (\<lambda>a. a\<lparr> volume := v \<rparr>) s)
      else Thrown IndexSizeError s)"

text \<open>A \<open>for\<close> loop over references whose body may throw.\<close>

fun for_each :: "(ref \<Rightarrow> state \<Rightarrow> outcome) \<Rightarrow> ref list \<Rightarrow> state \<Rightarrow> outcome" where
  "for_each body [] s = Returned s"
| "for_each body (r # rs) s = and_then (body r s) (for_each body rs)"

definition socket_emit :: "outbound \<Rightarrow> state \<Rightarrow> state" where
  "socket_emit ev s = s\<lparr> emitted := emitted s @ [ev] \<rparr>"

definition isAudioReady :: "state \<Rightarrow> bool" where
  "isAudioReady s = (audioUnlocked s \<and> enabled (audioConfig s))"

subsection \<open>Audio helpers\<close>

definition initAudioContext :: "state \<Rightarrow> state" where
  "initAudioContext s =
     (if audioCtx s then s
      else s\<lparr> audioCtx := True, masterGain := Some (masterVolume s) \<rparr>)"

definition routeThroughMaster :: "ref \<Rightarrow> state \<Rightarrow> state" where
  "routeThroughMaster r s =
     (if \<not> audioCtx s \<or> masterGain s = None then s
      else upd_el r (\<lambda>a. a\<lparr> routed := True \<rparr>) s)"

definition startProgressReporting :: "state \<Rightarrow> state" where
  "startProgressReporting s =
     (if progressInterval s \<noteq> None then s
      else s\<lparr> progressInterval := Some (timerCount s), timerCount := Suc (timerCount s) \<rparr>)"

definition stopProgressReporting :: "state \<Rightarrow> state" where
  "stopProgressReporting s =
     (if progressInterval s \<noteq> None then s\<lparr> progressInterval := None \<rparr> else s)"

text \<open>\<open>addEventListener\<close> ignores a listener that is already registered for the event
  with the same callback, and all three registrations use \<open>doUnlockAudio\<close>.\<close>

definition addUnlockListeners :: "state \<Rightarrow> state" where
  "addUnlockListeners s =
     s\<lparr> unlockListeners :=
          fold (\<lambda>e ls. if e \<in> set ls then ls else ls @ [e]) unlockEvents (unlockListeners s) \<rparr>"

definition removeUnlockListeners :: "state \<Rightarrow> state" where
  "removeUnlockListeners s =
     s\<lparr> unlockListeners := fold removeAll unlockEvents (unlockListeners s) \<rparr>"

definition doUnlockAudio :: "state \<Rightarrow> state" where
  "doUnlockAudio s =
     (if audioUnlocked s \<or> \<not> enabled (audioConfig s) then s
      else
        let s1 = initAudioContext s;
            s2 = (if audioCtx s1 then s1\<lparr> primerStarts := Suc (primerStarts s1) \<rparr> else s1);
            s3 = s2\<lparr> audioUnlocked := True \<rparr>;
            s4 = socket_emit RegisterAudioPlayer s3;
            s5 = startProgressReporting s4
        in removeUnlockListeners s5)"

text \<open>The timer callback of \<open>startProgressReporting\<close>: one report per preset that is
  playing and has a known, non-zero duration, in the map's order.\<close>

definition progress_report :: "state \<Rightarrow> int \<times> ref \<Rightarrow> outbound list" where
  "progress_report s e =
     (let a = els s ! snd e in
      if \<not> paused a \<and> duration a \<noteq> None \<and> duration a \<noteq> Some 0
      then [PresetProgress (fst e) (Some (currentTime a)) (duration a) False]
      else [])"

definition progress_tick :: "state \<Rightarrow> state" where
  "progress_tick s = s\<lparr> emitted := emitted s @ concat (map (progress_report s) (presetAudios s)) \<rparr>"

definition stopAllAudio :: "state \<Rightarrow> state" where
  "stopAllAudio s =
     (let s1 = fold teardown (map snd (ambientAudios s)) s;
          s2 = s1\<lparr> ambientAudios := [] \<rparr>;
          s3 = fold teardown (map snd (presetAudios s2)) s2;
          s4 = s3\<lparr> presetAudios := [] \<rparr>
      in case ttsAudio s4 of
           None \<Rightarrow> s4
         | Some r \<Rightarrow> (teardown r s4)\<lparr> ttsAudio := None \<rparr>)"

subsection \<open>The handlers of \<open>setupAudioEventListeners\<close>\<close>

text \<open>\<open>audio:play-ambient\<close> in its two halves: the teardown of the instance the map
  holds under the id, and the creation of the new one, stored last.\<close>

definition ambient_teardown :: "string \<Rightarrow> state \<Rightarrow> state" where
  "ambient_teardown soundId s =
     (case map_of (ambientAudios s) soundId of
        None \<Rightarrow> s
      | Some existing \<Rightarrow> teardown existing s)"

definition ambient_start :: "string \<Rightarrow> string \<Rightarrow> real option \<Rightarrow> state \<Rightarrow> outcome" where
  "ambient_start soundId file vol s =
     (let r = length (els s);
          s1 = s\<lparr> els := els s @ [new_el (BACKOFFICE_URL @ ''/sounds/'' @ file)] \<rparr>;
          s2 = upd_el r (\<lambda>a. a\<lparr> loop := True \<rparr>) s1
      in and_then (set_volume r (case vol of None \<Rightarrow> 0.5 | Some v \<Rightarrow> v) s2)
           (\<lambda>s3. let s4 = routeThroughMaster r s3;
                     s5 = upd_el r (\<lambda>a. a\<lparr> paused := False \<rparr>) s4
                 in Returned (s5\<lparr> ambientAudios := AList.update soundId r (ambientAudios s5) \<rparr>)))"

definition play_ambient :: "string \<Rightarrow> string \<Rightarrow> real option \<Rightarrow> state \<Rightarrow> outcome" where
  "play_ambient soundId file vol s =
     (if \<not> audioUnlocked s \<or> \<not> enabled (audioConfig s) then Returned s
      else ambient_start soundId file vol (ambient_teardown soundId s))"

definition stop_ambient :: "string \<Rightarrow> state \<Rightarrow> state" where
  "stop_ambient soundId s =
     (case map_of (ambientAudios s) soundId of
        None \<Rightarrow> s
      | Some r \<Rightarrow>
          (let s1 = teardown r s
           in s1\<lparr> ambientAudios := AList.delete soundId (ambientAudios s1) \<rparr>))"

definition volume_ambient :: "string \<Rightarrow> real \<Rightarrow> state \<Rightarrow> outcome" where
  "volume_ambient soundId v s =
     (case map_of (ambientAudios s) soundId of
        None \<Rightarrow> Returned s
      | Some r \<Rightarrow> set_volume r v s)"

text \<open>The \<open>onended\<close> closure of a preset, for the element \<open>r\<close> it is attached to.\<close>

definition preset_onended :: "int \<Rightarrow> ref \<Rightarrow> state \<Rightarrow> state" where
  "preset_onended presetIdx r s =
     (let s1 = socket_emit
                 (PresetProgress presetIdx (duration (els s ! r)) (duration (els s ! r)) True) s
      in s1\<lparr> presetAudios := AList.delete presetIdx (presetAudios s1) \<rparr>)"

text \<open>The creating branch of \<open>audio:play-preset\<close>.\<close>

definition preset_create :: "int \<Rightarrow> string \<Rightarrow> state \<Rightarrow> outcome" where
  "preset_create presetIdx file s =
     (let r = length (els s);
          s1 = s\<lparr> els := els s @ [new_el (BACKOFFICE_URL @ ''/presets/'' @ file)] \<rparr>
      in and_then (set_volume r (iaVolume s1) s1)
           (\<lambda>s2. let s3 = routeThroughMaster r s2;
                     s4 = upd_el r (\<lambda>a. a\<lparr> onended := PresetEnd presetIdx \<rparr>) s3;
                     s5 = upd_el r (\<lambda>a. a\<lparr> paused := False \<rparr>) s4
                 in Returned (s5\<lparr> presetAudios := AList.update presetIdx r (presetAudios s5) \<rparr>)))"

text \<open>The resuming branch: \<open>existing.volume = iaVolume; existing.play()\<close>.\<close>

definition preset_resume :: "ref \<Rightarrow> state \<Rightarrow> outcome" where
  "preset_resume existing s =
     and_then (set_volume existing (iaVolume s) s)
       (\<lambda>s1. Returned (upd_el existing (\<lambda>a. a\<lparr> paused := False \<rparr>) s1))"

definition play_preset :: "int \<Rightarrow> string \<Rightarrow> state \<Rightarrow> outcome" where
  "play_preset presetIdx file s =
     (if \<not> audioUnlocked s \<or> \<not> enabled (audioConfig s) then Returned s
      else
        case map_of (presetAudios s) presetIdx of
          None \<Rightarrow> preset_create presetIdx file s
        | Some existing \<Rightarrow>
            if src (els s ! existing) \<noteq> [] then preset_resume existing s
            else preset_create presetIdx file s)"

definition pause_preset :: "int \<Rightarrow> state \<Rightarrow> state" where
  "pause_preset presetIdx s =
     (case map_of (presetAudios s) presetIdx of
        None \<Rightarrow> s
      | Some r \<Rightarrow> upd_el r (\<lambda>a. a\<lparr> paused := True \<rparr>) s)"

definition seek_preset :: "int \<Rightarrow> real \<Rightarrow> state \<Rightarrow> state" where
  "seek_preset presetIdx time s =
     (case map_of (presetAudios s) presetIdx of
        None \<Rightarrow> s
      | Some r \<Rightarrow> upd_el r (\<lambda>a. a\<lparr> currentTime := time \<rparr>) s)"

definition stop_preset :: "int \<Rightarrow> state \<Rightarrow> state" where
  "stop_preset presetIdx s =
     (case map_of (presetAudios s) presetIdx of
        None \<Rightarrow> s
      | Some r \<Rightarrow>
          (let s1 = teardown r s
           in s1\<lparr> presetAudios := AList.delete presetIdx (presetAudios s1) \<rparr>))"

text \<open>\<open>atob\<close> decodes as the platform specifies: ASCII whitespace is dropped; if the
  length is then a multiple of four, one or two trailing \<open>=\<close> are dropped; the call
  throws if the remaining length is one more than a multiple of four or a character is
  outside the base64 alphabet.\<close>

definition ascii_whitespace :: string where
  "ascii_whitespace = [CHR 0x09, CHR 0x0A, CHR 0x0C, CHR 0x0D, CHR 0x20]"

definition base64_alphabet :: string where
  "base64_alphabet =
     ''ABCDEFGHIJKLMNOPQRSTUVWXYZabcdefghijklmnopqrstuvwxyz0123456789+/''"

definition strip_padding :: "string \<Rightarrow> string" where
  "strip_padding d =
     (if length d mod 4 = 0 then
        (case rev d of
           c1 # c2 # rest \<Rightarrow>
             if c1 = CHR ''='' \<and> c2 = CHR ''='' then rev rest
             else if c1 = CHR ''='' then rev (c2 # rest) else d
         | other \<Rightarrow> d)
      else d)"

definition atob_ok :: "string \<Rightarrow> bool" where
  "atob_ok payload =
     (let d = strip_padding (filter (\<lambda>c. c \<notin> set ascii_whitespace) payload)
      in length d mod 4 \<noteq> 1 \<and> list_all (\<lambda>c. c \<in> set base64_alphabet) d)"

text \<open>\<open>URL.createObjectURL\<close> hands out a fresh URL per call; the model numbers them.
  The decoded bytes of the payload and the type of the blob are not kept: nothing reads
  them back.\<close>

fun nat_digits :: "nat \<Rightarrow> string" where
  "nat_digits n =
     (if n < 10 then [''0123456789'' ! n]
      else nat_digits (n div 10) @ [''0123456789'' ! (n mod 10)])"

definition createObjectURL :: "state \<Rightarrow> string \<times> state" where
  "createObjectURL s =
     (let url = ''blob:'' @ nat_digits (urlCount s)
      in (url, s\<lparr> objectURLs := objectURLs s @ [url], urlCount := Suc (urlCount s) \<rparr>))"

definition revokeObjectURL :: "string \<Rightarrow> state \<Rightarrow> state" where
  "revokeObjectURL url s = s\<lparr> objectURLs := removeAll url (objectURLs s) \<rparr>"

definition tts_onended :: "string \<Rightarrow> state \<Rightarrow> state" where
  "tts_onended url s = (revokeObjectURL url s)\<lparr> ttsAudio := None \<rparr>"

definition play_tts :: "string \<Rightarrow> string option \<Rightarrow> state \<Rightarrow> outcome" where
  "play_tts audioBase64 mimeType s =
     (if \<not> audioUnlocked s \<or> \<not> enabled (audioConfig s) then Returned s
      else
        let s1 = (case ttsAudio s of None \<Rightarrow> s | Some old \<Rightarrow> teardown old s)
        in if \<not> atob_ok audioBase64 then Thrown InvalidCharacterError s1
           else
             let (url, s2) = createObjectURL s1;
                 r = length (els s2);
                 s3 = s2\<lparr> els := els s2 @ [new_el url], ttsAudio := Some r \<rparr>
             in and_then (set_volume r (iaVolume s3) s3)
                  (\<lambda>s4. let s5 = routeThroughMaster r s4;
                            s6 = upd_el r (\<lambda>a. a\<lparr> onended := TtsEnd url \<rparr>) s5
                        in Returned (upd_el r (\<lambda>a. a\<lparr> paused := False \<rparr>) s6)))"

definition volume_ia :: "real \<Rightarrow> state \<Rightarrow> outcome" where
  "volume_ia v s =
     (let s1 = s\<lparr> iaVolume := v \<rparr>
      in and_then (for_each (\<lambda>r. set_volume r (iaVolume s1)) (map snd (presetAudios s1)) s1)
           (\<lambda>s2. case ttsAudio s2 of
                   None \<Rightarrow> Returned s2
                 | Some r \<Rightarrow> set_volume r (iaVolume s2) s2))"

definition master_volume :: "real \<Rightarrow> state \<Rightarrow> state" where
  "master_volume v s =
     (let s1 = s\<lparr> masterVolume := v \<rparr>
      in if masterGain s1 \<noteq> None then s1\<lparr> masterGain := Some (masterVolume s1) \<rparr> else s1)"

definition stop_all :: "state \<Rightarrow> state" where
  "stop_all s = stopAllAudio s"

text \<open>The audio part of the module's own \<open>connect\<close> handler.\<close>

definition on_connect :: "state \<Rightarrow> state" where
  "on_connect s =
     (if audioUnlocked s \<and> enabled (audioConfig s) then socket_emit RegisterAudioPlayer s else s)"

subsection \<open>The audio API of the exported object\<close>

text \<open>The spread \<open>{...audioConfig, ...config}\<close>: a field of the partial that is present
  replaces the stored one, also when its value is \<open>undefined\<close>. The stored fields are
  only ever tested for truth, so the model keeps the truth value: \<open>undefined\<close> is stored
  as false.\<close>

definition merge_field :: "bool \<Rightarrow> bool partial_field \<Rightarrow> bool" where
  "merge_field stored p = (case p of Absent \<Rightarrow> stored | Undefined \<Rightarrow> False | Given b \<Rightarrow> b)"

definition merge_config :: "audio_config \<Rightarrow> partial_config \<Rightarrow> audio_config" where
  "merge_config c p =
     \<lparr> enabled = merge_field (enabled c) (enabled_opt p),
       autoUnlock = merge_field (autoUnlock c) (autoUnlock_opt p),
       debug = merge_field (debug c) (debug_opt p) \<rparr>"

definition configureAudio :: "partial_config \<Rightarrow> state \<Rightarrow> state" where
  "configureAudio config s =
     (let s1 = s\<lparr> audioConfig := merge_config (audioConfig s) config \<rparr>;
          s2 = (if enabled_opt config = Given True \<and> autoUnlock_opt config \<noteq> Given False
                then addUnlockListeners s1 else s1)
      in if enabled_opt config = Given False
         then stopProgressReporting (stopAllAudio s2) else s2)"

definition unlockAudio :: "state \<Rightarrow> bool \<times> state" where
  "unlockAudio s =
     (if audioUnlocked s then (True, s)
      else if \<not> enabled (audioConfig s) then (False, s)
      else (let s1 = doUnlockAudio s in (audioUnlocked s1, s1)))"

definition disableAudio :: "state \<Rightarrow> state" where
  "disableAudio s =
     stopProgressReporting (stopAllAudio (s\<lparr> audioConfig := (audioConfig s)\<lparr> enabled := False \<rparr> \<rparr>))"

definition enableAudio :: "state \<Rightarrow> state" where
  "enableAudio s =
     (let s1 = s\<lparr> audioConfig := (audioConfig s)\<lparr> enabled := True \<rparr> \<rparr>
      in if audioUnlocked s1 then startProgressReporting (socket_emit RegisterAudioPlayer s1)
         else s1)"

subsection \<open>What the platform does\<close>

text \<open>A gesture fires the one-shot listener of its event, if attached: the listener is
  removed, then \<open>doUnlockAudio\<close> runs.\<close>

definition gesture :: "string \<Rightarrow> state \<Rightarrow> state" where
  "gesture e s =
     (if e \<in> set (unlockListeners s)
      then doUnlockAudio (s\<lparr> unlockListeners := removeAll e (unlockListeners s) \<rparr>)
      else s)"

text \<open>Playback moves the position of an element that has a source, and its duration
  becomes known.\<close>

definition media_progress :: "ref \<Rightarrow> real \<Rightarrow> real \<Rightarrow> state \<Rightarrow> state" where
  "media_progress r t d s =
     (if r < length (els s) \<and> src (els s ! r) \<noteq> []
      then upd_el r (\<lambda>a. a\<lparr> currentTime := t, duration := Some d \<rparr>) s
      else s)"

text \<open>Natural end of playback: only an element that is playing, does not loop, has a
  source and a known duration can reach its end. The position is then the duration,
  the element is paused and \<open>ended\<close>, and its \<open>onended\<close> closure runs.\<close>

definition can_end :: "state \<Rightarrow> ref \<Rightarrow> bool" where
  "can_end s r =
     (r < length (els s) \<and> \<not> paused (els s ! r) \<and> \<not> loop (els s ! r) \<and>
      src (els s ! r) \<noteq> [] \<and> \<not> ended (els s ! r) \<and> duration (els s ! r) \<noteq> None)"

definition fire_onended :: "ref \<Rightarrow> state \<Rightarrow> state" where
  "fire_onended r s =
     (case onended (els s ! r) of
        NoHandler \<Rightarrow> s
      | PresetEnd presetIdx \<Rightarrow> preset_onended presetIdx r s
      | TtsEnd url \<Rightarrow> tts_onended url s)"

definition element_ended :: "ref \<Rightarrow> state \<Rightarrow> state" where
  "element_ended r s =
     (if can_end s r
      then fire_onended r
             (upd_el r (\<lambda>a. a\<lparr> currentTime := (case duration a of None \<Rightarrow> currentTime a | Some d \<Rightarrow> d),
                                   paused := True, ended := True \<rparr>) s)
      else s)"

subsection \<open>The listener registry of the socket\<close>

text \<open>The socket keeps, per event name, the callbacks in registration order:
  \<open>socket.on\<close> appends one, \<open>socket.off(name)\<close> drops every callback of the name.
  A listener is one of the arrow functions of \<open>setupAudioEventListeners\<close> (named by
  the event it is written for), or one of the module's own \<open>connect\<close> and
  \<open>disconnect\<close> handlers, or the wrapper that \<open>onCommand\<close> builds around the caller's
  callback, or a callback given to \<open>onMessage\<close>, \<open>onConnect\<close> or \<open>onDisconnect\<close>; a
  caller's callback is an opaque function, identified by a number, and two callbacks are
  the same function exactly when they have the same number.\<close>

datatype audio_event =
  PlayAmbient string string "real option"
  | StopAmbient string
  | VolumeAmbient string real
  | PlayPreset int string
  | PausePreset int
  | SeekPreset int real
  | StopPreset int
  | PlayTTS string "string option"
  | VolumeIA real
  | MasterVolume real
  | StopAll

fun event_name :: "audio_event \<Rightarrow> string" where
  "event_name (PlayAmbient soundId file vol) = ''audio:play-ambient''"
| "event_name (StopAmbient soundId) = ''audio:stop-ambient''"
| "event_name (VolumeAmbient soundId v) = ''audio:volume-ambient''"
| "event_name (PlayPreset presetIdx file) = ''audio:play-preset''"
| "event_name (PausePreset presetIdx) = ''audio:pause-preset''"
| "event_name (SeekPreset presetIdx time) = ''audio:seek-preset''"
| "event_name (StopPreset presetIdx) = ''audio:stop-preset''"
| "event_name (PlayTTS audioBase64 mimeType) = ''audio:play-tts''"
| "event_name (VolumeIA v) = ''audio:volume-ia''"
| "event_name (MasterVolume v) = ''audio:master-volume''"
| "event_name StopAll = ''audio:stop-all''"

text \<open>The handler written for an event, applied to the event's payload.\<close>

fun handle :: "audio_event \<Rightarrow> state \<Rightarrow> outcome" where
  "handle (PlayAmbient soundId file vol) s = play_ambient soundId file vol s"
| "handle (StopAmbient soundId) s = Returned (stop_ambient soundId s)"
| "handle (VolumeAmbient soundId v) s = volume_ambient soundId v s"
| "handle (PlayPreset presetIdx file) s = play_preset presetIdx file s"
| "handle (PausePreset presetIdx) s = Returned (pause_preset presetIdx s)"
| "handle (SeekPreset presetIdx time) s = Returned (seek_preset presetIdx time s)"
| "handle (StopPreset presetIdx) s = Returned (stop_preset presetIdx s)"
| "handle (PlayTTS audioBase64 mimeType) s = play_tts audioBase64 mimeType s"
| "handle (VolumeIA v) s = volume_ia v s"
| "handle (MasterVolume v) s = Returned (master_volume v s)"
| "handle StopAll s = Returned (stop_all s)"

text \<open>The three handlers that begin with the gate check, and the state with the two
  flags of the gate set to given values (used to say that a handler does not read the
  gate).\<close>

fun gated :: "audio_event \<Rightarrow> bool" where
  "gated (PlayAmbient soundId file vol) = True"
| "gated (PlayPreset presetIdx file) = True"
| "gated (PlayTTS audioBase64 mimeType) = True"
| "gated ev = False"

definition set_gate :: "bool \<Rightarrow> bool \<Rightarrow> state \<Rightarrow> state" where
  "set_gate u e s = s\<lparr> audioUnlocked := u, audioConfig := (audioConfig s)\<lparr> enabled := e \<rparr> \<rparr>"

datatype listener =
  AudioHandler string
  | ModuleConnect
  | ModuleDisconnect
  | CommandWrapper nat
  | MessageCallback nat
  | ConnectCallback nat
  | DisconnectCallback nat

type_synonym registry = "(string \<times> listener) list"

definition socket_on :: "string \<Rightarrow> listener \<Rightarrow> registry \<Rightarrow> registry" where
  "socket_on n l reg = reg @ [(n, l)]"

definition socket_off :: "string \<Rightarrow> registry \<Rightarrow> registry" where
  "socket_off n reg = filter (\<lambda>e. fst e \<noteq> n) reg"

text \<open>\<open>socket.off(name, fn)\<close> removes the first registration of that very function
  under the name, if there is one.\<close>

definition socket_off_fn :: "string \<Rightarrow> listener \<Rightarrow> registry \<Rightarrow> registry" where
  "socket_off_fn n l reg = remove1 (n, l) reg"

definition listeners_of :: "string \<Rightarrow> registry \<Rightarrow> listener list" where
  "listeners_of n reg = map snd (filter (\<lambda>e. fst e = n) reg)"

definition audio_event_names :: "string list" where
  "audio_event_names =
     [''audio:play-ambient'', ''audio:stop-ambient'', ''audio:volume-ambient'',
      ''audio:play-preset'', ''audio:pause-preset'', ''audio:seek-preset'',
      ''audio:stop-preset'', ''audio:play-tts'', ''audio:volume-ia'',
      ''audio:master-volume'', ''audio:stop-all'']"

definition setupAudioEventListeners :: "registry \<Rightarrow> registry" where
  "setupAudioEventListeners reg = fold (\<lambda>n. socket_on n (AudioHandler n)) audio_event_names reg"

text \<open>The registry once the module has loaded in a browser: its own \<open>connect\<close> and
  \<open>disconnect\<close> handlers, then the audio handlers, registered by the single call of
  \<open>setupAudioEventListeners\<close> in the \<open>initAudio\<close> block.\<close>

definition module_registry :: registry where
  "module_registry =
     setupAudioEventListeners
       (socket_on ''disconnect'' ModuleDisconnect (socket_on ''connect'' ModuleConnect []))"

definition onCommand :: "nat \<Rightarrow> registry \<Rightarrow> registry" where
  "onCommand callback reg = socket_on ''command'' (CommandWrapper callback) (socket_off ''command'' reg)"

definition onMessage :: "nat \<Rightarrow> registry \<Rightarrow> registry" where
  "onMessage callback reg =
     socket_on ''game-message'' (MessageCallback callback) (socket_off ''game-message'' reg)"

definition onConnect :: "nat \<Rightarrow> registry \<Rightarrow> registry" where
  "onConnect callback reg =
     socket_on ''connect'' (ConnectCallback callback)
       (socket_off_fn ''connect'' (ConnectCallback callback) reg)"

definition onDisconnect :: "nat \<Rightarrow> registry \<Rightarrow> registry" where
  "onDisconnect callback reg =
     socket_on ''disconnect'' (DisconnectCallback callback)
       (socket_off_fn ''disconnect'' (DisconnectCallback callback) reg)"

text \<open>The effect of \<open>App\<close>, which runs on every mount: it registers three arrow
  functions, created anew by each run. The number identifies the run that created them.\<close>

definition app_effect :: "nat \<Rightarrow> registry \<Rightarrow> registry" where
  "app_effect mount reg = onDisconnect mount (onConnect mount (onCommand mount reg))"

text \<open>Delivery of an inbound event runs every listener registered under its name, in
  order; a listener that throws ends the delivery. An audio listener runs the handler it
  was written for. For the caller's callbacks the model records which ones a delivered
  event invokes, one entry per invocation.\<close>

fun run_listener :: "audio_event \<Rightarrow> listener \<Rightarrow> state \<Rightarrow> outcome" where
  "run_listener ev (AudioHandler n) s = (if event_name ev = n then handle ev s else Returned s)"
| "run_listener ev other s = Returned s"

fun run_listeners :: "audio_event \<Rightarrow> listener list \<Rightarrow> state \<Rightarrow> outcome" where
  "run_listeners ev [] s = Returned s"
| "run_listeners ev (l # ls) s = and_then (run_listener ev l s) (run_listeners ev ls)"

definition deliver :: "registry \<Rightarrow> audio_event \<Rightarrow> state \<Rightarrow> outcome" where
  "deliver reg ev s = run_listeners ev (listeners_of (event_name ev) reg) s"



subsection \<open>Runs\<close>

text \<open>What can happen to the client, one action at a time: an inbound audio event,
  which the socket hands to the handler registered for it; a (re)connection; a user
  gesture on the document; a tick of the progress timer; the platform advancing an
  element or ending it; and the calls of the exported audio API. When a handler throws,
  the exception leaves the handler and the client goes on from the state the handler had
  reached.\<close>

datatype action =
  Inbound audio_event
  | Connect
  | Gesture string
  | Tick
  | MediaProgress ref real real
  | Ended ref
  | ConfigureAudio partial_config
  | UnlockAudio
  | DisableAudio
  | EnableAudio

fun step :: "action \<Rightarrow> state \<Rightarrow> state" where
  "step (Inbound ev) s = state_of (handle ev s)"
| "step Connect s = on_connect s"
| "step (Gesture e) s = gesture e s"
| "step Tick s = (if progressInterval s \<noteq> None then progress_tick s else s)"
| "step (MediaProgress r t d) s = media_progress r t d s"
| "step (Ended r) s = element_ended r s"
| "step (ConfigureAudio config) s = configureAudio config s"
| "step UnlockAudio s = snd (unlockAudio s)"
| "step DisableAudio s = disableAudio s"
| "step EnableAudio s = enableAudio s"

fun run :: "action list \<Rightarrow> state \<Rightarrow> state" where
  "run [] s = s"
| "run (a # as) s = run as (step a s)"

inductive reachable :: "state \<Rightarrow> bool" where
  reachable_init: "reachable init"
| reachable_step: "reachable s \<Longrightarrow> reachable (step a s)"

subsection \<open>Well-formed states\<close>

text \<open>What holds of every state the client can reach: the keys of each map are
  distinct; an ambient entry refers to an allocated looping element, and no two ids share
  an element; a preset entry refers to an allocated, non-looping element that has its
  source and carries the \<open>onended\<close> closure of its own slot; the speech clip is allocated
  and is no map's element; every looping element that has a source and is not paused is
  in the ambient map; and the routing graph exists exactly when the gate is unlocked, its
  gain being the stored master volume.\<close>

definition wf :: "state \<Rightarrow> bool" where
  "wf s \<longleftrightarrow>
     distinct (map fst (ambientAudios s)) \<and> distinct (map fst (presetAudios s)) \<and>
     (\<forall>k r. map_of (ambientAudios s) k = Some r \<longrightarrow>
        r < length (els s) \<and> loop (els s ! r) \<and> ttsAudio s \<noteq> Some r \<and>
        (\<forall>k'. map_of (ambientAudios s) k' = Some r \<longrightarrow> k' = k)) \<and>
     (\<forall>i r. map_of (presetAudios s) i = Some r \<longrightarrow>
        r < length (els s) \<and> \<not> loop (els s ! r) \<and> src (els s ! r) \<noteq> [] \<and>
        onended (els s ! r) = PresetEnd i \<and> ttsAudio s \<noteq> Some r) \<and>
     (\<forall>r. ttsAudio s = Some r \<longrightarrow> r < length (els s)) \<and>
     (\<forall>r < length (els s).
        loop (els s ! r) \<and> src (els s ! r) \<noteq> [] \<and> \<not> paused (els s ! r) \<longrightarrow>
        (\<exists>k. map_of (ambientAudios s) k = Some r)) \<and>
     audioCtx s = audioUnlocked s \<and>
     masterGain s = (if audioCtx s then Some (masterVolume s) else None)"

subsection \<open>The voice lookup of the ElevenLabs helper\<close>













section \<open>Properties\<close>

subsection \<open>What each throwing handler returns\<close>

lemma fold_upd_el:
  "fold (\<lambda>r. upd_el r f) rs s = s\<lparr> els := fold (\<lambda>r l. l[r := f (l ! r)]) rs (els s) \<rparr>"
  by (induction rs arbitrary: s) (simp_all add: upd_el_def)

lemma fold_teardown:
  "fold teardown rs s =
     s\<lparr> els := fold (\<lambda>r l. l[r := (l ! r)\<lparr> paused := True, src := [] \<rparr>]) rs (els s) \<rparr>"
  by (induction rs arbitrary: s) (simp_all add: teardown_def upd_el_def)

lemma upd_last: "upd_el (length l) f (s\<lparr> els := l @ [x] \<rparr>) = s\<lparr> els := l @ [f x] \<rparr>"
  by (simp add: upd_el_def)

lemma route_last:
  "routeThroughMaster (length l) (s\<lparr> els := l @ [x] \<rparr>) =
     s\<lparr> els := l @ [if audioCtx s \<and> masterGain s \<noteq> None then x\<lparr> routed := True \<rparr> else x] \<rparr>"
  by (auto simp add: routeThroughMaster_def upd_el_def)

lemma upd_at_end: "length l = n \<Longrightarrow> (l @ [x])[n := y] = l @ [y]"
  by auto

lemma nth_at_end: "length l = n \<Longrightarrow> (l @ [x]) ! n = x"
  by auto

lemma set_volume_eq:
  "set_volume r v s =
     (if valid_volume v then Returned (s\<lparr> els := (els s)[r := (els s ! r)\<lparr> volume := v \<rparr>] \<rparr>)
      else Thrown IndexSizeError s)"
  by (simp add: set_volume_def upd_el_def)

lemma for_each_set_volume:
  "for_each (\<lambda>r. set_volume r v) rs s =
     (if valid_volume v
      then Returned (s\<lparr> els := fold (\<lambda>r l. l[r := (l ! r)\<lparr> volume := v \<rparr>]) rs (els s) \<rparr>)
      else if rs = [] then Returned s else Thrown IndexSizeError s)"
  by (induction rs arbitrary: s) (simp_all add: set_volume_eq)

lemma volume_ambient_eq:
  "volume_ambient k v s =
     (case map_of (ambientAudios s) k of
        None \<Rightarrow> Returned s
      | Some r \<Rightarrow>
          if valid_volume v then Returned (s\<lparr> els := (els s)[r := (els s ! r)\<lparr> volume := v \<rparr>] \<rparr>)
          else Thrown IndexSizeError s)"
  by (simp add: volume_ambient_def set_volume_eq split: option.splits)

lemma ambient_start_eq:
  "ambient_start k f v s =
     (if valid_volume (case v of None \<Rightarrow> 0.5 | Some x \<Rightarrow> x)
      then Returned
        (s\<lparr> els := els s @ [\<lparr> src = BACKOFFICE_URL @ ''/sounds/'' @ f,
                               volume = (case v of None \<Rightarrow> 0.5 | Some x \<Rightarrow> x), loop = True,
                               paused = False, currentTime = 0, duration = None, ended = False,
                               onended = NoHandler,
                               routed = (audioCtx s \<and> masterGain s \<noteq> None) \<rparr>],
            ambientAudios := AList.update k (length (els s)) (ambientAudios s) \<rparr>)
      else Thrown IndexSizeError
        (s\<lparr> els := els s @ [\<lparr> src = BACKOFFICE_URL @ ''/sounds/'' @ f,
                               volume = 1, loop = True,
                               paused = True, currentTime = 0, duration = None, ended = False,
                               onended = NoHandler, routed = False \<rparr>] \<rparr>))"
  by (simp add: ambient_start_def Let_def upd_last route_last new_el_def set_volume_def)

lemma preset_create_eq:
  "preset_create i f s =
     (if valid_volume (iaVolume s)
      then Returned
        (s\<lparr> els := els s @ [\<lparr> src = BACKOFFICE_URL @ ''/presets/'' @ f,
                               volume = iaVolume s, loop = False,
                               paused = False, currentTime = 0, duration = None, ended = False,
                               onended = PresetEnd i,
                               routed = (audioCtx s \<and> masterGain s \<noteq> None) \<rparr>],
            presetAudios := AList.update i (length (els s)) (presetAudios s) \<rparr>)
      else Thrown IndexSizeError
        (s\<lparr> els := els s @ [\<lparr> src = BACKOFFICE_URL @ ''/presets/'' @ f,
                               volume = 1, loop = False,
                               paused = True, currentTime = 0, duration = None, ended = False,
                               onended = NoHandler, routed = False \<rparr>] \<rparr>))"
  by (simp add: preset_create_def Let_def upd_last route_last new_el_def set_volume_def)

lemma preset_resume_eq:
  "preset_resume r s =
     (if valid_volume (iaVolume s)
      then Returned (s\<lparr> els := (els s)[r := (els s ! r)\<lparr> volume := iaVolume s, paused := False \<rparr>] \<rparr>)
      else Thrown IndexSizeError s)"
  by (cases "r < length (els s)")
    (simp_all add: preset_resume_def set_volume_eq upd_el_def list_update_beyond)

lemma play_tts_eq:
  assumes "isAudioReady s"
  shows "play_tts b m s =
     (let s1 = (case ttsAudio s of None \<Rightarrow> s | Some old \<Rightarrow> teardown old s)
      in if \<not> atob_ok b then Thrown InvalidCharacterError s1
         else if valid_volume (iaVolume s)
         then Returned
           (s1\<lparr> els := els s1 @ [\<lparr> src = ''blob:'' @ nat_digits (urlCount s), volume = iaVolume s,
                                    loop = False, paused = False, currentTime = 0, duration = None,
                                    ended = False, onended = TtsEnd (''blob:'' @ nat_digits (urlCount s)),
                                    routed = (audioCtx s \<and> masterGain s \<noteq> None) \<rparr>],
                 ttsAudio := Some (length (els s)),
                 objectURLs := objectURLs s @ [''blob:'' @ nat_digits (urlCount s)],
                 urlCount := Suc (urlCount s) \<rparr>)
         else Thrown IndexSizeError
           (s1\<lparr> els := els s1 @ [\<lparr> src = ''blob:'' @ nat_digits (urlCount s), volume = 1,
                                    loop = False, paused = True, currentTime = 0, duration = None,
                                    ended = False, onended = NoHandler, routed = False \<rparr>],
                 ttsAudio := Some (length (els s)),
                 objectURLs := objectURLs s @ [''blob:'' @ nat_digits (urlCount s)],
                 urlCount := Suc (urlCount s) \<rparr>))"
  using assms
  by (cases "ttsAudio s")
    (auto simp add: play_tts_def isAudioReady_def createObjectURL_def Let_def new_el_def
      teardown_def upd_el_def routeThroughMaster_def upd_at_end nth_at_end set_volume_def
      simp del: nat_digits.simps)

lemma volume_ia_eq:
  "volume_ia v s =
     (if valid_volume v
      then Returned
        (s\<lparr> iaVolume := v,
            els := fold (\<lambda>r l. l[r := (l ! r)\<lparr> volume := v \<rparr>])
                     (map snd (presetAudios s) @ (case ttsAudio s of None \<Rightarrow> [] | Some r \<Rightarrow> [r]))
                     (els s) \<rparr>)
      else if presetAudios s = [] \<and> ttsAudio s = None then Returned (s\<lparr> iaVolume := v \<rparr>)
      else Thrown IndexSizeError (s\<lparr> iaVolume := v \<rparr>))"
  by (simp add: volume_ia_def Let_def for_each_set_volume set_volume_eq split: option.splits)

lemma master_volume_eq:
  "master_volume v s =
     s\<lparr> masterVolume := v, masterGain := (if masterGain s \<noteq> None then Some v else None) \<rparr>"
  by (auto simp add: master_volume_def Let_def)

lemma stopAllAudio_eq:
  "stopAllAudio s =
     s\<lparr> els := fold (\<lambda>r l. l[r := (l ! r)\<lparr> paused := True, src := [] \<rparr>])
                 (map snd (ambientAudios s) @ map snd (presetAudios s) @
                  (case ttsAudio s of None \<Rightarrow> [] | Some r \<Rightarrow> [r])) (els s),
        ambientAudios := [], presetAudios := [], ttsAudio := None \<rparr>"
  by (simp add: stopAllAudio_def Let_def fold_teardown teardown_def upd_el_def split: option.splits)

lemma ambient_teardown_eq:
  "ambient_teardown k s =
     s\<lparr> els := (case map_of (ambientAudios s) k of
                   None \<Rightarrow> els s
                 | Some r \<Rightarrow> (els s)[r := (els s ! r)\<lparr> paused := True, src := [] \<rparr>]) \<rparr>"
  by (simp add: ambient_teardown_def teardown_def upd_el_def split: option.splits)

lemmas op_defs =
  stop_ambient_def pause_preset_def seek_preset_def
  stop_preset_def createObjectURL_def master_volume_def stop_all_def
  stopAllAudio_def on_connect_def configureAudio_def unlockAudio_def disableAudio_def
  enableAudio_def gesture_def media_progress_def element_ended_def fire_onended_def
  preset_onended_def tts_onended_def revokeObjectURL_def doUnlockAudio_def initAudioContext_def
  routeThroughMaster_def startProgressReporting_def stopProgressReporting_def
  addUnlockListeners_def removeUnlockListeners_def progress_tick_def socket_emit_def
  teardown_def upd_el_def

lemmas throwing_defs =
  play_ambient_def ambient_teardown_eq ambient_start_eq volume_ambient_eq play_preset_def
  preset_create_eq preset_resume_eq play_tts_def set_volume_def volume_ia_eq

subsection \<open>The unlock gate\<close>

lemma play_tts_unlocked: "audioUnlocked (state_of (play_tts b m s)) = audioUnlocked s"
proof (cases "isAudioReady s")
  case True
  then show ?thesis
    by (simp add: play_tts_eq Let_def teardown_def upd_el_def split: option.splits)
next
  case False
  then show ?thesis by (simp add: play_tts_def isAudioReady_def)
qed

lemma handle_unlocked: "audioUnlocked (state_of (handle ev s)) = audioUnlocked s"
proof (cases ev)
  case (PlayTTS b m)
  then show ?thesis by (simp add: play_tts_unlocked)
qed (simp_all add: op_defs play_ambient_def ambient_teardown_eq ambient_start_eq volume_ambient_eq
      play_preset_def preset_create_eq preset_resume_eq volume_ia_eq
      fold_upd_el fold_teardown Let_def split: option.splits)

lemma step_unlocked: "audioUnlocked s \<Longrightarrow> audioUnlocked (step a s)"
  by (cases a)
    (simp_all add: handle_unlocked op_defs fold_upd_el fold_teardown Let_def
      split: option.splits end_handler.splits)

lemma run_unlocked: "audioUnlocked s \<Longrightarrow> audioUnlocked (run as s)"
  by (induction as arbitrary: s) (simp_all add: step_unlocked)

lemma doUnlockAudio_noop:
  "audioUnlocked s \<or> \<not> enabled (audioConfig s) \<Longrightarrow> doUnlockAudio s = s"
  by (simp add: doUnlockAudio_def)

lemma listeners_removed: "set (fold removeAll es ls) = set ls - set es"
  by (induction es arbitrary: ls) auto

lemma doUnlockAudio_first:
  assumes "\<not> audioUnlocked s" "enabled (audioConfig s)"
  shows "audioUnlocked (doUnlockAudio s)"
    and "emitted (doUnlockAudio s) = emitted s @ [RegisterAudioPlayer]"
    and "progressInterval (doUnlockAudio s) \<noteq> None"
    and "set (unlockListeners (doUnlockAudio s)) \<inter> set unlockEvents = {}"
    and "audioCtx (doUnlockAudio s)"
  using assms
  by (auto simp add: doUnlockAudio_def initAudioContext_def socket_emit_def Let_def
      startProgressReporting_def removeUnlockListeners_def listeners_removed)

lemma doUnlockAudio_idem: "doUnlockAudio (doUnlockAudio s) = doUnlockAudio s"
proof (cases "audioUnlocked s \<or> \<not> enabled (audioConfig s)")
  case True
  then show ?thesis by (simp add: doUnlockAudio_noop)
next
  case False
  then have "audioUnlocked (doUnlockAudio s)" by (simp add: doUnlockAudio_first)
  then show ?thesis by (simp add: doUnlockAudio_noop)
qed

text \<open>
  C8. Unlocking is idempotent and the unlock state is monotonic. When the gate is
  already unlocked, or audio is disabled, \<open>doUnlockAudio\<close> and the API's \<open>unlockAudio\<close>
  leave the state as it is. The first successful unlock sets \<open>audioUnlocked\<close>, emits
  \<open>register-audio-player\<close>, starts the progress timer and leaves none of the three
  gesture listeners attached. A second unlock changes nothing more, and no action and
  no sequence of actions takes \<open>audioUnlocked\<close> back to false.
\<close>

theorem unlock_idempotent_monotonic:
  "(audioUnlocked s \<or> \<not> enabled (audioConfig s) \<longrightarrow>
      doUnlockAudio s = s \<and> snd (unlockAudio s) = s \<and> fst (unlockAudio s) = audioUnlocked s)
   \<and> (\<not> audioUnlocked s \<and> enabled (audioConfig s) \<longrightarrow>
        audioUnlocked (doUnlockAudio s)
        \<and> emitted (doUnlockAudio s) = emitted s @ [RegisterAudioPlayer]
        \<and> progressInterval (doUnlockAudio s) \<noteq> None
        \<and> set (unlockListeners (doUnlockAudio s)) \<inter> set unlockEvents = {}
        \<and> unlockAudio s = (True, doUnlockAudio s))
   \<and> doUnlockAudio (doUnlockAudio s) = doUnlockAudio s
   \<and> (audioUnlocked s \<longrightarrow> audioUnlocked (step a s) \<and> audioUnlocked (run as s))"
proof -
  have a: "audioUnlocked s \<or> \<not> enabled (audioConfig s) \<longrightarrow>
      doUnlockAudio s = s \<and> snd (unlockAudio s) = s \<and> fst (unlockAudio s) = audioUnlocked s"
    by (auto simp add: doUnlockAudio_noop unlockAudio_def)
  have b: "\<not> audioUnlocked s \<and> enabled (audioConfig s) \<longrightarrow>
        audioUnlocked (doUnlockAudio s)
        \<and> emitted (doUnlockAudio s) = emitted s @ [RegisterAudioPlayer]
        \<and> progressInterval (doUnlockAudio s) \<noteq> None
        \<and> set (unlockListeners (doUnlockAudio s)) \<inter> set unlockEvents = {}
        \<and> unlockAudio s = (True, doUnlockAudio s)"
    by (simp add: doUnlockAudio_first unlockAudio_def Let_def)
  have c: "audioUnlocked s \<longrightarrow> audioUnlocked (step a s) \<and> audioUnlocked (run as s)"
    by (simp add: step_unlocked run_unlocked)
  from a b c doUnlockAudio_idem show ?thesis by blast
qed

theorem unlock_idempotent_monotonic_witness:
  "\<not> audioUnlocked init \<and> enabled (audioConfig init)
   \<and> audioUnlocked (doUnlockAudio init)
   \<and> emitted (doUnlockAudio init) = [RegisterAudioPlayer]
   \<and> progressInterval (doUnlockAudio init) = Some 0
   \<and> unlockListeners (doUnlockAudio init) = []
   \<and> doUnlockAudio (doUnlockAudio init) = doUnlockAudio init
   \<and> audioUnlocked (run [DisableAudio, Inbound StopAll, EnableAudio, Gesture ''click''] (doUnlockAudio init))
   \<and> snd (unlockAudio (disableAudio init)) = disableAudio init"
proof -
  have h: "\<not> audioUnlocked init \<and> enabled (audioConfig init)"
    by (simp add: init_def)
  have u: "doUnlockAudio init = init\<lparr> audioUnlocked := True, audioCtx := True, masterGain := Some 1,
          primerStarts := 1, emitted := [RegisterAudioPlayer], progressInterval := Some 0,
          timerCount := 1, unlockListeners := [] \<rparr>"
    by (simp add: init_def doUnlockAudio_def initAudioContext_def socket_emit_def Let_def
        startProgressReporting_def removeUnlockListeners_def unlockEvents_def)
  have d: "\<not> enabled (audioConfig (disableAudio init))"
    by (simp add: init_def disableAudio_def stopAllAudio_def stopProgressReporting_def Let_def)
  from h u d
    unlock_idempotent_monotonic [of init "Connect" "[]"]
    unlock_idempotent_monotonic [of "doUnlockAudio init" "Connect"
      "[DisableAudio, Inbound StopAll, EnableAudio, Gesture ''click'']"]
    unlock_idempotent_monotonic [of "disableAudio init" "Connect" "[]"]
  show ?thesis by (simp add: init_def)
qed

subsection \<open>The invariant\<close>

lemma wf_init: "wf init"
  by (simp add: wf_def init_def)

lemma wfI:
  assumes "distinct (map fst (ambientAudios s))" "distinct (map fst (presetAudios s))"
    and "\<And>k r. map_of (ambientAudios s) k = Some r \<Longrightarrow>
           r < length (els s) \<and> loop (els s ! r) \<and> ttsAudio s \<noteq> Some r"
    and "\<And>k k' r. map_of (ambientAudios s) k = Some r \<Longrightarrow> map_of (ambientAudios s) k' = Some r \<Longrightarrow> k' = k"
    and "\<And>i r. map_of (presetAudios s) i = Some r \<Longrightarrow>
           r < length (els s) \<and> \<not> loop (els s ! r) \<and> src (els s ! r) \<noteq> [] \<and>
           onended (els s ! r) = PresetEnd i \<and> ttsAudio s \<noteq> Some r"
    and "\<And>r. ttsAudio s = Some r \<Longrightarrow> r < length (els s)"
    and "\<And>r. r < length (els s) \<Longrightarrow> loop (els s ! r) \<Longrightarrow> src (els s ! r) \<noteq> [] \<Longrightarrow>
           \<not> paused (els s ! r) \<Longrightarrow> \<exists>k. map_of (ambientAudios s) k = Some r"
    and "audioCtx s = audioUnlocked s"
    and "masterGain s = (if audioCtx s then Some (masterVolume s) else None)"
  shows "wf s"
  unfolding wf_def using assms by blast

lemma wf_keys: "wf s \<Longrightarrow> distinct (map fst (ambientAudios s)) \<and> distinct (map fst (presetAudios s))"
  unfolding wf_def by blast

lemma wf_ambD:
  "wf s \<Longrightarrow> map_of (ambientAudios s) k = Some r \<Longrightarrow>
     r < length (els s) \<and> loop (els s ! r) \<and> ttsAudio s \<noteq> Some r"
  unfolding wf_def by blast

lemma wf_amb_inj:
  "wf s \<Longrightarrow> map_of (ambientAudios s) k = Some r \<Longrightarrow> map_of (ambientAudios s) k' = Some r \<Longrightarrow> k' = k"
  unfolding wf_def by blast

lemma wf_preD:
  "wf s \<Longrightarrow> map_of (presetAudios s) i = Some r \<Longrightarrow>
     r < length (els s) \<and> \<not> loop (els s ! r) \<and> src (els s ! r) \<noteq> [] \<and>
     onended (els s ! r) = PresetEnd i \<and> ttsAudio s \<noteq> Some r"
  unfolding wf_def by blast

lemma wf_ttsD: "wf s \<Longrightarrow> ttsAudio s = Some r \<Longrightarrow> r < length (els s)"
  unfolding wf_def by blast

lemma wf_loopD:
  "wf s \<Longrightarrow> r < length (els s) \<Longrightarrow> loop (els s ! r) \<Longrightarrow> src (els s ! r) \<noteq> [] \<Longrightarrow>
     \<not> paused (els s ! r) \<Longrightarrow> \<exists>k. map_of (ambientAudios s) k = Some r"
  unfolding wf_def by blast

lemma wf_graphD:
  "wf s \<Longrightarrow> audioCtx s = audioUnlocked s \<and> masterGain s = (if audioCtx s then Some (masterVolume s) else None)"
  unfolding wf_def by blast

lemma wf_pre_inj:
  "wf s \<Longrightarrow> map_of (presetAudios s) i = Some r \<Longrightarrow> map_of (presetAudios s) i' = Some r \<Longrightarrow> i' = i"
  using wf_preD [of s i r] wf_preD [of s i' r] by simp

lemma wf_amb_pre: "wf s \<Longrightarrow> map_of (ambientAudios s) k = Some r \<Longrightarrow> map_of (presetAudios s) i \<noteq> Some r"
  using wf_ambD [of s k r] wf_preD [of s i r] by auto

text \<open>States that differ only in fields the invariant does not read.\<close>

lemma wf_graph:
  assumes "wf s" "els t = els s" "ambientAudios t = ambientAudios s" "presetAudios t = presetAudios s"
    "ttsAudio t = ttsAudio s" "audioCtx t = audioUnlocked t"
    "masterGain t = (if audioCtx t then Some (masterVolume t) else None)"
  shows "wf t"
proof (rule wfI)
  show "distinct (map fst (ambientAudios t))" "distinct (map fst (presetAudios t))"
    using wf_keys [OF assms(1)] by (simp_all add: assms)
  show "\<And>k r. map_of (ambientAudios t) k = Some r \<Longrightarrow>
         r < length (els t) \<and> loop (els t ! r) \<and> ttsAudio t \<noteq> Some r"
    using wf_ambD [OF assms(1)] by (simp add: assms)
  show "\<And>k1 k2 r. map_of (ambientAudios t) k1 = Some r \<Longrightarrow> map_of (ambientAudios t) k2 = Some r \<Longrightarrow> k2 = k1"
    using wf_amb_inj [OF assms(1)] by (simp add: assms)
  show "\<And>j r. map_of (presetAudios t) j = Some r \<Longrightarrow>
         r < length (els t) \<and> \<not> loop (els t ! r) \<and> src (els t ! r) \<noteq> [] \<and>
         onended (els t ! r) = PresetEnd j \<and> ttsAudio t \<noteq> Some r"
    using wf_preD [OF assms(1)] by (simp add: assms)
  show "\<And>r. ttsAudio t = Some r \<Longrightarrow> r < length (els t)"
    using wf_ttsD [OF assms(1)] by (simp add: assms)
  show "\<And>r. r < length (els t) \<Longrightarrow> loop (els t ! r) \<Longrightarrow> src (els t ! r) \<noteq> [] \<Longrightarrow>
         \<not> paused (els t ! r) \<Longrightarrow> \<exists>k'. map_of (ambientAudios t) k' = Some r"
    using wf_loopD [OF assms(1)] by (simp add: assms)
  show "audioCtx t = audioUnlocked t" "masterGain t = (if audioCtx t then Some (masterVolume t) else None)"
    using assms(6,7) by simp_all
qed

lemma wf_same:
  assumes "wf s" "els t = els s" "ambientAudios t = ambientAudios s" "presetAudios t = presetAudios s"
    "ttsAudio t = ttsAudio s" "audioUnlocked t = audioUnlocked s"
    "audioCtx t = audioCtx s" "masterGain t = masterGain s" "masterVolume t = masterVolume s"
  shows "wf t"
  by (rule wf_graph [OF assms(1-5)]) (use wf_graphD [OF assms(1)] assms(6-9) in simp_all)

text \<open>A change of the elements that keeps every \<open>loop\<close> flag, keeps the source and the
  closure of every preset element, and starts no looping element.\<close>

lemma wf_els:
  assumes "wf s" "length l = length (els s)"
    and lp: "\<And>j. j < length (els s) \<Longrightarrow> loop (l ! j) = loop (els s ! j)"
    and pr: "\<And>i j. map_of (presetAudios s) i = Some j \<Longrightarrow> src (l ! j) \<noteq> [] \<and> onended (l ! j) = PresetEnd i"
    and lv: "\<And>j. j < length (els s) \<Longrightarrow> loop (l ! j) \<Longrightarrow> src (l ! j) \<noteq> [] \<Longrightarrow> \<not> paused (l ! j) \<Longrightarrow>
           src (els s ! j) \<noteq> [] \<and> \<not> paused (els s ! j)"
  shows "wf (s\<lparr> els := l \<rparr>)"
proof (rule wfI)
  let ?t = "s\<lparr> els := l \<rparr>"
  show "distinct (map fst (ambientAudios ?t))" "distinct (map fst (presetAudios ?t))"
    using wf_keys [OF assms(1)] by simp_all
  show "\<And>k r. map_of (ambientAudios ?t) k = Some r \<Longrightarrow>
         r < length (els ?t) \<and> loop (els ?t ! r) \<and> ttsAudio ?t \<noteq> Some r"
  proof -
    fix k r assume "map_of (ambientAudios ?t) k = Some r"
    then have "map_of (ambientAudios s) k = Some r" by simp
    from wf_ambD [OF assms(1) this] lp [of r]
    show "r < length (els ?t) \<and> loop (els ?t ! r) \<and> ttsAudio ?t \<noteq> Some r"
      by (simp add: assms(2))
  qed
  show "\<And>k1 k2 r. map_of (ambientAudios ?t) k1 = Some r \<Longrightarrow> map_of (ambientAudios ?t) k2 = Some r \<Longrightarrow> k2 = k1"
    using wf_amb_inj [OF assms(1)] by simp
  show "\<And>i r. map_of (presetAudios ?t) i = Some r \<Longrightarrow>
         r < length (els ?t) \<and> \<not> loop (els ?t ! r) \<and> src (els ?t ! r) \<noteq> [] \<and>
         onended (els ?t ! r) = PresetEnd i \<and> ttsAudio ?t \<noteq> Some r"
  proof -
    fix i r assume "map_of (presetAudios ?t) i = Some r"
    then have m: "map_of (presetAudios s) i = Some r" by simp
    from wf_preD [OF assms(1) m] lp [of r] pr [OF m]
    show "r < length (els ?t) \<and> \<not> loop (els ?t ! r) \<and> src (els ?t ! r) \<noteq> [] \<and>
         onended (els ?t ! r) = PresetEnd i \<and> ttsAudio ?t \<noteq> Some r"
      by (simp add: assms(2))
  qed
  show "\<And>r. ttsAudio ?t = Some r \<Longrightarrow> r < length (els ?t)"
    using wf_ttsD [OF assms(1)] by (simp add: assms(2))
  show "\<And>r. r < length (els ?t) \<Longrightarrow> loop (els ?t ! r) \<Longrightarrow> src (els ?t ! r) \<noteq> [] \<Longrightarrow>
         \<not> paused (els ?t ! r) \<Longrightarrow> \<exists>k'. map_of (ambientAudios ?t) k' = Some r"
  proof -
    fix r assume a: "r < length (els ?t)" "loop (els ?t ! r)" "src (els ?t ! r) \<noteq> []"
      "\<not> paused (els ?t ! r)"
    then have r: "r < length (els s)" by (simp add: assms(2))
    from a lv [OF r] have "src (els s ! r) \<noteq> []" "\<not> paused (els s ! r)" by simp_all
    moreover from a lp [OF r] have "loop (els s ! r)" by simp
    ultimately show "\<exists>k'. map_of (ambientAudios ?t) k' = Some r"
      using wf_loopD [OF assms(1) r] by simp
  qed
  show "audioCtx ?t = audioUnlocked ?t" "masterGain ?t = (if audioCtx ?t then Some (masterVolume ?t) else None)"
    using wf_graphD [OF assms(1)] by simp_all
qed

lemma wf_upd_el:
  assumes "wf s" "\<And>a. loop (f a) = loop a \<and> src (f a) = src a \<and> onended (f a) = onended a"
    and "r < length (els s) \<Longrightarrow> loop (els s ! r) \<Longrightarrow> paused (els s ! r) \<Longrightarrow> paused (f (els s ! r))"
  shows "wf (upd_el r f s)"
proof (cases "r < length (els s)")
  case False
  then have "(els s)[r := f (els s ! r)] = els s" by (simp add: list_update_beyond)
  then have "upd_el r f s = s" by (simp add: upd_el_def)
  then show ?thesis using assms(1) by simp
next
  case True
  have "wf (s\<lparr> els := (els s)[r := f (els s ! r)] \<rparr>)"
  proof (rule wf_els [OF assms(1)])
    show "length ((els s)[r := f (els s ! r)]) = length (els s)" by simp
    show "\<And>j. j < length (els s) \<Longrightarrow> loop ((els s)[r := f (els s ! r)] ! j) = loop (els s ! j)"
      using True by (simp add: nth_list_update assms(2))
    show "\<And>i j. map_of (presetAudios s) i = Some j \<Longrightarrow>
        src ((els s)[r := f (els s ! r)] ! j) \<noteq> [] \<and> onended ((els s)[r := f (els s ! r)] ! j) = PresetEnd i"
      using wf_preD [OF assms(1)] True by (simp add: nth_list_update assms(2))
    show "\<And>j. j < length (els s) \<Longrightarrow> loop ((els s)[r := f (els s ! r)] ! j) \<Longrightarrow>
        src ((els s)[r := f (els s ! r)] ! j) \<noteq> [] \<Longrightarrow> \<not> paused ((els s)[r := f (els s ! r)] ! j) \<Longrightarrow>
        src (els s ! j) \<noteq> [] \<and> \<not> paused (els s ! j)"
      using assms(3) True by (auto simp add: nth_list_update assms(2) split: if_splits)
  qed
  then show ?thesis by (simp add: upd_el_def)
qed

lemma wf_teardown:
  assumes "wf s" "\<And>i. map_of (presetAudios s) i \<noteq> Some r0"
  shows "wf (teardown r0 s)"
proof (cases "r0 < length (els s)")
  case False
  then have "(els s)[r0 := (els s ! r0)\<lparr> paused := True, src := [] \<rparr>] = els s"
    by (simp add: list_update_beyond)
  then have "teardown r0 s = s" by (simp add: teardown_def upd_el_def)
  then show ?thesis using assms(1) by simp
next
  case True
  let ?l = "(els s)[r0 := (els s ! r0)\<lparr> paused := True, src := [] \<rparr>]"
  have "wf (s\<lparr> els := ?l \<rparr>)"
  proof (rule wf_els [OF assms(1)])
    show "length ?l = length (els s)" by simp
    show "\<And>j. j < length (els s) \<Longrightarrow> loop (?l ! j) = loop (els s ! j)"
      using True by (simp add: nth_list_update)
    show "\<And>i j. map_of (presetAudios s) i = Some j \<Longrightarrow> src (?l ! j) \<noteq> [] \<and> onended (?l ! j) = PresetEnd i"
      using wf_preD [OF assms(1)] assms(2) True by (auto simp add: nth_list_update)
    show "\<And>j. j < length (els s) \<Longrightarrow> loop (?l ! j) \<Longrightarrow> src (?l ! j) \<noteq> [] \<Longrightarrow> \<not> paused (?l ! j) \<Longrightarrow>
        src (els s ! j) \<noteq> [] \<and> \<not> paused (els s ! j)"
      using True by (auto simp add: nth_list_update split: if_splits)
  qed
  then show ?thesis by (simp add: teardown_def upd_el_def)
qed

lemma wf_del_preset:
  assumes "wf s"
  shows "wf (s\<lparr> presetAudios := AList.delete i (presetAudios s) \<rparr>)"
proof (rule wfI)
  let ?t = "s\<lparr> presetAudios := AList.delete i (presetAudios s) \<rparr>"
  show "distinct (map fst (ambientAudios ?t))" "distinct (map fst (presetAudios ?t))"
    using wf_keys [OF assms] by (simp_all add: AList.distinct_delete)
  show "\<And>k r. map_of (ambientAudios ?t) k = Some r \<Longrightarrow>
         r < length (els ?t) \<and> loop (els ?t ! r) \<and> ttsAudio ?t \<noteq> Some r"
    using wf_ambD [OF assms] by simp
  show "\<And>k1 k2 r. map_of (ambientAudios ?t) k1 = Some r \<Longrightarrow> map_of (ambientAudios ?t) k2 = Some r \<Longrightarrow> k2 = k1"
    using wf_amb_inj [OF assms] by simp
  show "\<And>j r. map_of (presetAudios ?t) j = Some r \<Longrightarrow>
         r < length (els ?t) \<and> \<not> loop (els ?t ! r) \<and> src (els ?t ! r) \<noteq> [] \<and>
         onended (els ?t ! r) = PresetEnd j \<and> ttsAudio ?t \<noteq> Some r"
    using wf_preD [OF assms] by (auto simp add: AList.delete_conv' split: if_splits)
  show "\<And>r. ttsAudio ?t = Some r \<Longrightarrow> r < length (els ?t)"
    using wf_ttsD [OF assms] by simp
  show "\<And>r. r < length (els ?t) \<Longrightarrow> loop (els ?t ! r) \<Longrightarrow> src (els ?t ! r) \<noteq> [] \<Longrightarrow>
         \<not> paused (els ?t ! r) \<Longrightarrow> \<exists>k'. map_of (ambientAudios ?t) k' = Some r"
    using wf_loopD [OF assms] by simp
  show "audioCtx ?t = audioUnlocked ?t" "masterGain ?t = (if audioCtx ?t then Some (masterVolume ?t) else None)"
    using wf_graphD [OF assms] by simp_all
qed

lemma wf_del_ambient:
  assumes "wf s" "\<And>r. map_of (ambientAudios s) k = Some r \<Longrightarrow> paused (els s ! r) \<or> src (els s ! r) = []"
  shows "wf (s\<lparr> ambientAudios := AList.delete k (ambientAudios s) \<rparr>)"
proof (rule wfI)
  let ?t = "s\<lparr> ambientAudios := AList.delete k (ambientAudios s) \<rparr>"
  show "distinct (map fst (ambientAudios ?t))" "distinct (map fst (presetAudios ?t))"
    using wf_keys [OF assms(1)] by (simp_all add: AList.distinct_delete)
  show "\<And>k' r. map_of (ambientAudios ?t) k' = Some r \<Longrightarrow>
         r < length (els ?t) \<and> loop (els ?t ! r) \<and> ttsAudio ?t \<noteq> Some r"
    using wf_ambD [OF assms(1)] by (auto simp add: AList.delete_conv' split: if_splits)
  show "\<And>k1 k2 r. map_of (ambientAudios ?t) k1 = Some r \<Longrightarrow> map_of (ambientAudios ?t) k2 = Some r \<Longrightarrow> k2 = k1"
    using wf_amb_inj [OF assms(1)] by (auto simp add: AList.delete_conv' split: if_splits)
  show "\<And>j r. map_of (presetAudios ?t) j = Some r \<Longrightarrow>
         r < length (els ?t) \<and> \<not> loop (els ?t ! r) \<and> src (els ?t ! r) \<noteq> [] \<and>
         onended (els ?t ! r) = PresetEnd j \<and> ttsAudio ?t \<noteq> Some r"
    using wf_preD [OF assms(1)] by simp
  show "\<And>r. ttsAudio ?t = Some r \<Longrightarrow> r < length (els ?t)"
    using wf_ttsD [OF assms(1)] by simp
  show "\<And>r. r < length (els ?t) \<Longrightarrow> loop (els ?t ! r) \<Longrightarrow> src (els ?t ! r) \<noteq> [] \<Longrightarrow>
         \<not> paused (els ?t ! r) \<Longrightarrow> \<exists>k'. map_of (ambientAudios ?t) k' = Some r"
  proof -
    fix r assume a: "r < length (els ?t)" "loop (els ?t ! r)" "src (els ?t ! r) \<noteq> []"
      "\<not> paused (els ?t ! r)"
    then have "r < length (els s)" "loop (els s ! r)" "src (els s ! r) \<noteq> []" "\<not> paused (els s ! r)"
      by simp_all
    from wf_loopD [OF assms(1) this] obtain k' where k': "map_of (ambientAudios s) k' = Some r" by blast
    with assms(2) [of r] a have "k' \<noteq> k" by auto
    with k' show "\<exists>k'. map_of (ambientAudios ?t) k' = Some r"
      by (auto simp add: AList.delete_conv')
  qed
  show "audioCtx ?t = audioUnlocked ?t" "masterGain ?t = (if audioCtx ?t then Some (masterVolume ?t) else None)"
    using wf_graphD [OF assms(1)] by simp_all
qed

lemma wf_tts_none:
  assumes "wf s"
  shows "wf (s\<lparr> ttsAudio := None \<rparr>)"
proof (rule wfI)
  let ?t = "s\<lparr> ttsAudio := None \<rparr>"
  show "distinct (map fst (ambientAudios ?t))" "distinct (map fst (presetAudios ?t))"
    using wf_keys [OF assms] by simp_all
  show "\<And>k r. map_of (ambientAudios ?t) k = Some r \<Longrightarrow>
         r < length (els ?t) \<and> loop (els ?t ! r) \<and> ttsAudio ?t \<noteq> Some r"
    using wf_ambD [OF assms] by simp
  show "\<And>k1 k2 r. map_of (ambientAudios ?t) k1 = Some r \<Longrightarrow> map_of (ambientAudios ?t) k2 = Some r \<Longrightarrow> k2 = k1"
    using wf_amb_inj [OF assms] by simp
  show "\<And>j r. map_of (presetAudios ?t) j = Some r \<Longrightarrow>
         r < length (els ?t) \<and> \<not> loop (els ?t ! r) \<and> src (els ?t ! r) \<noteq> [] \<and>
         onended (els ?t ! r) = PresetEnd j \<and> ttsAudio ?t \<noteq> Some r"
    using wf_preD [OF assms] by simp
  show "\<And>r. ttsAudio ?t = Some r \<Longrightarrow> r < length (els ?t)"
    by simp
  show "\<And>r. r < length (els ?t) \<Longrightarrow> loop (els ?t ! r) \<Longrightarrow> src (els ?t ! r) \<noteq> [] \<Longrightarrow>
         \<not> paused (els ?t ! r) \<Longrightarrow> \<exists>k'. map_of (ambientAudios ?t) k' = Some r"
    using wf_loopD [OF assms] by simp
  show "audioCtx ?t = audioUnlocked ?t" "masterGain ?t = (if audioCtx ?t then Some (masterVolume ?t) else None)"
    using wf_graphD [OF assms] by simp_all
qed

lemma stop_ambient_eq:
  "map_of (ambientAudios s) k = Some r \<Longrightarrow>
   stop_ambient k s = s\<lparr> els := (els s)[r := (els s ! r)\<lparr> paused := True, src := [] \<rparr>],
                         ambientAudios := AList.delete k (ambientAudios s) \<rparr>"
  by (simp add: stop_ambient_def teardown_def upd_el_def)

lemma wf_ambient_teardown:
  assumes "wf s"
  shows "wf (ambient_teardown k s)"
proof (cases "map_of (ambientAudios s) k")
  case None
  then show ?thesis using assms by (simp add: ambient_teardown_def)
next
  case (Some r0)
  have "wf (teardown r0 s)"
    using wf_amb_pre [OF assms Some] by (intro wf_teardown [OF assms]) auto
  then show ?thesis using Some by (simp add: ambient_teardown_def)
qed

lemma ambient_teardown_dead:
  assumes "wf s" "map_of (ambientAudios (ambient_teardown k s)) k = Some r"
  shows "paused (els (ambient_teardown k s) ! r) \<and> src (els (ambient_teardown k s) ! r) = []"
proof -
  from assms(2) have m: "map_of (ambientAudios s) k = Some r" by (simp add: ambient_teardown_eq)
  from wf_ambD [OF assms(1) m] show ?thesis by (simp add: ambient_teardown_eq m)
qed

lemma wf_stop_ambient:
  assumes "wf s"
  shows "wf (stop_ambient k s)"
proof (cases "map_of (ambientAudios s) k")
  case None
  then show ?thesis using assms by (simp add: stop_ambient_def)
next
  case (Some r0)
  let ?u = "ambient_teardown k s"
  have u: "wf ?u" by (rule wf_ambient_teardown [OF assms])
  have "wf (?u\<lparr> ambientAudios := AList.delete k (ambientAudios ?u) \<rparr>)"
    using ambient_teardown_dead [OF assms] by (intro wf_del_ambient [OF u]) auto
  moreover have "stop_ambient k s = ?u\<lparr> ambientAudios := AList.delete k (ambientAudios ?u) \<rparr>"
    using Some by (simp add: stop_ambient_eq ambient_teardown_eq)
  ultimately show ?thesis by simp
qed

lemma wf_stop_preset:
  assumes "wf s"
  shows "wf (stop_preset i s)"
proof (cases "map_of (presetAudios s) i")
  case None
  then show ?thesis using assms by (simp add: stop_preset_def)
next
  case (Some r0)
  let ?u = "s\<lparr> presetAudios := AList.delete i (presetAudios s) \<rparr>"
  have eq: "stop_preset i s = teardown r0 ?u"
    using Some by (simp add: stop_preset_def teardown_def upd_el_def)
  have u: "wf ?u" by (rule wf_del_preset [OF assms])
  have p: "\<And>j. map_of (presetAudios ?u) j \<noteq> Some r0"
    using wf_pre_inj [OF assms Some] by (auto simp add: AList.delete_conv')
  show ?thesis unfolding eq by (rule wf_teardown [OF u p])
qed

lemma length_fold_teardown:
  "length (fold (\<lambda>r l. l[r := (l ! r)\<lparr> paused := True, src := [] \<rparr>]) rs l) = length l"
  by (induction rs arbitrary: l) simp_all

lemma nth_fold_teardown:
  "i < length l \<Longrightarrow>
   fold (\<lambda>r l. l[r := (l ! r)\<lparr> paused := True, src := [] \<rparr>]) rs l ! i =
     (if i \<in> set rs then (l ! i)\<lparr> paused := True, src := [] \<rparr> else l ! i)"
proof (induction rs arbitrary: l)
  case Nil
  then show ?case by simp
next
  case (Cons r rs)
  then show ?case by (cases "r = i") (simp_all add: length_fold_teardown)
qed

lemma nth_stopAllAudio:
  assumes "i < length (els s)"
  shows "els (stopAllAudio s) ! i =
     (if i \<in> snd ` set (ambientAudios s) \<union> snd ` set (presetAudios s) \<union> set_option (ttsAudio s)
      then (els s ! i)\<lparr> paused := True, src := [] \<rparr> else els s ! i)"
  using assms
  by (cases "ttsAudio s") (simp_all add: stopAllAudio_eq nth_fold_teardown del: fold_append)

lemma length_stopAllAudio [simp]: "length (els (stopAllAudio s)) = length (els s)"
  by (simp add: stopAllAudio_eq length_fold_teardown del: fold_append)

lemma wf_stopAllAudio:
  assumes "wf s"
  shows "wf (stopAllAudio s)"
proof (rule wfI)
  let ?t = "stopAllAudio s"
  have m: "ambientAudios ?t = []" "presetAudios ?t = []" "ttsAudio ?t = None"
    by (simp_all add: stopAllAudio_eq)
  show "distinct (map fst (ambientAudios ?t))" "distinct (map fst (presetAudios ?t))"
    by (simp_all add: m)
  show "\<And>k r. map_of (ambientAudios ?t) k = Some r \<Longrightarrow>
         r < length (els ?t) \<and> loop (els ?t ! r) \<and> ttsAudio ?t \<noteq> Some r"
    by (simp add: m)
  show "\<And>k1 k2 r. map_of (ambientAudios ?t) k1 = Some r \<Longrightarrow> map_of (ambientAudios ?t) k2 = Some r \<Longrightarrow> k2 = k1"
    by (simp add: m)
  show "\<And>j r. map_of (presetAudios ?t) j = Some r \<Longrightarrow>
         r < length (els ?t) \<and> \<not> loop (els ?t ! r) \<and> src (els ?t ! r) \<noteq> [] \<and>
         onended (els ?t ! r) = PresetEnd j \<and> ttsAudio ?t \<noteq> Some r"
    by (simp add: m)
  show "\<And>r. ttsAudio ?t = Some r \<Longrightarrow> r < length (els ?t)"
    by (simp add: m)
  show "\<And>r. r < length (els ?t) \<Longrightarrow> loop (els ?t ! r) \<Longrightarrow> src (els ?t ! r) \<noteq> [] \<Longrightarrow>
         \<not> paused (els ?t ! r) \<Longrightarrow> \<exists>k'. map_of (ambientAudios ?t) k' = Some r"
  proof -
    fix r assume a: "r < length (els ?t)" "loop (els ?t ! r)" "src (els ?t ! r) \<noteq> []"
      "\<not> paused (els ?t ! r)"
    then have r: "r < length (els s)" by simp
    from a have n: "r \<notin> snd ` set (ambientAudios s)" and "loop (els s ! r)" "src (els s ! r) \<noteq> []"
      "\<not> paused (els s ! r)"
      by (auto simp add: nth_stopAllAudio [OF r] split: if_splits)
    from wf_loopD [OF assms r this(2,3,4)] obtain k where "map_of (ambientAudios s) k = Some r" by blast
    then have "(k, r) \<in> set (ambientAudios s)" by (rule map_of_SomeD)
    then have "r \<in> snd ` set (ambientAudios s)" by force
    with n show "\<exists>k'. map_of (ambientAudios ?t) k' = Some r" by simp
  qed
  show "audioCtx ?t = audioUnlocked ?t" "masterGain ?t = (if audioCtx ?t then Some (masterVolume ?t) else None)"
    using wf_graphD [OF assms] by (simp_all add: stopAllAudio_eq)
qed

text \<open>Allocation: a new element alone, or stored in a map, or as the speech clip.\<close>

lemma wf_append:
  assumes "wf s" "loop x \<Longrightarrow> src x \<noteq> [] \<Longrightarrow> paused x"
  shows "wf (s\<lparr> els := els s @ [x] \<rparr>)"
proof (rule wfI)
  let ?t = "s\<lparr> els := els s @ [x] \<rparr>"
  show "distinct (map fst (ambientAudios ?t))" "distinct (map fst (presetAudios ?t))"
    using wf_keys [OF assms(1)] by simp_all
  show "\<And>k r. map_of (ambientAudios ?t) k = Some r \<Longrightarrow>
         r < length (els ?t) \<and> loop (els ?t ! r) \<and> ttsAudio ?t \<noteq> Some r"
  proof -
    fix k r assume "map_of (ambientAudios ?t) k = Some r"
    then have "map_of (ambientAudios s) k = Some r" by simp
    from wf_ambD [OF assms(1) this]
    show "r < length (els ?t) \<and> loop (els ?t ! r) \<and> ttsAudio ?t \<noteq> Some r"
      by (simp add: nth_append)
  qed
  show "\<And>k1 k2 r. map_of (ambientAudios ?t) k1 = Some r \<Longrightarrow> map_of (ambientAudios ?t) k2 = Some r \<Longrightarrow> k2 = k1"
    using wf_amb_inj [OF assms(1)] by simp
  show "\<And>j r. map_of (presetAudios ?t) j = Some r \<Longrightarrow>
         r < length (els ?t) \<and> \<not> loop (els ?t ! r) \<and> src (els ?t ! r) \<noteq> [] \<and>
         onended (els ?t ! r) = PresetEnd j \<and> ttsAudio ?t \<noteq> Some r"
  proof -
    fix j r assume "map_of (presetAudios ?t) j = Some r"
    then have "map_of (presetAudios s) j = Some r" by simp
    from wf_preD [OF assms(1) this]
    show "r < length (els ?t) \<and> \<not> loop (els ?t ! r) \<and> src (els ?t ! r) \<noteq> [] \<and>
         onended (els ?t ! r) = PresetEnd j \<and> ttsAudio ?t \<noteq> Some r"
      by (simp add: nth_append)
  qed
  show "\<And>r. ttsAudio ?t = Some r \<Longrightarrow> r < length (els ?t)"
    using wf_ttsD [OF assms(1)] by (auto simp add: less_Suc_eq)
  show "\<And>r. r < length (els ?t) \<Longrightarrow> loop (els ?t ! r) \<Longrightarrow> src (els ?t ! r) \<noteq> [] \<Longrightarrow>
         \<not> paused (els ?t ! r) \<Longrightarrow> \<exists>k'. map_of (ambientAudios ?t) k' = Some r"
  proof -
    fix r assume a: "r < length (els ?t)" "loop (els ?t ! r)" "src (els ?t ! r) \<noteq> []"
      "\<not> paused (els ?t ! r)"
    then have "r \<noteq> length (els s)" using assms(2) by auto
    with a have "r < length (els s)" "loop (els s ! r)" "src (els s ! r) \<noteq> []" "\<not> paused (els s ! r)"
      by (auto simp add: nth_append)
    from wf_loopD [OF assms(1) this] show "\<exists>k'. map_of (ambientAudios ?t) k' = Some r"
      by simp
  qed
  show "audioCtx ?t = audioUnlocked ?t" "masterGain ?t = (if audioCtx ?t then Some (masterVolume ?t) else None)"
    using wf_graphD [OF assms(1)] by simp_all
qed

lemma wf_new_ambient:
  assumes "wf s" "loop x"
    and "\<And>r0. map_of (ambientAudios s) k = Some r0 \<Longrightarrow> paused (els s ! r0) \<or> src (els s ! r0) = []"
  shows "wf (s\<lparr> els := els s @ [x], ambientAudios := AList.update k (length (els s)) (ambientAudios s) \<rparr>)"
proof (rule wfI)
  let ?t = "s\<lparr> els := els s @ [x], ambientAudios := AList.update k (length (els s)) (ambientAudios s) \<rparr>"
  show "distinct (map fst (ambientAudios ?t))" "distinct (map fst (presetAudios ?t))"
    using wf_keys [OF assms(1)] by (simp_all add: AList.distinct_update)
  show "\<And>k' r. map_of (ambientAudios ?t) k' = Some r \<Longrightarrow>
         r < length (els ?t) \<and> loop (els ?t ! r) \<and> ttsAudio ?t \<noteq> Some r"
  proof -
    fix k' r assume m: "map_of (ambientAudios ?t) k' = Some r"
    show "r < length (els ?t) \<and> loop (els ?t ! r) \<and> ttsAudio ?t \<noteq> Some r"
    proof (cases "k' = k")
      case True
      with m have "r = length (els s)" by (simp add: AList.update_conv')
      then show ?thesis using wf_ttsD [OF assms(1), of r] assms(2) by auto
    next
      case False
      with m have "map_of (ambientAudios s) k' = Some r" by (simp add: AList.update_conv')
      from wf_ambD [OF assms(1) this] show ?thesis by (simp add: nth_append)
    qed
  qed
  have fresh: "\<And>k'. map_of (ambientAudios s) k' \<noteq> Some (length (els s))"
    using wf_ambD [OF assms(1)] by fastforce
  show "\<And>k1 k2 r. map_of (ambientAudios ?t) k1 = Some r \<Longrightarrow> map_of (ambientAudios ?t) k2 = Some r \<Longrightarrow> k2 = k1"
    using wf_amb_inj [OF assms(1)] fresh
    by (auto simp add: AList.update_conv' split: if_splits)
  show "\<And>j r. map_of (presetAudios ?t) j = Some r \<Longrightarrow>
         r < length (els ?t) \<and> \<not> loop (els ?t ! r) \<and> src (els ?t ! r) \<noteq> [] \<and>
         onended (els ?t ! r) = PresetEnd j \<and> ttsAudio ?t \<noteq> Some r"
  proof -
    fix j r assume "map_of (presetAudios ?t) j = Some r"
    then have "map_of (presetAudios s) j = Some r" by simp
    from wf_preD [OF assms(1) this]
    show "r < length (els ?t) \<and> \<not> loop (els ?t ! r) \<and> src (els ?t ! r) \<noteq> [] \<and>
         onended (els ?t ! r) = PresetEnd j \<and> ttsAudio ?t \<noteq> Some r"
      by (simp add: nth_append)
  qed
  show "\<And>r. ttsAudio ?t = Some r \<Longrightarrow> r < length (els ?t)"
    using wf_ttsD [OF assms(1)] by (auto simp add: less_Suc_eq)
  show "\<And>r. r < length (els ?t) \<Longrightarrow> loop (els ?t ! r) \<Longrightarrow> src (els ?t ! r) \<noteq> [] \<Longrightarrow>
         \<not> paused (els ?t ! r) \<Longrightarrow> \<exists>k'. map_of (ambientAudios ?t) k' = Some r"
  proof -
    fix r assume a: "r < length (els ?t)" "loop (els ?t ! r)" "src (els ?t ! r) \<noteq> []"
      "\<not> paused (els ?t ! r)"
    show "\<exists>k'. map_of (ambientAudios ?t) k' = Some r"
    proof (cases "r = length (els s)")
      case True
      then show ?thesis by (auto simp add: AList.update_conv')
    next
      case False
      with a have b: "r < length (els s)" "loop (els s ! r)" "src (els s ! r) \<noteq> []"
        "\<not> paused (els s ! r)"
        by (auto simp add: nth_append)
      from wf_loopD [OF assms(1) this] obtain k' where k': "map_of (ambientAudios s) k' = Some r" by blast
      with assms(3) [of r] b have "k' \<noteq> k" by auto
      with k' show ?thesis by (auto simp add: AList.update_conv')
    qed
  qed
  show "audioCtx ?t = audioUnlocked ?t" "masterGain ?t = (if audioCtx ?t then Some (masterVolume ?t) else None)"
    using wf_graphD [OF assms(1)] by simp_all
qed

lemma wf_new_preset:
  assumes "wf s" "\<not> loop x" "src x \<noteq> []" "onended x = PresetEnd i"
  shows "wf (s\<lparr> els := els s @ [x], presetAudios := AList.update i (length (els s)) (presetAudios s) \<rparr>)"
proof (rule wfI)
  let ?t = "s\<lparr> els := els s @ [x], presetAudios := AList.update i (length (els s)) (presetAudios s) \<rparr>"
  show "distinct (map fst (ambientAudios ?t))" "distinct (map fst (presetAudios ?t))"
    using wf_keys [OF assms(1)] by (simp_all add: AList.distinct_update)
  show "\<And>k' r. map_of (ambientAudios ?t) k' = Some r \<Longrightarrow>
         r < length (els ?t) \<and> loop (els ?t ! r) \<and> ttsAudio ?t \<noteq> Some r"
  proof -
    fix k' r assume "map_of (ambientAudios ?t) k' = Some r"
    then have "map_of (ambientAudios s) k' = Some r" by simp
    from wf_ambD [OF assms(1) this]
    show "r < length (els ?t) \<and> loop (els ?t ! r) \<and> ttsAudio ?t \<noteq> Some r"
      by (simp add: nth_append)
  qed
  show "\<And>k1 k2 r. map_of (ambientAudios ?t) k1 = Some r \<Longrightarrow> map_of (ambientAudios ?t) k2 = Some r \<Longrightarrow> k2 = k1"
    using wf_amb_inj [OF assms(1)] by simp
  show "\<And>j r. map_of (presetAudios ?t) j = Some r \<Longrightarrow>
         r < length (els ?t) \<and> \<not> loop (els ?t ! r) \<and> src (els ?t ! r) \<noteq> [] \<and>
         onended (els ?t ! r) = PresetEnd j \<and> ttsAudio ?t \<noteq> Some r"
  proof -
    fix j r assume m: "map_of (presetAudios ?t) j = Some r"
    show "r < length (els ?t) \<and> \<not> loop (els ?t ! r) \<and> src (els ?t ! r) \<noteq> [] \<and>
         onended (els ?t ! r) = PresetEnd j \<and> ttsAudio ?t \<noteq> Some r"
    proof (cases "j = i")
      case True
      with m have "r = length (els s)" by (simp add: AList.update_conv')
      then show ?thesis using wf_ttsD [OF assms(1), of r] True assms(2-4) by auto
    next
      case False
      with m have "map_of (presetAudios s) j = Some r" by (simp add: AList.update_conv')
      from wf_preD [OF assms(1) this] show ?thesis by (simp add: nth_append)
    qed
  qed
  show "\<And>r. ttsAudio ?t = Some r \<Longrightarrow> r < length (els ?t)"
    using wf_ttsD [OF assms(1)] by (auto simp add: less_Suc_eq)
  show "\<And>r. r < length (els ?t) \<Longrightarrow> loop (els ?t ! r) \<Longrightarrow> src (els ?t ! r) \<noteq> [] \<Longrightarrow>
         \<not> paused (els ?t ! r) \<Longrightarrow> \<exists>k'. map_of (ambientAudios ?t) k' = Some r"
  proof -
    fix r assume a: "r < length (els ?t)" "loop (els ?t ! r)" "src (els ?t ! r) \<noteq> []"
      "\<not> paused (els ?t ! r)"
    then have "r \<noteq> length (els s)" using assms(2) by auto
    with a have "r < length (els s)" "loop (els s ! r)" "src (els s ! r) \<noteq> []" "\<not> paused (els s ! r)"
      by (auto simp add: nth_append)
    from wf_loopD [OF assms(1) this] show "\<exists>k'. map_of (ambientAudios ?t) k' = Some r"
      by simp
  qed
  show "audioCtx ?t = audioUnlocked ?t" "masterGain ?t = (if audioCtx ?t then Some (masterVolume ?t) else None)"
    using wf_graphD [OF assms(1)] by simp_all
qed

lemma wf_new_tts:
  assumes "wf s" "\<not> loop x"
  shows "wf (s\<lparr> els := els s @ [x], ttsAudio := Some (length (els s)) \<rparr>)"
proof (rule wfI)
  let ?t = "s\<lparr> els := els s @ [x], ttsAudio := Some (length (els s)) \<rparr>"
  show "distinct (map fst (ambientAudios ?t))" "distinct (map fst (presetAudios ?t))"
    using wf_keys [OF assms(1)] by simp_all
  show "\<And>k r. map_of (ambientAudios ?t) k = Some r \<Longrightarrow>
         r < length (els ?t) \<and> loop (els ?t ! r) \<and> ttsAudio ?t \<noteq> Some r"
  proof -
    fix k r assume "map_of (ambientAudios ?t) k = Some r"
    then have "map_of (ambientAudios s) k = Some r" by simp
    from wf_ambD [OF assms(1) this]
    show "r < length (els ?t) \<and> loop (els ?t ! r) \<and> ttsAudio ?t \<noteq> Some r"
      by (auto simp add: nth_append)
  qed
  show "\<And>k1 k2 r. map_of (ambientAudios ?t) k1 = Some r \<Longrightarrow> map_of (ambientAudios ?t) k2 = Some r \<Longrightarrow> k2 = k1"
    using wf_amb_inj [OF assms(1)] by simp
  show "\<And>j r. map_of (presetAudios ?t) j = Some r \<Longrightarrow>
         r < length (els ?t) \<and> \<not> loop (els ?t ! r) \<and> src (els ?t ! r) \<noteq> [] \<and>
         onended (els ?t ! r) = PresetEnd j \<and> ttsAudio ?t \<noteq> Some r"
  proof -
    fix j r assume "map_of (presetAudios ?t) j = Some r"
    then have "map_of (presetAudios s) j = Some r" by simp
    from wf_preD [OF assms(1) this]
    show "r < length (els ?t) \<and> \<not> loop (els ?t ! r) \<and> src (els ?t ! r) \<noteq> [] \<and>
         onended (els ?t ! r) = PresetEnd j \<and> ttsAudio ?t \<noteq> Some r"
      by (auto simp add: nth_append)
  qed
  show "\<And>r. ttsAudio ?t = Some r \<Longrightarrow> r < length (els ?t)"
    by auto
  show "\<And>r. r < length (els ?t) \<Longrightarrow> loop (els ?t ! r) \<Longrightarrow> src (els ?t ! r) \<noteq> [] \<Longrightarrow>
         \<not> paused (els ?t ! r) \<Longrightarrow> \<exists>k'. map_of (ambientAudios ?t) k' = Some r"
  proof -
    fix r assume a: "r < length (els ?t)" "loop (els ?t ! r)" "src (els ?t ! r) \<noteq> []"
      "\<not> paused (els ?t ! r)"
    then have "r \<noteq> length (els s)" using assms(2) by auto
    with a have "r < length (els s)" "loop (els s ! r)" "src (els s ! r) \<noteq> []" "\<not> paused (els s ! r)"
      by (auto simp add: nth_append)
    from wf_loopD [OF assms(1) this] show "\<exists>k'. map_of (ambientAudios ?t) k' = Some r"
      by simp
  qed
  show "audioCtx ?t = audioUnlocked ?t" "masterGain ?t = (if audioCtx ?t then Some (masterVolume ?t) else None)"
    using wf_graphD [OF assms(1)] by simp_all
qed

text \<open>Every handler keeps the invariant, whether it returns or throws.\<close>

lemma wf_ambient_start:
  assumes "wf s"
    and "\<And>r0. map_of (ambientAudios s) k = Some r0 \<Longrightarrow> paused (els s ! r0) \<or> src (els s ! r0) = []"
  shows "wf (state_of (ambient_start k f v s))"
proof (cases "valid_volume (case v of None \<Rightarrow> 0.5 | Some x \<Rightarrow> x)")
  case True
  then show ?thesis
    using wf_new_ambient [OF assms(1) _ assms(2)] by (simp add: ambient_start_eq)
next
  case False
  then show ?thesis
    using wf_append [OF assms(1)] by (simp add: ambient_start_eq)
qed

lemma wf_play_ambient:
  assumes "wf s"
  shows "wf (state_of (play_ambient k f v s))"
proof (cases "isAudioReady s")
  case False
  then show ?thesis using assms by (simp add: play_ambient_def isAudioReady_def)
next
  case True
  have "wf (state_of (ambient_start k f v (ambient_teardown k s)))"
    using ambient_teardown_dead [OF assms]
    by (intro wf_ambient_start [OF wf_ambient_teardown [OF assms]]) blast
  then show ?thesis using True by (simp add: play_ambient_def isAudioReady_def)
qed

lemma wf_preset_create:
  assumes "wf s"
  shows "wf (state_of (preset_create i f s))"
proof (cases "valid_volume (iaVolume s)")
  case True
  then show ?thesis
    using wf_new_preset [OF assms] by (simp add: preset_create_eq BACKOFFICE_URL_def)
next
  case False
  then show ?thesis
    using wf_append [OF assms] by (simp add: preset_create_eq)
qed

lemma wf_preset_resume:
  assumes "wf s" "map_of (presetAudios s) i = Some r"
  shows "wf (state_of (preset_resume r s))"
proof (cases "valid_volume (iaVolume s)")
  case True
  have "wf (upd_el r (\<lambda>a. a\<lparr> volume := iaVolume s, paused := False \<rparr>) s)"
    using wf_preD [OF assms] by (intro wf_upd_el [OF assms(1)]) simp_all
  then show ?thesis using True by (simp add: preset_resume_eq upd_el_def)
next
  case False
  then show ?thesis using assms(1) by (simp add: preset_resume_eq)
qed

lemma wf_play_preset:
  assumes "wf s"
  shows "wf (state_of (play_preset i f s))"
proof (cases "isAudioReady s")
  case False
  then show ?thesis using assms by (simp add: play_preset_def isAudioReady_def)
next
  case True
  show ?thesis
  proof (cases "map_of (presetAudios s) i")
    case None
    then have "play_preset i f s = preset_create i f s"
      using True by (simp add: play_preset_def isAudioReady_def)
    then show ?thesis using wf_preset_create [OF assms] by simp
  next
    case (Some r)
    with wf_preD [OF assms Some] True have "play_preset i f s = preset_resume r s"
      by (simp add: play_preset_def isAudioReady_def)
    then show ?thesis using wf_preset_resume [OF assms Some] by simp
  qed
qed

lemma wf_set_volume: "wf s \<Longrightarrow> wf (state_of (set_volume r v s))"
  by (simp add: set_volume_def wf_upd_el)

lemma wf_simple_handlers:
  assumes "wf s"
  shows "wf (state_of (volume_ambient k v s))" "wf (pause_preset i s)" "wf (seek_preset i x s)"
  using assms
  by (simp_all add: volume_ambient_def pause_preset_def seek_preset_def wf_upd_el wf_set_volume
      split: option.splits)

lemma length_fold_volume:
  "length (fold (\<lambda>r l. l[r := (l ! r)\<lparr> volume := v \<rparr>]) rs l) = length l"
  by (induction rs arbitrary: l) simp_all

lemma nth_fold_volume:
  "i < length l \<Longrightarrow>
   fold (\<lambda>r l. l[r := (l ! r)\<lparr> volume := v \<rparr>]) rs l ! i =
     (if i \<in> set rs then (l ! i)\<lparr> volume := v \<rparr> else l ! i)"
proof (induction rs arbitrary: l)
  case Nil
  then show ?case by simp
next
  case (Cons r rs)
  then show ?case by (cases "r = i") (simp_all add: length_fold_volume)
qed

lemma wf_volume_ia:
  assumes "wf s"
  shows "wf (state_of (volume_ia v s))"
proof (cases "valid_volume v")
  case True
  let ?l = "fold (\<lambda>r l. l[r := (l ! r)\<lparr> volume := v \<rparr>])
        (map snd (presetAudios s) @ (case ttsAudio s of None \<Rightarrow> [] | Some r \<Rightarrow> [r])) (els s)"
  have n: "\<And>j. j < length (els s) \<Longrightarrow>
      loop (?l ! j) = loop (els s ! j) \<and> src (?l ! j) = src (els s ! j) \<and>
      onended (?l ! j) = onended (els s ! j) \<and> paused (?l ! j) = paused (els s ! j)"
    by (simp add: nth_fold_volume del: fold_append)
  have "wf (s\<lparr> els := ?l \<rparr>)"
  proof (rule wf_els [OF assms])
    show "length ?l = length (els s)" by (simp add: length_fold_volume del: fold_append)
    show "\<And>j. j < length (els s) \<Longrightarrow> loop (?l ! j) = loop (els s ! j)"
      using n by blast
    show "\<And>i j. map_of (presetAudios s) i = Some j \<Longrightarrow> src (?l ! j) \<noteq> [] \<and> onended (?l ! j) = PresetEnd i"
    proof -
      fix i j assume m: "map_of (presetAudios s) i = Some j"
      from wf_preD [OF assms m] n [of j]
      show "src (?l ! j) \<noteq> [] \<and> onended (?l ! j) = PresetEnd i" by simp
    qed
    show "\<And>j. j < length (els s) \<Longrightarrow> loop (?l ! j) \<Longrightarrow> src (?l ! j) \<noteq> [] \<Longrightarrow> \<not> paused (?l ! j) \<Longrightarrow>
        src (els s ! j) \<noteq> [] \<and> \<not> paused (els s ! j)"
      using n by simp
  qed
  then have "wf (s\<lparr> iaVolume := v, els := ?l \<rparr>)"
    by (rule wf_same) simp_all
  then show ?thesis using True by (simp add: volume_ia_eq)
next
  case False
  have "wf (s\<lparr> iaVolume := v \<rparr>)" by (rule wf_same [OF assms]) simp_all
  then show ?thesis using False by (simp add: volume_ia_eq)
qed

lemma wf_master_volume:
  assumes "wf s"
  shows "wf (master_volume v s)"
  by (rule wf_graph [OF assms])
    (use wf_graphD [OF assms] in \<open>auto simp add: master_volume_def Let_def\<close>)

lemma wf_play_tts:
  assumes "wf s"
  shows "wf (state_of (play_tts b m s))"
proof (cases "isAudioReady s")
  case False
  then show ?thesis using assms by (simp add: play_tts_def isAudioReady_def)
next
  case True
  let ?s1 = "case ttsAudio s of None \<Rightarrow> s | Some old \<Rightarrow> teardown old s"
  have s1: "wf ?s1"
  proof (cases "ttsAudio s")
    case None
    then show ?thesis using assms by simp
  next
    case (Some old)
    have "wf (teardown old s)"
      using wf_preD [OF assms] Some by (intro wf_teardown [OF assms]) auto
    then show ?thesis using Some by simp
  qed
  have r1: "length (els ?s1) = length (els s)"
    by (auto simp add: teardown_def upd_el_def split: option.splits)
  have new: "\<And>x. \<not> loop x \<Longrightarrow>
      wf (?s1\<lparr> els := els ?s1 @ [x], ttsAudio := Some (length (els s)),
               objectURLs := objectURLs s @ [''blob:'' @ nat_digits (urlCount s)],
               urlCount := Suc (urlCount s) \<rparr>)"
  proof -
    fix x :: audio_el assume "\<not> loop x"
    from wf_new_tts [OF s1 this]
    have "wf (?s1\<lparr> els := els ?s1 @ [x], ttsAudio := Some (length (els s)) \<rparr>)"
      by (simp add: r1)
    then show "wf (?s1\<lparr> els := els ?s1 @ [x], ttsAudio := Some (length (els s)),
               objectURLs := objectURLs s @ [''blob:'' @ nat_digits (urlCount s)],
               urlCount := Suc (urlCount s) \<rparr>)"
      by (rule wf_same) simp_all
  qed
  show ?thesis
    unfolding play_tts_eq [OF True] Let_def
    using s1 new by (simp del: nat_digits.simps)
qed

lemma wf_handle: "wf s \<Longrightarrow> wf (state_of (handle ev s))"
  by (cases ev)
    (simp_all add: wf_play_ambient wf_stop_ambient wf_simple_handlers wf_play_preset
      wf_stop_preset wf_play_tts wf_volume_ia wf_master_volume stop_all_def wf_stopAllAudio)

text \<open>The other actions.\<close>

lemma doUnlockAudio_eq:
  assumes "\<not> audioUnlocked s" "enabled (audioConfig s)" "\<not> audioCtx s"
  shows "doUnlockAudio s =
     s\<lparr> audioCtx := True, masterGain := Some (masterVolume s),
        primerStarts := Suc (primerStarts s), audioUnlocked := True,
        emitted := emitted s @ [RegisterAudioPlayer],
        progressInterval :=
          (case progressInterval s of None \<Rightarrow> Some (timerCount s) | Some p \<Rightarrow> Some p),
        timerCount :=
          (case progressInterval s of None \<Rightarrow> Suc (timerCount s) | Some p \<Rightarrow> timerCount s),
        unlockListeners := fold removeAll unlockEvents (unlockListeners s) \<rparr>"
  using assms
  by (cases "progressInterval s")
    (simp_all add: doUnlockAudio_def initAudioContext_def socket_emit_def Let_def
      startProgressReporting_def removeUnlockListeners_def)

lemma wf_doUnlockAudio:
  assumes "wf s"
  shows "wf (doUnlockAudio s)"
proof (cases "audioUnlocked s \<or> \<not> enabled (audioConfig s)")
  case True
  then show ?thesis using assms by (simp add: doUnlockAudio_def)
next
  case False
  then have "\<not> audioCtx s" using wf_graphD [OF assms] by simp
  with False have "doUnlockAudio s = s\<lparr> audioCtx := True, masterGain := Some (masterVolume s),
        primerStarts := Suc (primerStarts s), audioUnlocked := True,
        emitted := emitted s @ [RegisterAudioPlayer],
        progressInterval :=
          (case progressInterval s of None \<Rightarrow> Some (timerCount s) | Some p \<Rightarrow> Some p),
        timerCount :=
          (case progressInterval s of None \<Rightarrow> Suc (timerCount s) | Some p \<Rightarrow> timerCount s),
        unlockListeners := fold removeAll unlockEvents (unlockListeners s) \<rparr>"
    by (simp add: doUnlockAudio_eq)
  moreover have "wf \<dots>"
    by (intro wf_graph [OF assms]) simp_all
  ultimately show ?thesis by simp
qed

lemma wf_unlockListeners: "wf s \<Longrightarrow> wf (s\<lparr> unlockListeners := ls \<rparr>)"
  by (erule wf_same) simp_all

lemma wf_gesture: "wf s \<Longrightarrow> wf (gesture e s)"
  by (simp add: gesture_def wf_doUnlockAudio wf_unlockListeners)

lemma wf_unlockAudio: "wf s \<Longrightarrow> wf (snd (unlockAudio s))"
  by (simp add: unlockAudio_def Let_def wf_doUnlockAudio)

lemma wf_socket_emit: "wf s \<Longrightarrow> wf (socket_emit ev s)"
  unfolding socket_emit_def
  by (erule wf_same) simp_all

lemma wf_on_connect: "wf s \<Longrightarrow> wf (on_connect s)"
  by (simp add: on_connect_def wf_socket_emit)

lemma wf_tick: "wf s \<Longrightarrow> wf (progress_tick s)"
  unfolding progress_tick_def
  by (erule wf_same) simp_all

lemma wf_media_progress: "wf s \<Longrightarrow> wf (media_progress r t d s)"
  by (simp add: media_progress_def wf_upd_el)

lemma wf_revoke: "wf s \<Longrightarrow> wf (revokeObjectURL url s)"
  unfolding revokeObjectURL_def
  by (erule wf_same) simp_all

lemma wf_fire_onended: "wf s \<Longrightarrow> wf (fire_onended r s)"
  by (cases "onended (els s ! r)")
    (simp_all add: fire_onended_def preset_onended_def tts_onended_def Let_def
      wf_del_preset wf_socket_emit wf_tts_none wf_revoke)

lemma wf_element_ended: "wf s \<Longrightarrow> wf (element_ended r s)"
  by (simp add: element_ended_def wf_fire_onended wf_upd_el)

lemma stopAllAudio_config:
  "stopAllAudio (s\<lparr> audioConfig := c \<rparr>) = (stopAllAudio s)\<lparr> audioConfig := c \<rparr>"
  by (simp add: stopAllAudio_eq)

lemma wf_config: "wf s \<Longrightarrow> wf (s\<lparr> audioConfig := c \<rparr>)"
  by (erule wf_same) simp_all

lemma wf_progressInterval: "wf s \<Longrightarrow> wf (s\<lparr> progressInterval := p \<rparr>)"
  by (erule wf_same) simp_all

lemma wf_stopProgressReporting: "wf s \<Longrightarrow> wf (stopProgressReporting s)"
  by (simp add: stopProgressReporting_def wf_progressInterval)

lemma wf_startProgressReporting: "wf s \<Longrightarrow> wf (startProgressReporting s)"
  unfolding startProgressReporting_def
  by (cases "progressInterval s") (auto elim!: wf_same)

lemma wf_disableAudio: "wf s \<Longrightarrow> wf (disableAudio s)"
  by (simp add: disableAudio_def stopAllAudio_config wf_stopProgressReporting wf_config
      wf_stopAllAudio)

lemma wf_enableAudio: "wf s \<Longrightarrow> wf (enableAudio s)"
  by (simp add: enableAudio_def Let_def wf_startProgressReporting wf_socket_emit wf_config)

lemma wf_configureAudio:
  assumes "wf s"
  shows "wf (configureAudio config s)"
proof (cases "enabled_opt config = Given False")
  case True
  then have "configureAudio config s =
      stopProgressReporting ((stopAllAudio s)\<lparr> audioConfig := merge_config (audioConfig s) config \<rparr>)"
    by (simp add: configureAudio_def Let_def stopAllAudio_config)
  then show ?thesis by (simp add: wf_stopProgressReporting wf_config wf_stopAllAudio assms)
next
  case False
  have m: "wf (s\<lparr> audioConfig := merge_config (audioConfig s) config \<rparr>)"
    by (rule wf_config [OF assms])
  show ?thesis
    using False m by (simp add: configureAudio_def Let_def addUnlockListeners_def wf_unlockListeners)
qed

lemma wf_step: "wf s \<Longrightarrow> wf (step a s)"
  by (cases a)
    (simp_all add: wf_handle wf_on_connect wf_gesture wf_tick wf_media_progress wf_element_ended
      wf_configureAudio wf_unlockAudio wf_disableAudio wf_enableAudio)

lemma reachable_wf: "reachable s \<Longrightarrow> wf s"
  by (induction rule: reachable.induct) (simp_all add: wf_init wf_step)

lemma reachable_run: "reachable s \<Longrightarrow> reachable (run as s)"
  by (induction as arbitrary: s) (simp_all add: reachable_step)

subsection \<open>Evaluating concrete runs\<close>

lemma atob_ok_AAAA: "atob_ok ''AAAA''"
  by (simp add: atob_ok_def strip_padding_def ascii_whitespace_def base64_alphabet_def)

lemmas run_defs = op_defs throwing_defs valid_volume_def atob_ok_AAAA init_def unlockEvents_def
  BACKOFFICE_URL_def new_el_def Let_def

lemma unlocked_state:
  "run [Gesture ''click''] init =
   init\<lparr> audioUnlocked := True, audioCtx := True, masterGain := Some 1, primerStarts := 1,
         emitted := [RegisterAudioPlayer], progressInterval := Some 0, timerCount := 1,
         unlockListeners := [] \<rparr>"
  by (simp add: run_defs)

lemma mixed_state:
  "run [Gesture ''click'', Inbound (PlayAmbient ''rain'' ''rain.mp3'' None),
        Inbound (PlayPreset 0 ''a.mp3''), Inbound (PlayTTS ''AAAA'' None)] init =
   init\<lparr> audioUnlocked := True, audioCtx := True, masterGain := Some 1, primerStarts := 1,
         emitted := [RegisterAudioPlayer], progressInterval := Some 0, timerCount := 1,
         unlockListeners := [],
         els := [\<lparr> src = ''http://192.168.10.1:3000/sounds/rain.mp3'', volume = 0.5, loop = True,
                   paused = False, currentTime = 0, duration = None, ended = False,
                   onended = NoHandler, routed = True \<rparr>,
                 \<lparr> src = ''http://192.168.10.1:3000/presets/a.mp3'', volume = 1, loop = False,
                   paused = False, currentTime = 0, duration = None, ended = False,
                   onended = PresetEnd 0, routed = True \<rparr>,
                 \<lparr> src = ''blob:0'', volume = 1, loop = False,
                   paused = False, currentTime = 0, duration = None, ended = False,
                   onended = TtsEnd ''blob:0'', routed = True \<rparr>],
         ambientAudios := [(''rain'', 0)], presetAudios := [(0, 1)], ttsAudio := Some 2,
         objectURLs := [''blob:0''], urlCount := 1 \<rparr>"
  by (simp add: run_defs)

subsection \<open>Natural end of a preset\<close>

lemma element_ended_preset:
  assumes "wf s" "map_of (presetAudios s) idx = Some r" "can_end s r"
  shows "element_ended r s =
     s\<lparr> els := (els s)[r := (els s ! r)\<lparr> currentTime :=
                                              (case duration (els s ! r) of
                                                 None \<Rightarrow> currentTime (els s ! r) | Some d \<Rightarrow> d),
                                            paused := True, ended := True \<rparr>],
        emitted := emitted s @
          [PresetProgress idx (duration (els s ! r)) (duration (els s ! r)) True],
        presetAudios := AList.delete idx (presetAudios s) \<rparr>"
proof -
  have r: "r < length (els s)" and h: "onended (els s ! r) = PresetEnd idx"
    using wf_preD [OF assms(1,2)] by simp_all
  show ?thesis
    using assms(3) r h
    by (simp add: element_ended_def fire_onended_def preset_onended_def socket_emit_def
        upd_el_def Let_def)
qed

text \<open>
  C4. When the element of a preset slot reaches its natural end in a reachable state,
  the step emits exactly one event, a progress report of that slot with \<open>ended: true\<close>
  whose \<open>currentTime\<close> and \<open>duration\<close> are both the clip's duration (which is known),
  the slot is absent afterwards, and the element cannot end a second time.
\<close>

theorem preset_natural_end:
  assumes "reachable s" "map_of (presetAudios s) idx = Some r" "can_end s r"
  shows "emitted (step (Ended r) s) =
           emitted s @ [PresetProgress idx (duration (els s ! r)) (duration (els s ! r)) True]
         \<and> duration (els s ! r) \<noteq> None
         \<and> Some (currentTime (els (step (Ended r) s) ! r)) = duration (els s ! r)
         \<and> map_of (presetAudios (step (Ended r) s)) idx = None
         \<and> \<not> can_end (step (Ended r) s) r"
proof -
  have w: "wf s" by (rule reachable_wf [OF assms(1)])
  have r: "r < length (els s)" using wf_preD [OF w assms(2)] by simp
  note eq = element_ended_preset [OF w assms(2,3)]
  have "duration (els s ! r) \<noteq> None" using assms(3) by (simp add: can_end_def)
  then show ?thesis
    using r by (auto simp add: eq AList.delete_conv' can_end_def)
qed

lemma end_state:
  "run [Gesture ''click'', Inbound (PlayPreset 0 ''a.mp3''), MediaProgress 0 12 60] init =
   init\<lparr> audioUnlocked := True, audioCtx := True, masterGain := Some 1, primerStarts := 1,
         emitted := [RegisterAudioPlayer], progressInterval := Some 0, timerCount := 1,
         unlockListeners := [],
         els := [\<lparr> src = ''http://192.168.10.1:3000/presets/a.mp3'', volume = 1, loop = False,
                   paused = False, currentTime = 12, duration = Some 60, ended = False,
                   onended = PresetEnd 0, routed = True \<rparr>],
         presetAudios := [(0, 0)] \<rparr>"
  by (simp add: run_defs)

theorem preset_natural_end_witness:
  "emitted (step (Ended 0)
      (run [Gesture ''click'', Inbound (PlayPreset 0 ''a.mp3''), MediaProgress 0 12 60] init)) =
     [RegisterAudioPlayer, PresetProgress 0 (Some 60) (Some 60) True]
   \<and> presetAudios (step (Ended 0)
      (run [Gesture ''click'', Inbound (PlayPreset 0 ''a.mp3''), MediaProgress 0 12 60] init)) = []"
proof -
  let ?s = "run [Gesture ''click'', Inbound (PlayPreset 0 ''a.mp3''), MediaProgress 0 12 60] init"
  have r: "reachable ?s" by (rule reachable_run [OF reachable_init])
  have m: "map_of (presetAudios ?s) 0 = Some 0"
    unfolding end_state by (simp add: init_def)
  have c: "can_end ?s 0"
    unfolding end_state by (simp add: init_def can_end_def)
  have e: "emitted ?s = [RegisterAudioPlayer]" "els ?s ! 0 = \<lparr> src = ''http://192.168.10.1:3000/presets/a.mp3'', volume = 1, loop = False,
                   paused = False, currentTime = 12, duration = Some 60, ended = False,
                   onended = PresetEnd 0, routed = True \<rparr>"
    unfolding end_state by (simp_all add: init_def)
  from preset_natural_end [OF r m c]
  have a: "emitted (step (Ended 0) ?s) = [RegisterAudioPlayer, PresetProgress 0 (Some 60) (Some 60) True]"
    unfolding e by simp
  have b: "presetAudios (step (Ended 0) ?s) = []"
    unfolding end_state by (simp add: run_defs can_end_def)
  from a b show ?thesis by blast
qed

subsection \<open>Master volume\<close>

text \<open>
  C6. \<open>audio:master-volume\<close> always stores the value as the master volume. If the
  shared gain exists it takes the value at once; if it does not, it stays absent, and the
  graph created afterwards (by \<open>initAudioContext\<close>, as the unlock of a reachable locked
  and enabled state does) starts with that value as its gain. In every reachable state
  the gain exists exactly when the gate is unlocked and equals the stored master volume.
  The handler leaves the element store, the two maps, the speech clip and the IA volume
  unchanged, hence every per-element volume.
\<close>

theorem master_volume_stored_and_applied:
  "masterVolume (master_volume v s) = v
   \<and> (masterGain s \<noteq> None \<longrightarrow> masterGain (master_volume v s) = Some v)
   \<and> (masterGain s = None \<longrightarrow> masterGain (master_volume v s) = None)
   \<and> (\<not> audioCtx s \<longrightarrow> masterGain (initAudioContext (master_volume v s)) = Some v)
   \<and> (reachable s \<and> \<not> audioUnlocked s \<and> enabled (audioConfig s) \<longrightarrow>
        masterGain s = None \<and> masterGain (doUnlockAudio (master_volume v s)) = Some v)
   \<and> (reachable s \<longrightarrow> masterGain s = (if audioUnlocked s then Some (masterVolume s) else None))
   \<and> els (master_volume v s) = els s
   \<and> ambientAudios (master_volume v s) = ambientAudios s
   \<and> presetAudios (master_volume v s) = presetAudios s
   \<and> ttsAudio (master_volume v s) = ttsAudio s
   \<and> iaVolume (master_volume v s) = iaVolume s"
proof -
  have inv: "reachable s \<Longrightarrow> masterGain s = (if audioUnlocked s then Some (masterVolume s) else None)"
    using wf_graphD [OF reachable_wf] by simp
  have a: "reachable s \<and> \<not> audioUnlocked s \<and> enabled (audioConfig s) \<longrightarrow>
        masterGain s = None \<and> masterGain (doUnlockAudio (master_volume v s)) = Some v"
  proof
    assume h: "reachable s \<and> \<not> audioUnlocked s \<and> enabled (audioConfig s)"
    then have n: "masterGain s = None" "\<not> audioCtx s"
      using wf_graphD [OF reachable_wf, of s] by simp_all
    have "doUnlockAudio (master_volume v s) =
        (master_volume v s)\<lparr> audioCtx := True, masterGain := Some (masterVolume (master_volume v s)),
        primerStarts := Suc (primerStarts (master_volume v s)), audioUnlocked := True,
        emitted := emitted (master_volume v s) @ [RegisterAudioPlayer],
        progressInterval :=
          (case progressInterval (master_volume v s) of None \<Rightarrow> Some (timerCount (master_volume v s)) | Some p \<Rightarrow> Some p),
        timerCount :=
          (case progressInterval (master_volume v s) of None \<Rightarrow> Suc (timerCount (master_volume v s)) | Some p \<Rightarrow> timerCount (master_volume v s)),
        unlockListeners := fold removeAll unlockEvents (unlockListeners (master_volume v s)) \<rparr>"
      using h n by (intro doUnlockAudio_eq) (simp_all add: master_volume_eq)
    then have "masterGain (doUnlockAudio (master_volume v s)) = Some v"
      by (simp add: master_volume_eq)
    with n show "masterGain s = None \<and> masterGain (doUnlockAudio (master_volume v s)) = Some v"
      by simp
  qed
  have b: "\<not> audioCtx s \<longrightarrow> masterGain (initAudioContext (master_volume v s)) = Some v"
    by (simp add: initAudioContext_def master_volume_eq)
  from a b inv show ?thesis by (simp add: master_volume_eq)
qed

theorem master_volume_stored_and_applied_witness:
  "masterGain (master_volume 0.3 init) = None
   \<and> masterVolume (master_volume 0.3 init) = 0.3
   \<and> masterGain (doUnlockAudio (master_volume 0.3 init)) = Some 0.3
   \<and> masterGain (run [Gesture ''click''] init) = Some 1
   \<and> masterGain (master_volume 0.3 (run [Gesture ''click''] init)) = Some 0.3"
proof -
  let ?u = "run [Gesture ''click''] init"
  have r: "reachable init" by (rule reachable_init)
  have h: "\<not> audioUnlocked init" "enabled (audioConfig init)" "masterGain init = None"
    by (simp_all add: init_def)
  have hu: "masterGain ?u = Some 1" unfolding unlocked_state by (simp add: init_def)
  from master_volume_stored_and_applied [of "0.3" init] r h
    master_volume_stored_and_applied [of "0.3" ?u] hu
  show ?thesis by simp
qed

subsection \<open>Reconfiguration\<close>

lemma addUnlockListeners_all:
  "set unlockEvents \<subseteq> set (unlockListeners (addUnlockListeners s))"
  by (auto simp add: addUnlockListeners_def unlockEvents_def)

lemma configureAudio_disable:
  assumes "enabled_opt config = Given False"
  shows "configureAudio config s =
     (stopAllAudio s)\<lparr> audioConfig := merge_config (audioConfig s) config, progressInterval := None \<rparr>"
  using assms
  by (cases "progressInterval s")
    (simp_all add: configureAudio_def Let_def stopAllAudio_config stopProgressReporting_def
      stopAllAudio_eq)

lemma configureAudio_other:
  assumes "enabled_opt config \<noteq> Given False"
  shows "configureAudio config s =
     s\<lparr> audioConfig := merge_config (audioConfig s) config,
        unlockListeners :=
          (if enabled_opt config = Given True \<and> autoUnlock_opt config \<noteq> Given False
           then unlockListeners (addUnlockListeners s) else unlockListeners s) \<rparr>"
  using assms by (simp add: configureAudio_def Let_def addUnlockListeners_def)

text \<open>
  C10. \<open>configureAudio\<close> stores the merged configuration, but attaches the gesture
  listeners exactly when the partial update itself has \<open>enabled\<close> true and does not have
  \<open>autoUnlock\<close> false; otherwise the listeners are as before. So the update
  \<open>{enabled: true}\<close> attaches all three listeners although the stored \<open>autoUnlock\<close>
  is, and stays, false. An update with \<open>enabled\<close> false also empties both maps and the
  speech reference, tears down every element they referred to and clears the progress
  timer; any other update leaves the elements, the maps and the timer alone.
\<close>

theorem configureAudio_decides_from_partial:
  "unlockListeners (configureAudio config s) =
     (if enabled_opt config = Given True \<and> autoUnlock_opt config \<noteq> Given False
      then unlockListeners (addUnlockListeners s) else unlockListeners s)
   \<and> set unlockEvents \<subseteq> set (unlockListeners (addUnlockListeners s))
   \<and> audioConfig (configureAudio config s) = merge_config (audioConfig s) config
   \<and> (\<not> autoUnlock (audioConfig s) \<longrightarrow>
        \<not> autoUnlock (audioConfig (configureAudio
            \<lparr> enabled_opt = Given True, autoUnlock_opt = Absent, debug_opt = Absent \<rparr> s))
        \<and> set unlockEvents \<subseteq> set (unlockListeners (configureAudio
            \<lparr> enabled_opt = Given True, autoUnlock_opt = Absent, debug_opt = Absent \<rparr> s)))
   \<and> (enabled_opt config = Given False \<longrightarrow>
        ambientAudios (configureAudio config s) = []
        \<and> presetAudios (configureAudio config s) = []
        \<and> ttsAudio (configureAudio config s) = None
        \<and> progressInterval (configureAudio config s) = None
        \<and> (\<forall>r. r < length (els s) \<and>
              r \<in> snd ` set (ambientAudios s) \<union> snd ` set (presetAudios s) \<union> set_option (ttsAudio s)
              \<longrightarrow> paused (els (configureAudio config s) ! r)
                  \<and> src (els (configureAudio config s) ! r) = []))
   \<and> (enabled_opt config \<noteq> Given False \<longrightarrow>
        els (configureAudio config s) = els s
        \<and> ambientAudios (configureAudio config s) = ambientAudios s
        \<and> presetAudios (configureAudio config s) = presetAudios s
        \<and> ttsAudio (configureAudio config s) = ttsAudio s
        \<and> progressInterval (configureAudio config s) = progressInterval s)"
proof -
  have l: "unlockListeners (configureAudio config s) =
     (if enabled_opt config = Given True \<and> autoUnlock_opt config \<noteq> Given False
      then unlockListeners (addUnlockListeners s) else unlockListeners s)"
  proof (cases "enabled_opt config = Given False")
    case True
    then show ?thesis by (simp add: configureAudio_disable stopAllAudio_eq)
  next
    case False
    then show ?thesis by (simp add: configureAudio_other)
  qed
  have c: "audioConfig (configureAudio config s) = merge_config (audioConfig s) config"
    by (cases "enabled_opt config = Given False")
      (simp_all add: configureAudio_disable configureAudio_other)
  have r: "\<not> autoUnlock (audioConfig s) \<longrightarrow>
        \<not> autoUnlock (audioConfig (configureAudio
            \<lparr> enabled_opt = Given True, autoUnlock_opt = Absent, debug_opt = Absent \<rparr> s))
        \<and> set unlockEvents \<subseteq> set (unlockListeners (configureAudio
            \<lparr> enabled_opt = Given True, autoUnlock_opt = Absent, debug_opt = Absent \<rparr> s))"
    using addUnlockListeners_all [of s]
    by (simp add: configureAudio_other merge_config_def merge_field_def)
  have d: "enabled_opt config = Given False \<longrightarrow>
        ambientAudios (configureAudio config s) = []
        \<and> presetAudios (configureAudio config s) = []
        \<and> ttsAudio (configureAudio config s) = None
        \<and> progressInterval (configureAudio config s) = None
        \<and> (\<forall>r. r < length (els s) \<and>
              r \<in> snd ` set (ambientAudios s) \<union> snd ` set (presetAudios s) \<union> set_option (ttsAudio s)
              \<longrightarrow> paused (els (configureAudio config s) ! r)
                  \<and> src (els (configureAudio config s) ! r) = [])"
  proof
    assume h: "enabled_opt config = Given False"
    have e: "els (configureAudio config s) = els (stopAllAudio s)"
      by (simp add: configureAudio_disable [OF h])
    show "ambientAudios (configureAudio config s) = []
        \<and> presetAudios (configureAudio config s) = []
        \<and> ttsAudio (configureAudio config s) = None
        \<and> progressInterval (configureAudio config s) = None
        \<and> (\<forall>r. r < length (els s) \<and>
              r \<in> snd ` set (ambientAudios s) \<union> snd ` set (presetAudios s) \<union> set_option (ttsAudio s)
              \<longrightarrow> paused (els (configureAudio config s) ! r)
                  \<and> src (els (configureAudio config s) ! r) = [])"
    proof (intro conjI allI impI)
      show "ambientAudios (configureAudio config s) = []" "presetAudios (configureAudio config s) = []"
        "ttsAudio (configureAudio config s) = None" "progressInterval (configureAudio config s) = None"
        by (simp_all add: configureAudio_disable [OF h] stopAllAudio_eq)
    next
      fix r
      assume "r < length (els s) \<and>
        r \<in> snd ` set (ambientAudios s) \<union> snd ` set (presetAudios s) \<union> set_option (ttsAudio s)"
      then show "paused (els (configureAudio config s) ! r)" "src (els (configureAudio config s) ! r) = []"
        unfolding e by (simp_all add: nth_stopAllAudio)
    qed
  qed
  have k: "enabled_opt config \<noteq> Given False \<longrightarrow>
        els (configureAudio config s) = els s
        \<and> ambientAudios (configureAudio config s) = ambientAudios s
        \<and> presetAudios (configureAudio config s) = presetAudios s
        \<and> ttsAudio (configureAudio config s) = ttsAudio s
        \<and> progressInterval (configureAudio config s) = progressInterval s"
    by (simp add: configureAudio_other)
  from l c r d k addUnlockListeners_all [of s] show ?thesis by blast
qed

lemma locked_autooff_state:
  "run [ConfigureAudio \<lparr> enabled_opt = Absent, autoUnlock_opt = Given False, debug_opt = Absent \<rparr>,
        Gesture ''click''] init =
   init\<lparr> audioConfig := \<lparr> enabled = True, autoUnlock = False, debug = False \<rparr>,
         audioUnlocked := True, audioCtx := True, masterGain := Some 1, primerStarts := 1,
         emitted := [RegisterAudioPlayer], progressInterval := Some 0, timerCount := 1,
         unlockListeners := [] \<rparr>"
  by (simp add: run_defs merge_config_def merge_field_def)

theorem configureAudio_decides_from_partial_witness:
  "\<not> autoUnlock (audioConfig
      (run [ConfigureAudio \<lparr> enabled_opt = Absent, autoUnlock_opt = Given False, debug_opt = Absent \<rparr>,
            Gesture ''click''] init))
   \<and> unlockListeners
      (run [ConfigureAudio \<lparr> enabled_opt = Absent, autoUnlock_opt = Given False, debug_opt = Absent \<rparr>,
            Gesture ''click''] init) = []
   \<and> unlockListeners (configureAudio \<lparr> enabled_opt = Given True, autoUnlock_opt = Absent, debug_opt = Absent \<rparr>
      (run [ConfigureAudio \<lparr> enabled_opt = Absent, autoUnlock_opt = Given False, debug_opt = Absent \<rparr>,
            Gesture ''click''] init)) = [''click'', ''touchstart'', ''keydown'']
   \<and> \<not> autoUnlock (audioConfig (configureAudio \<lparr> enabled_opt = Given True, autoUnlock_opt = Absent, debug_opt = Absent \<rparr>
      (run [ConfigureAudio \<lparr> enabled_opt = Absent, autoUnlock_opt = Given False, debug_opt = Absent \<rparr>,
            Gesture ''click''] init)))
   \<and> map src (els (configureAudio \<lparr> enabled_opt = Given False, autoUnlock_opt = Absent, debug_opt = Absent \<rparr>
      (run [Gesture ''click'', Inbound (PlayAmbient ''rain'' ''rain.mp3'' None),
            Inbound (PlayPreset 0 ''a.mp3''), Inbound (PlayTTS ''AAAA'' None)] init))) = [[], [], []]
   \<and> progressInterval (configureAudio \<lparr> enabled_opt = Given False, autoUnlock_opt = Absent, debug_opt = Absent \<rparr>
      (run [Gesture ''click'', Inbound (PlayAmbient ''rain'' ''rain.mp3'' None),
            Inbound (PlayPreset 0 ''a.mp3''), Inbound (PlayTTS ''AAAA'' None)] init)) = None"
proof -
  let ?a = "run [ConfigureAudio \<lparr> enabled_opt = Absent, autoUnlock_opt = Given False, debug_opt = Absent \<rparr>,
            Gesture ''click''] init"
  let ?on = "\<lparr> enabled_opt = Given True, autoUnlock_opt = Absent, debug_opt = Absent \<rparr>"
  let ?off = "\<lparr> enabled_opt = Given False, autoUnlock_opt = Absent, debug_opt = Absent \<rparr>"
  let ?m = "run [Gesture ''click'', Inbound (PlayAmbient ''rain'' ''rain.mp3'' None),
            Inbound (PlayPreset 0 ''a.mp3''), Inbound (PlayTTS ''AAAA'' None)] init"
  have a1: "\<not> autoUnlock (audioConfig ?a)" "unlockListeners ?a = []"
    unfolding locked_autooff_state by (simp_all add: init_def)
  have a2: "unlockListeners (addUnlockListeners ?a) = [''click'', ''touchstart'', ''keydown'']"
    unfolding locked_autooff_state by (simp add: init_def addUnlockListeners_def unlockEvents_def)
  note t1 = configureAudio_decides_from_partial [where s = ?a and config = ?on]
  from t1 [THEN conjunct1] a2
  have b1: "unlockListeners (configureAudio ?on ?a) = [''click'', ''touchstart'', ''keydown'']"
    by simp
  from t1 [THEN conjunct2, THEN conjunct2, THEN conjunct2, THEN conjunct1, rule_format, OF a1(1)]
  have b2: "\<not> autoUnlock (audioConfig (configureAudio ?on ?a))"
    by (rule conjunct1)
  note t2 = configureAudio_decides_from_partial [where s = ?m and config = ?off]
  have o: "enabled_opt ?off = Given False" by simp
  note d = t2 [THEN conjunct2, THEN conjunct2, THEN conjunct2, THEN conjunct2, THEN conjunct1,
      rule_format, OF o]
  have c2: "progressInterval (configureAudio ?off ?m) = None"
    using d by blast
  have c1: "map src (els (configureAudio ?off ?m)) = [[], [], []]"
    unfolding mixed_state
    by (simp add: configureAudio_disable stopAllAudio_eq init_def)
  from a1 b1 b2 c1 c2 show ?thesis by blast
qed

subsection \<open>Presets: resume and creation\<close>

lemma play_preset_live:
  assumes "wf s" "map_of (presetAudios s) idx = Some r"
  shows "r < length (els s)" "src (els s ! r) \<noteq> []"
    "isAudioReady s \<and> valid_volume (iaVolume s) \<longrightarrow>
       play_preset idx f s =
         Returned (s\<lparr> els := (els s)[r := (els s ! r)\<lparr> volume := iaVolume s, paused := False \<rparr>] \<rparr>)"
    "length (els (state_of (play_preset idx f s))) = length (els s)"
proof -
  show r: "r < length (els s)" and l: "src (els s ! r) \<noteq> []"
    using wf_preD [OF assms] by simp_all
  show "isAudioReady s \<and> valid_volume (iaVolume s) \<longrightarrow>
       play_preset idx f s =
         Returned (s\<lparr> els := (els s)[r := (els s ! r)\<lparr> volume := iaVolume s, paused := False \<rparr>] \<rparr>)"
    using l assms(2) by (simp add: play_preset_def isAudioReady_def preset_resume_eq)
  show "length (els (state_of (play_preset idx f s))) = length (els s)"
    using l assms(2) by (simp add: play_preset_def preset_resume_eq)
qed

lemma play_preset_creates:
  assumes "wf s" "length (els (state_of (play_preset idx f s))) \<noteq> length (els s)"
  shows "map_of (presetAudios s) idx = None" "isAudioReady s"
    "play_preset idx f s = preset_create idx f s"
proof -
  show n: "map_of (presetAudios s) idx = None"
  proof (cases "map_of (presetAudios s) idx")
    case None
    then show ?thesis .
  next
    case (Some r)
    from play_preset_live(4) [OF assms(1) Some, of f] assms(2) show ?thesis by simp
  qed
  show g: "isAudioReady s"
    using assms(2) by (auto simp add: play_preset_def isAudioReady_def split: if_splits)
  show "play_preset idx f s = preset_create idx f s"
    using n g by (simp add: play_preset_def isAudioReady_def)
qed

text \<open>
  C1, as amended. In every reachable state the element of a preset slot that holds an
  instance still has its source. While the gate is open and the current \<open>iaVolume\<close> lies
  within 0 and 1, \<open>play-preset\<close> on that slot with any file reference returns and
  resumes that same element: its volume becomes the current \<open>iaVolume\<close>, it is no longer
  paused, and nothing else changes, so its position (a seek included) and its source are
  kept and the file reference is not used. The handler allocates a new element only when
  the slot holds no instance; the new element is then built from the file reference and,
  under the same condition on \<open>iaVolume\<close>, plays at that volume and is stored under the
  slot.
\<close>

theorem play_preset_resumes_live_instance:
  assumes "reachable s"
  shows "(\<forall>r. map_of (presetAudios s) idx = Some r \<longrightarrow>
            r < length (els s) \<and> src (els s ! r) \<noteq> [] \<and>
            (isAudioReady s \<and> valid_volume (iaVolume s) \<longrightarrow>
               play_preset idx f s =
                 Returned (s\<lparr> els := (els s)[r := (els s ! r)\<lparr> volume := iaVolume s,
                                                                  paused := False \<rparr>] \<rparr>)))
         \<and> (length (els (state_of (play_preset idx f s))) \<noteq> length (els s) \<longrightarrow>
              map_of (presetAudios s) idx = None \<and> isAudioReady s \<and>
              play_preset idx f s = preset_create idx f s \<and>
              src (els (state_of (play_preset idx f s)) ! length (els s)) =
                BACKOFFICE_URL @ ''/presets/'' @ f \<and>
              (valid_volume (iaVolume s) \<longrightarrow>
                 play_preset idx f s = Returned (state_of (play_preset idx f s)) \<and>
                 map_of (presetAudios (state_of (play_preset idx f s))) idx = Some (length (els s)) \<and>
                 volume (els (state_of (play_preset idx f s)) ! length (els s)) = iaVolume s \<and>
                 \<not> paused (els (state_of (play_preset idx f s)) ! length (els s))))"
proof -
  have w: "wf s" by (rule reachable_wf [OF assms])
  have a: "\<forall>r. map_of (presetAudios s) idx = Some r \<longrightarrow>
            r < length (els s) \<and> src (els s ! r) \<noteq> [] \<and>
            (isAudioReady s \<and> valid_volume (iaVolume s) \<longrightarrow>
               play_preset idx f s =
                 Returned (s\<lparr> els := (els s)[r := (els s ! r)\<lparr> volume := iaVolume s,
                                                                  paused := False \<rparr>] \<rparr>))"
    using play_preset_live(1-3) [OF w] by blast
  have b: "length (els (state_of (play_preset idx f s))) \<noteq> length (els s) \<longrightarrow>
              map_of (presetAudios s) idx = None \<and> isAudioReady s \<and>
              play_preset idx f s = preset_create idx f s \<and>
              src (els (state_of (play_preset idx f s)) ! length (els s)) =
                BACKOFFICE_URL @ ''/presets/'' @ f \<and>
              (valid_volume (iaVolume s) \<longrightarrow>
                 play_preset idx f s = Returned (state_of (play_preset idx f s)) \<and>
                 map_of (presetAudios (state_of (play_preset idx f s))) idx = Some (length (els s)) \<and>
                 volume (els (state_of (play_preset idx f s)) ! length (els s)) = iaVolume s \<and>
                 \<not> paused (els (state_of (play_preset idx f s)) ! length (els s)))"
  proof
    assume l: "length (els (state_of (play_preset idx f s))) \<noteq> length (els s)"
    note c = play_preset_creates [OF w l]
    show "map_of (presetAudios s) idx = None \<and> isAudioReady s \<and>
              play_preset idx f s = preset_create idx f s \<and>
              src (els (state_of (play_preset idx f s)) ! length (els s)) =
                BACKOFFICE_URL @ ''/presets/'' @ f \<and>
              (valid_volume (iaVolume s) \<longrightarrow>
                 play_preset idx f s = Returned (state_of (play_preset idx f s)) \<and>
                 map_of (presetAudios (state_of (play_preset idx f s))) idx = Some (length (els s)) \<and>
                 volume (els (state_of (play_preset idx f s)) ! length (els s)) = iaVolume s \<and>
                 \<not> paused (els (state_of (play_preset idx f s)) ! length (els s)))"
      using c by (simp add: preset_create_eq AList.update_conv')
  qed
  from a b show ?thesis by blast
qed

lemma scenario_state:
  "run [Gesture ''click'', Inbound (PlayPreset 0 ''a.mp3''), Inbound (PausePreset 0),
        Inbound (SeekPreset 0 30)] init =
   init\<lparr> audioUnlocked := True, audioCtx := True, masterGain := Some 1, primerStarts := 1,
         emitted := [RegisterAudioPlayer], progressInterval := Some 0, timerCount := 1,
         unlockListeners := [],
         els := [\<lparr> src = ''http://192.168.10.1:3000/presets/a.mp3'', volume = 1, loop = False,
                   paused = True, currentTime = 30, duration = None, ended = False,
                   onended = PresetEnd 0, routed = True \<rparr>],
         presetAudios := [(0, 0)] \<rparr>"
  by (simp add: run_defs)

theorem play_preset_resumes_live_instance_witness:
  "play_preset 0 ''b.mp3''
     (run [Gesture ''click'', Inbound (PlayPreset 0 ''a.mp3''), Inbound (PausePreset 0),
           Inbound (SeekPreset 0 30)] init) =
   Returned (init\<lparr> audioUnlocked := True, audioCtx := True, masterGain := Some 1, primerStarts := 1,
         emitted := [RegisterAudioPlayer], progressInterval := Some 0, timerCount := 1,
         unlockListeners := [],
         els := [\<lparr> src = ''http://192.168.10.1:3000/presets/a.mp3'', volume = 1, loop = False,
                   paused = False, currentTime = 30, duration = None, ended = False,
                   onended = PresetEnd 0, routed = True \<rparr>],
         presetAudios := [(0, 0)] \<rparr>)
   \<and> length (els (state_of (play_preset 1 ''c.mp3''
        (run [Gesture ''click'', Inbound (PlayPreset 0 ''a.mp3''), Inbound (PausePreset 0),
           Inbound (SeekPreset 0 30)] init)))) = 2
   \<and> src (els (state_of (play_preset 1 ''c.mp3''
        (run [Gesture ''click'', Inbound (PlayPreset 0 ''a.mp3''), Inbound (PausePreset 0),
           Inbound (SeekPreset 0 30)] init))) ! 1) = ''http://192.168.10.1:3000/presets/c.mp3''
   \<and> map_of (presetAudios (state_of (play_preset 1 ''c.mp3''
        (run [Gesture ''click'', Inbound (PlayPreset 0 ''a.mp3''), Inbound (PausePreset 0),
           Inbound (SeekPreset 0 30)] init)))) 1 = Some 1"
proof -
  let ?s = "run [Gesture ''click'', Inbound (PlayPreset 0 ''a.mp3''), Inbound (PausePreset 0),
           Inbound (SeekPreset 0 30)] init"
  have r: "reachable ?s" by (rule reachable_run [OF reachable_init])
  have m: "map_of (presetAudios ?s) 0 = Some 0"
    unfolding scenario_state by (simp add: init_def)
  have g: "isAudioReady ?s \<and> valid_volume (iaVolume ?s)"
    unfolding scenario_state by (simp add: init_def isAudioReady_def valid_volume_def)
  have l: "length (els (state_of (play_preset 1 ''c.mp3'' ?s))) \<noteq> length (els ?s)"
    unfolding scenario_state by (simp add: run_defs)
  have n: "length (els ?s) = 1"
    unfolding scenario_state by (simp add: init_def)
  note th0 = play_preset_resumes_live_instance [OF r, of 0 "''b.mp3''"]
  from th0 [THEN conjunct1, rule_format, OF m, THEN conjunct2, THEN conjunct2, rule_format, OF g]
  have a: "play_preset 0 ''b.mp3'' ?s =
      Returned (?s\<lparr> els := (els ?s)[0 := (els ?s ! 0)\<lparr> volume := iaVolume ?s, paused := False \<rparr>] \<rparr>)" .
  note th1 = play_preset_resumes_live_instance [OF r, of 1 "''c.mp3''"]
  note cr = th1 [THEN conjunct2, rule_format, OF l]
  from cr have b: "src (els (state_of (play_preset 1 ''c.mp3'' ?s)) ! length (els ?s)) =
      BACKOFFICE_URL @ ''/presets/'' @ ''c.mp3''"
    by blast
  from cr g have d: "map_of (presetAudios (state_of (play_preset 1 ''c.mp3'' ?s))) 1 = Some (length (els ?s))"
    by blast
  have c: "length (els (state_of (play_preset 1 ''c.mp3'' ?s))) = 2"
    unfolding scenario_state by (simp add: run_defs)
  have a': "play_preset 0 ''b.mp3'' ?s =
   Returned (init\<lparr> audioUnlocked := True, audioCtx := True, masterGain := Some 1, primerStarts := 1,
         emitted := [RegisterAudioPlayer], progressInterval := Some 0, timerCount := 1,
         unlockListeners := [],
         els := [\<lparr> src = ''http://192.168.10.1:3000/presets/a.mp3'', volume = 1, loop = False,
                   paused = False, currentTime = 30, duration = None, ended = False,
                   onended = PresetEnd 0, routed = True \<rparr>],
         presetAudios := [(0, 0)] \<rparr>)"
    unfolding a unfolding scenario_state by (simp add: init_def)
  from b have b': "src (els (state_of (play_preset 1 ''c.mp3'' ?s)) ! 1) = ''http://192.168.10.1:3000/presets/c.mp3''"
    unfolding n by (simp add: BACKOFFICE_URL_def)
  from d have d': "map_of (presetAudios (state_of (play_preset 1 ''c.mp3'' ?s))) 1 = Some 1"
    unfolding n by simp
  from a' b' c d' show ?thesis by blast
qed

lemma invalid_ia_state:
  "run [Gesture ''click'', Inbound (PlayPreset 0 ''a.mp3''), Inbound (PausePreset 0),
        Inbound (SeekPreset 0 30), Inbound (VolumeIA 1.5)] init =
   init\<lparr> audioUnlocked := True, audioCtx := True, masterGain := Some 1, primerStarts := 1,
         emitted := [RegisterAudioPlayer], progressInterval := Some 0, timerCount := 1,
         unlockListeners := [], iaVolume := 1.5,
         els := [\<lparr> src = ''http://192.168.10.1:3000/presets/a.mp3'', volume = 1, loop = False,
                   paused = True, currentTime = 30, duration = None, ended = False,
                   onended = PresetEnd 0, routed = True \<rparr>],
         presetAudios := [(0, 0)] \<rparr>"
  by (simp add: run_defs)

lemma closed_preset_state:
  "run [Gesture ''click'', Inbound (PlayPreset 0 ''a.mp3''), Inbound (PausePreset 0),
        ConfigureAudio \<lparr> enabled_opt = Undefined, autoUnlock_opt = Absent, debug_opt = Absent \<rparr>] init =
   init\<lparr> audioConfig := \<lparr> enabled = False, autoUnlock = True, debug = False \<rparr>,
         audioUnlocked := True, audioCtx := True, masterGain := Some 1, primerStarts := 1,
         emitted := [RegisterAudioPlayer], progressInterval := Some 0, timerCount := 1,
         unlockListeners := [],
         els := [\<lparr> src = ''http://192.168.10.1:3000/presets/a.mp3'', volume = 1, loop = False,
                   paused = True, currentTime = 0, duration = None, ended = False,
                   onended = PresetEnd 0, routed = True \<rparr>],
         presetAudios := [(0, 0)] \<rparr>"
  by (simp add: run_defs merge_config_def merge_field_def)

text \<open>
  C1 as stated fails in two reachable states whose slot 0 holds a live, paused instance.
  In the first, \<open>audio:volume-ia\<close> has stored 1.5: \<open>play-preset\<close> on the slot throws
  \<open>IndexSizeError\<close> at the volume assignment, before \<open>play()\<close>, and the element stays
  paused at its old volume; on an empty slot the handler throws before the slot is
  stored, so no instance is created from the file either. In the second,
  \<open>configureAudio\<close> has received \<open>enabled: undefined\<close>, which closes the gate and stops
  nothing: \<open>play-preset\<close> returns at once and the element stays paused.
\<close>

theorem play_preset_does_not_resume:
  "map_of (presetAudios
      (run [Gesture ''click'', Inbound (PlayPreset 0 ''a.mp3''), Inbound (PausePreset 0),
            Inbound (SeekPreset 0 30), Inbound (VolumeIA 1.5)] init)) 0 = Some 0
   \<and> src (els
      (run [Gesture ''click'', Inbound (PlayPreset 0 ''a.mp3''), Inbound (PausePreset 0),
            Inbound (SeekPreset 0 30), Inbound (VolumeIA 1.5)] init) ! 0) =
        ''http://192.168.10.1:3000/presets/a.mp3''
   \<and> paused (els
      (run [Gesture ''click'', Inbound (PlayPreset 0 ''a.mp3''), Inbound (PausePreset 0),
            Inbound (SeekPreset 0 30), Inbound (VolumeIA 1.5)] init) ! 0)
   \<and> play_preset 0 ''b.mp3''
      (run [Gesture ''click'', Inbound (PlayPreset 0 ''a.mp3''), Inbound (PausePreset 0),
            Inbound (SeekPreset 0 30), Inbound (VolumeIA 1.5)] init) =
     Thrown IndexSizeError
      (run [Gesture ''click'', Inbound (PlayPreset 0 ''a.mp3''), Inbound (PausePreset 0),
            Inbound (SeekPreset 0 30), Inbound (VolumeIA 1.5)] init)
   \<and> presetAudios (state_of (play_preset 1 ''c.mp3''
      (run [Gesture ''click'', Inbound (PlayPreset 0 ''a.mp3''), Inbound (PausePreset 0),
            Inbound (SeekPreset 0 30), Inbound (VolumeIA 1.5)] init))) = [(0, 0)]
   \<and> map_of (presetAudios
      (run [Gesture ''click'', Inbound (PlayPreset 0 ''a.mp3''), Inbound (PausePreset 0),
            ConfigureAudio \<lparr> enabled_opt = Undefined, autoUnlock_opt = Absent, debug_opt = Absent \<rparr>]
         init)) 0 = Some 0
   \<and> paused (els
      (run [Gesture ''click'', Inbound (PlayPreset 0 ''a.mp3''), Inbound (PausePreset 0),
            ConfigureAudio \<lparr> enabled_opt = Undefined, autoUnlock_opt = Absent, debug_opt = Absent \<rparr>]
         init) ! 0)
   \<and> play_preset 0 ''b.mp3''
      (run [Gesture ''click'', Inbound (PlayPreset 0 ''a.mp3''), Inbound (PausePreset 0),
            ConfigureAudio \<lparr> enabled_opt = Undefined, autoUnlock_opt = Absent, debug_opt = Absent \<rparr>]
         init) =
     Returned
      (run [Gesture ''click'', Inbound (PlayPreset 0 ''a.mp3''), Inbound (PausePreset 0),
            ConfigureAudio \<lparr> enabled_opt = Undefined, autoUnlock_opt = Absent, debug_opt = Absent \<rparr>]
         init)"
  unfolding invalid_ia_state closed_preset_state
  by (simp add: run_defs)

subsection \<open>Replacing an ambient sound\<close>

lemma count_key:
  "distinct (map fst al) \<Longrightarrow> map_of al k = Some v \<Longrightarrow> length (filter (\<lambda>e. fst e = k) al) = 1"
proof (induction al)
  case Nil
  then show ?case by simp
next
  case (Cons e al)
  show ?case
  proof (cases "fst e = k")
    case True
    then have "k \<notin> fst ` set al" using Cons.prems(1) by auto
    then have "filter (\<lambda>e. fst e = k) al = []" by (auto simp add: filter_empty_conv)
    with True show ?thesis by simp
  next
    case False
    with Cons show ?thesis by (cases e) auto
  qed
qed

lemma play_ambient_open:
  "isAudioReady s \<Longrightarrow> play_ambient k f v s = ambient_start k f v (ambient_teardown k s)"
  by (simp add: play_ambient_def isAudioReady_def)

lemma play_ambient_returns:
  assumes "isAudioReady s" "valid_volume (case v of None \<Rightarrow> 0.5 | Some x \<Rightarrow> x)"
  shows "play_ambient k f v s = Returned (state_of (play_ambient k f v s))"
    and "map_of (ambientAudios (state_of (play_ambient k f v s))) k = Some (length (els s))"
    and "length (els (state_of (play_ambient k f v s))) = Suc (length (els s))"
    and "isAudioReady (state_of (play_ambient k f v s))"
    and "els (state_of (play_ambient k f v s)) ! length (els s) =
           \<lparr> src = BACKOFFICE_URL @ ''/sounds/'' @ f,
             volume = (case v of None \<Rightarrow> 0.5 | Some x \<Rightarrow> x), loop = True,
             paused = False, currentTime = 0, duration = None, ended = False,
             onended = NoHandler, routed = (audioCtx s \<and> masterGain s \<noteq> None) \<rparr>"
    and "\<And>r. map_of (ambientAudios s) k = Some r \<Longrightarrow> r < length (els s) \<Longrightarrow>
           paused (els (state_of (play_ambient k f v s)) ! r) \<and>
           src (els (state_of (play_ambient k f v s)) ! r) = []"
  using assms
  by (simp_all add: play_ambient_open ambient_start_eq ambient_teardown_eq AList.update_conv'
      isAudioReady_def nth_at_end nth_append split: option.splits)

lemma play_ambient_throws:
  assumes "isAudioReady s" "\<not> valid_volume (case v of None \<Rightarrow> 0.5 | Some x \<Rightarrow> x)"
  shows "play_ambient k f v s = Thrown IndexSizeError (state_of (play_ambient k f v s))"
    and "ambientAudios (state_of (play_ambient k f v s)) = ambientAudios s"
    and "length (els (state_of (play_ambient k f v s))) = Suc (length (els s))"
    and "paused (els (state_of (play_ambient k f v s)) ! length (els s))"
    and "\<And>r. map_of (ambientAudios s) k = Some r \<Longrightarrow> r < length (els s) \<Longrightarrow>
           paused (els (state_of (play_ambient k f v s)) ! r) \<and>
           src (els (state_of (play_ambient k f v s)) ! r) = []"
  using assms
  by (simp_all add: play_ambient_open ambient_start_eq ambient_teardown_eq
      isAudioReady_def nth_at_end nth_append split: option.splits)

text \<open>
  C3, as amended. With the gate open, two \<open>play-ambient\<close> commands with the same id
  whose volumes are absent or within 0 and 1 both return and leave exactly one entry
  under that id; it refers to the second element, which loops and plays the second file,
  while the first element, which was playing, is paused with its source released. The
  second handler tears the first element down while the map still refers to it and
  before the replacement is stored: when the second volume is outside 0 and 1 instead,
  the handler throws at the volume assignment, and the state it leaves has the first
  element torn down, the id still on it, and the new element allocated but neither
  started nor stored. In every reachable state the ambient map has one entry per id at
  most, its entries refer to distinct looping elements, and every looping element that
  has a source and is not paused is one of them.
\<close>

theorem play_ambient_same_id_twice:
  assumes "reachable s"
  shows "(isAudioReady s \<and> valid_volume (case v1 of None \<Rightarrow> 0.5 | Some x \<Rightarrow> x)
            \<and> valid_volume (case v2 of None \<Rightarrow> 0.5 | Some x \<Rightarrow> x) \<longrightarrow>
          (let n = length (els s);
               s1 = state_of (play_ambient k f1 v1 s);
               t = ambient_teardown k s1;
               s2 = state_of (play_ambient k f2 v2 s1)
           in play_ambient k f1 v1 s = Returned s1
              \<and> map_of (ambientAudios s1) k = Some n
              \<and> \<not> paused (els s1 ! n) \<and> src (els s1 ! n) = BACKOFFICE_URL @ ''/sounds/'' @ f1
              \<and> length (els t) = Suc n \<and> map_of (ambientAudios t) k = Some n
              \<and> paused (els t ! n) \<and> src (els t ! n) = []
              \<and> play_ambient k f2 v2 s1 = ambient_start k f2 v2 t
              \<and> play_ambient k f2 v2 s1 = Returned s2
              \<and> map_of (ambientAudios s2) k = Some (Suc n)
              \<and> length (filter (\<lambda>e. fst e = k) (ambientAudios s2)) = 1
              \<and> paused (els s2 ! n) \<and> src (els s2 ! n) = []
              \<and> loop (els s2 ! Suc n) \<and> \<not> paused (els s2 ! Suc n)
              \<and> src (els s2 ! Suc n) = BACKOFFICE_URL @ ''/sounds/'' @ f2))
         \<and> (isAudioReady s \<and> valid_volume (case v1 of None \<Rightarrow> 0.5 | Some x \<Rightarrow> x)
            \<and> \<not> valid_volume (case v2 of None \<Rightarrow> 0.5 | Some x \<Rightarrow> x) \<longrightarrow>
          (let n = length (els s);
               s1 = state_of (play_ambient k f1 v1 s);
               s2 = state_of (play_ambient k f2 v2 s1)
           in play_ambient k f2 v2 s1 = Thrown IndexSizeError s2
              \<and> map_of (ambientAudios s2) k = Some n
              \<and> paused (els s2 ! n) \<and> src (els s2 ! n) = []
              \<and> length (els s2) = Suc (Suc n) \<and> paused (els s2 ! Suc n)))
         \<and> distinct (map fst (ambientAudios s))
         \<and> (\<forall>k r. map_of (ambientAudios s) k = Some r \<longrightarrow>
               r < length (els s) \<and> loop (els s ! r) \<and>
               (\<forall>k'. map_of (ambientAudios s) k' = Some r \<longrightarrow> k' = k))
         \<and> (\<forall>r < length (els s). loop (els s ! r) \<and> src (els s ! r) \<noteq> [] \<and> \<not> paused (els s ! r) \<longrightarrow>
               (\<exists>k. map_of (ambientAudios s) k = Some r))"
proof -
  have w: "wf s" by (rule reachable_wf [OF assms])
  have inv: "distinct (map fst (ambientAudios s))
         \<and> (\<forall>k r. map_of (ambientAudios s) k = Some r \<longrightarrow>
               r < length (els s) \<and> loop (els s ! r) \<and>
               (\<forall>k'. map_of (ambientAudios s) k' = Some r \<longrightarrow> k' = k))
         \<and> (\<forall>r < length (els s). loop (els s ! r) \<and> src (els s ! r) \<noteq> [] \<and> \<not> paused (els s ! r) \<longrightarrow>
               (\<exists>k. map_of (ambientAudios s) k = Some r))"
    using wf_keys [OF w] wf_ambD [OF w] wf_amb_inj [OF w] wf_loopD [OF w] by blast
  let ?n = "length (els s)"
  let ?s1 = "state_of (play_ambient k f1 v1 s)"
  let ?t = "ambient_teardown k ?s1"
  let ?s2 = "state_of (play_ambient k f2 v2 ?s1)"
  have two: "isAudioReady s \<and> valid_volume (case v1 of None \<Rightarrow> 0.5 | Some x \<Rightarrow> x)
            \<and> valid_volume (case v2 of None \<Rightarrow> 0.5 | Some x \<Rightarrow> x) \<longrightarrow>
      play_ambient k f1 v1 s = Returned ?s1
      \<and> map_of (ambientAudios ?s1) k = Some ?n
      \<and> \<not> paused (els ?s1 ! ?n) \<and> src (els ?s1 ! ?n) = BACKOFFICE_URL @ ''/sounds/'' @ f1
      \<and> length (els ?t) = Suc ?n \<and> map_of (ambientAudios ?t) k = Some ?n
      \<and> paused (els ?t ! ?n) \<and> src (els ?t ! ?n) = []
      \<and> play_ambient k f2 v2 ?s1 = ambient_start k f2 v2 ?t
      \<and> play_ambient k f2 v2 ?s1 = Returned ?s2
      \<and> map_of (ambientAudios ?s2) k = Some (Suc ?n)
      \<and> length (filter (\<lambda>e. fst e = k) (ambientAudios ?s2)) = 1
      \<and> paused (els ?s2 ! ?n) \<and> src (els ?s2 ! ?n) = []
      \<and> loop (els ?s2 ! Suc ?n) \<and> \<not> paused (els ?s2 ! Suc ?n)
      \<and> src (els ?s2 ! Suc ?n) = BACKOFFICE_URL @ ''/sounds/'' @ f2"
  proof
    assume h: "isAudioReady s \<and> valid_volume (case v1 of None \<Rightarrow> 0.5 | Some x \<Rightarrow> x)
            \<and> valid_volume (case v2 of None \<Rightarrow> 0.5 | Some x \<Rightarrow> x)"
    then have g: "isAudioReady s" and ok1: "valid_volume (case v1 of None \<Rightarrow> 0.5 | Some x \<Rightarrow> x)"
      and ok2: "valid_volume (case v2 of None \<Rightarrow> 0.5 | Some x \<Rightarrow> x)"
      by simp_all
    note f = play_ambient_returns [OF g ok1, where k = k and f = f1]
    note f2 = play_ambient_returns [OF f(4) ok2, where k = k and f = f2]
    have w1: "wf ?s1" by (rule wf_play_ambient [OF w])
    have w2: "wf ?s2" by (rule wf_play_ambient [OF w1])
    have live: "\<not> paused (els ?s1 ! ?n)" "src (els ?s1 ! ?n) = BACKOFFICE_URL @ ''/sounds/'' @ f1"
      by (simp_all add: f(5))
    have t: "?t = ?s1\<lparr> els := (els ?s1)[?n := (els ?s1 ! ?n)\<lparr> paused := True, src := [] \<rparr>] \<rparr>"
      by (simp add: ambient_teardown_eq f(2))
    have t1: "length (els ?t) = Suc ?n" "map_of (ambientAudios ?t) k = Some ?n"
      "paused (els ?t ! ?n)" "src (els ?t ! ?n) = []"
      unfolding t using f(2,3) by simp_all
    have s2: "play_ambient k f2 v2 ?s1 = ambient_start k f2 v2 ?t"
      by (rule play_ambient_open [OF f(4)])
    have m2: "map_of (ambientAudios ?s2) k = Some (Suc ?n)"
      using f2(2) f(3) by simp
    have c2: "length (filter (\<lambda>e. fst e = k) (ambientAudios ?s2)) = 1"
      using wf_keys [OF w2] m2 by (intro count_key) auto
    have old: "paused (els ?s2 ! ?n)" "src (els ?s2 ! ?n) = []"
      using f2(6) [OF f(2)] f(3) by simp_all
    have new: "loop (els ?s2 ! Suc ?n)" "\<not> paused (els ?s2 ! Suc ?n)"
      "src (els ?s2 ! Suc ?n) = BACKOFFICE_URL @ ''/sounds/'' @ f2"
      using f2(5) f(3) by simp_all
    show "play_ambient k f1 v1 s = Returned ?s1
      \<and> map_of (ambientAudios ?s1) k = Some ?n
      \<and> \<not> paused (els ?s1 ! ?n) \<and> src (els ?s1 ! ?n) = BACKOFFICE_URL @ ''/sounds/'' @ f1
      \<and> length (els ?t) = Suc ?n \<and> map_of (ambientAudios ?t) k = Some ?n
      \<and> paused (els ?t ! ?n) \<and> src (els ?t ! ?n) = []
      \<and> play_ambient k f2 v2 ?s1 = ambient_start k f2 v2 ?t
      \<and> play_ambient k f2 v2 ?s1 = Returned ?s2
      \<and> map_of (ambientAudios ?s2) k = Some (Suc ?n)
      \<and> length (filter (\<lambda>e. fst e = k) (ambientAudios ?s2)) = 1
      \<and> paused (els ?s2 ! ?n) \<and> src (els ?s2 ! ?n) = []
      \<and> loop (els ?s2 ! Suc ?n) \<and> \<not> paused (els ?s2 ! Suc ?n)
      \<and> src (els ?s2 ! Suc ?n) = BACKOFFICE_URL @ ''/sounds/'' @ f2"
      using f(1,2) live t1 s2 f2(1) m2 c2 old new by blast
  qed
  have thr: "isAudioReady s \<and> valid_volume (case v1 of None \<Rightarrow> 0.5 | Some x \<Rightarrow> x)
            \<and> \<not> valid_volume (case v2 of None \<Rightarrow> 0.5 | Some x \<Rightarrow> x) \<longrightarrow>
      play_ambient k f2 v2 ?s1 = Thrown IndexSizeError ?s2
      \<and> map_of (ambientAudios ?s2) k = Some ?n
      \<and> paused (els ?s2 ! ?n) \<and> src (els ?s2 ! ?n) = []
      \<and> length (els ?s2) = Suc (Suc ?n) \<and> paused (els ?s2 ! Suc ?n)"
  proof
    assume h: "isAudioReady s \<and> valid_volume (case v1 of None \<Rightarrow> 0.5 | Some x \<Rightarrow> x)
            \<and> \<not> valid_volume (case v2 of None \<Rightarrow> 0.5 | Some x \<Rightarrow> x)"
    then have g: "isAudioReady s" and ok1: "valid_volume (case v1 of None \<Rightarrow> 0.5 | Some x \<Rightarrow> x)"
      and bad: "\<not> valid_volume (case v2 of None \<Rightarrow> 0.5 | Some x \<Rightarrow> x)"
      by simp_all
    note f = play_ambient_returns [OF g ok1, where k = k and f = f1]
    note e = play_ambient_throws [OF f(4) bad, where k = k and f = f2]
    have m: "map_of (ambientAudios ?s2) k = Some ?n" by (simp add: e(2) f(2))
    have old: "paused (els ?s2 ! ?n)" "src (els ?s2 ! ?n) = []"
      using e(5) [OF f(2)] f(3) by simp_all
    have new: "length (els ?s2) = Suc (Suc ?n)" "paused (els ?s2 ! Suc ?n)"
      using e(3,4) f(3) by simp_all
    show "play_ambient k f2 v2 ?s1 = Thrown IndexSizeError ?s2
      \<and> map_of (ambientAudios ?s2) k = Some ?n
      \<and> paused (els ?s2 ! ?n) \<and> src (els ?s2 ! ?n) = []
      \<and> length (els ?s2) = Suc (Suc ?n) \<and> paused (els ?s2 ! Suc ?n)"
      using e(1) m old new by blast
  qed
  from two thr inv show ?thesis unfolding Let_def by blast
qed

theorem play_ambient_same_id_twice_witness:
  "ambientAudios (state_of (play_ambient ''rain'' ''storm.mp3'' (Some 0.8)
      (state_of (play_ambient ''rain'' ''rain.mp3'' None (run [Gesture ''click''] init))))) =
     [(''rain'', 1)]
   \<and> length (filter (\<lambda>e. fst e = ''rain'')
        (ambientAudios (state_of (play_ambient ''rain'' ''storm.mp3'' (Some 0.8)
          (state_of (play_ambient ''rain'' ''rain.mp3'' None (run [Gesture ''click''] init))))))) = 1
   \<and> src (els (state_of (play_ambient ''rain'' ''storm.mp3'' (Some 0.8)
        (state_of (play_ambient ''rain'' ''rain.mp3'' None (run [Gesture ''click''] init))))) ! 0) = []
   \<and> src (els (state_of (play_ambient ''rain'' ''storm.mp3'' (Some 0.8)
        (state_of (play_ambient ''rain'' ''rain.mp3'' None (run [Gesture ''click''] init))))) ! 1) =
       ''http://192.168.10.1:3000/sounds/storm.mp3''
   \<and> src (els (state_of (play_ambient ''rain'' ''storm.mp3'' (Some 1.5)
        (state_of (play_ambient ''rain'' ''rain.mp3'' None (run [Gesture ''click''] init))))) ! 0) = []"
proof -
  let ?s = "run [Gesture ''click''] init"
  let ?s1 = "state_of (play_ambient ''rain'' ''rain.mp3'' None ?s)"
  let ?s2 = "state_of (play_ambient ''rain'' ''storm.mp3'' (Some 0.8) ?s1)"
  let ?s3 = "state_of (play_ambient ''rain'' ''storm.mp3'' (Some 1.5) ?s1)"
  have r: "reachable ?s" by (rule reachable_run [OF reachable_init])
  have g: "isAudioReady ?s \<and> valid_volume (case None of None \<Rightarrow> 0.5 | Some x \<Rightarrow> x)
      \<and> valid_volume (case Some 0.8 of None \<Rightarrow> 0.5 | Some x \<Rightarrow> x)"
    unfolding unlocked_state by (simp add: init_def isAudioReady_def valid_volume_def)
  have g': "isAudioReady ?s \<and> valid_volume (case None of None \<Rightarrow> 0.5 | Some x \<Rightarrow> x)
      \<and> \<not> valid_volume (case Some 1.5 of None \<Rightarrow> 0.5 | Some x \<Rightarrow> x)"
    unfolding unlocked_state by (simp add: init_def isAudioReady_def valid_volume_def)
  have n: "length (els ?s) = 0" unfolding unlocked_state by (simp add: init_def)
  note th = play_ambient_same_id_twice
    [OF r, where ?v1.0 = None and ?v2.0 = "Some 0.8" and k = "''rain''" and ?f1.0 = "''rain.mp3''"
       and ?f2.0 = "''storm.mp3''"]
  note ok = th [THEN conjunct1, rule_format, OF g, unfolded Let_def]
  from ok have a: "length (filter (\<lambda>e. fst e = ''rain'') (ambientAudios ?s2)) = 1"
    and b: "src (els ?s2 ! length (els ?s)) = []"
    and c: "src (els ?s2 ! Suc (length (els ?s))) = BACKOFFICE_URL @ ''/sounds/'' @ ''storm.mp3''"
    by blast+
  note th' = play_ambient_same_id_twice
    [OF r, where ?v1.0 = None and ?v2.0 = "Some 1.5" and k = "''rain''" and ?f1.0 = "''rain.mp3''"
       and ?f2.0 = "''storm.mp3''"]
  note bad = th' [THEN conjunct2, THEN conjunct1, rule_format, OF g', unfolded Let_def]
  from bad have e: "src (els ?s3 ! length (els ?s)) = []"
    by blast
  have d: "ambientAudios ?s2 = [(''rain'', 1)]"
    unfolding unlocked_state by (simp add: run_defs)
  from a b c d e show ?thesis unfolding n by (simp add: BACKOFFICE_URL_def)
qed

lemma failed_replace_state:
  "run [Gesture ''click'', Inbound (PlayAmbient ''rain'' ''rain.mp3'' None),
        Inbound (PlayAmbient ''rain'' ''storm.mp3'' (Some 1.5))] init =
   init\<lparr> audioUnlocked := True, audioCtx := True, masterGain := Some 1, primerStarts := 1,
         emitted := [RegisterAudioPlayer], progressInterval := Some 0, timerCount := 1,
         unlockListeners := [],
         els := [\<lparr> src = [], volume = 0.5, loop = True,
                   paused = True, currentTime = 0, duration = None, ended = False,
                   onended = NoHandler, routed = True \<rparr>,
                 \<lparr> src = ''http://192.168.10.1:3000/sounds/storm.mp3'', volume = 1, loop = True,
                   paused = True, currentTime = 0, duration = None, ended = False,
                   onended = NoHandler, routed = False \<rparr>],
         ambientAudios := [(''rain'', 0)] \<rparr>"
  by (simp add: run_defs)

lemma failed_first_state:
  "run [Gesture ''click'', Inbound (PlayAmbient ''rain'' ''rain.mp3'' (Some 1.5)),
        Inbound (PlayAmbient ''rain'' ''storm.mp3'' None)] init =
   init\<lparr> audioUnlocked := True, audioCtx := True, masterGain := Some 1, primerStarts := 1,
         emitted := [RegisterAudioPlayer], progressInterval := Some 0, timerCount := 1,
         unlockListeners := [],
         els := [\<lparr> src = ''http://192.168.10.1:3000/sounds/rain.mp3'', volume = 1, loop = True,
                   paused = True, currentTime = 0, duration = None, ended = False,
                   onended = NoHandler, routed = False \<rparr>,
                 \<lparr> src = ''http://192.168.10.1:3000/sounds/storm.mp3'', volume = 0.5, loop = True,
                   paused = False, currentTime = 0, duration = None, ended = False,
                   onended = NoHandler, routed = True \<rparr>],
         ambientAudios := [(''rain'', 1)] \<rparr>"
  by (simp add: run_defs)

text \<open>
  C3 as stated fails when the second command carries the volume 1.5: the handler
  throws \<open>IndexSizeError\<close> after the first element is torn down and before the
  replacement is stored. Afterwards the id still refers to the first element, which is
  paused and has no source, and the second element was never started: no live instance
  exists under the id. When it is the first command that carries 1.5, its element is
  allocated but never stored, so the second command finds nothing to tear down: the
  first element keeps its source.
\<close>

theorem second_play_ambient_leaves_no_live_instance:
  "handle (PlayAmbient ''rain'' ''storm.mp3'' (Some 1.5))
      (run [Gesture ''click'', Inbound (PlayAmbient ''rain'' ''rain.mp3'' None)] init) =
     Thrown IndexSizeError
      (run [Gesture ''click'', Inbound (PlayAmbient ''rain'' ''rain.mp3'' None),
            Inbound (PlayAmbient ''rain'' ''storm.mp3'' (Some 1.5))] init)
   \<and> isAudioReady (run [Gesture ''click''] init)
   \<and> ambientAudios
      (run [Gesture ''click'', Inbound (PlayAmbient ''rain'' ''rain.mp3'' None),
            Inbound (PlayAmbient ''rain'' ''storm.mp3'' (Some 1.5))] init) = [(''rain'', 0)]
   \<and> paused (els
      (run [Gesture ''click'', Inbound (PlayAmbient ''rain'' ''rain.mp3'' None),
            Inbound (PlayAmbient ''rain'' ''storm.mp3'' (Some 1.5))] init) ! 0)
   \<and> src (els
      (run [Gesture ''click'', Inbound (PlayAmbient ''rain'' ''rain.mp3'' None),
            Inbound (PlayAmbient ''rain'' ''storm.mp3'' (Some 1.5))] init) ! 0) = []
   \<and> paused (els
      (run [Gesture ''click'', Inbound (PlayAmbient ''rain'' ''rain.mp3'' None),
            Inbound (PlayAmbient ''rain'' ''storm.mp3'' (Some 1.5))] init) ! 1)
   \<and> ambientAudios
      (run [Gesture ''click'', Inbound (PlayAmbient ''rain'' ''rain.mp3'' (Some 1.5)),
            Inbound (PlayAmbient ''rain'' ''storm.mp3'' None)] init) = [(''rain'', 1)]
   \<and> src (els
      (run [Gesture ''click'', Inbound (PlayAmbient ''rain'' ''rain.mp3'' (Some 1.5)),
            Inbound (PlayAmbient ''rain'' ''storm.mp3'' None)] init) ! 0) =
       ''http://192.168.10.1:3000/sounds/rain.mp3''"
  unfolding failed_replace_state failed_first_state
  by (simp add: run_defs isAudioReady_def)

subsection \<open>IA volume\<close>

lemma nth_volume_ia:
  assumes "i < length (els s)" "valid_volume v"
  shows "els (state_of (volume_ia v s)) ! i =
     (if i \<in> snd ` set (presetAudios s) \<union> set_option (ttsAudio s)
      then (els s ! i)\<lparr> volume := v \<rparr> else els s ! i)"
  using assms
  by (cases "ttsAudio s") (simp_all add: volume_ia_eq nth_fold_volume del: fold_append)

lemma volume_ia_invalid:
  assumes "\<not> valid_volume v"
  shows "state_of (volume_ia v s) = s\<lparr> iaVolume := v \<rparr>"
    and "presetAudios s \<noteq> [] \<or> ttsAudio s \<noteq> None \<Longrightarrow>
           volume_ia v s = Thrown IndexSizeError (s\<lparr> iaVolume := v \<rparr>)"
  using assms by (auto simp add: volume_ia_eq)

lemma volume_ia_frame:
  "iaVolume (state_of (volume_ia v s)) = v"
  "length (els (state_of (volume_ia v s))) = length (els s)"
  "ambientAudios (state_of (volume_ia v s)) = ambientAudios s"
  "presetAudios (state_of (volume_ia v s)) = presetAudios s"
  "ttsAudio (state_of (volume_ia v s)) = ttsAudio s"
  "masterVolume (state_of (volume_ia v s)) = masterVolume s"
  "masterGain (state_of (volume_ia v s)) = masterGain s"
  by (simp_all add: volume_ia_eq length_fold_volume del: fold_append)

text \<open>
  C7, as amended. \<open>audio:volume-ia\<close> stores the value as the IA volume. In a reachable
  state, for a value within 0 and 1 the handler returns and has set the volume of the
  element of every preset slot and of the speech clip, if one is referenced, to it. For
  every value, every element of the ambient map is left exactly as it was, the maps and
  the speech reference do not change, no element is allocated, and the master volume and
  gain are untouched. For a value outside 0 and 1 nothing but the stored IA volume
  changes, and the handler throws if a preset or a speech clip is referenced.
\<close>

theorem volume_ia_presets_and_speech_only:
  assumes "reachable s"
  shows "iaVolume (state_of (volume_ia v s)) = v
     \<and> (valid_volume v \<longrightarrow>
          volume_ia v s = Returned (state_of (volume_ia v s))
          \<and> (\<forall>i r. map_of (presetAudios s) i = Some r \<longrightarrow>
                els (state_of (volume_ia v s)) ! r = (els s ! r)\<lparr> volume := v \<rparr>)
          \<and> (\<forall>r. ttsAudio s = Some r \<longrightarrow>
                els (state_of (volume_ia v s)) ! r = (els s ! r)\<lparr> volume := v \<rparr>))
     \<and> (\<forall>k r. map_of (ambientAudios s) k = Some r \<longrightarrow> els (state_of (volume_ia v s)) ! r = els s ! r)
     \<and> length (els (state_of (volume_ia v s))) = length (els s)
     \<and> ambientAudios (state_of (volume_ia v s)) = ambientAudios s
     \<and> presetAudios (state_of (volume_ia v s)) = presetAudios s
     \<and> ttsAudio (state_of (volume_ia v s)) = ttsAudio s
     \<and> masterVolume (state_of (volume_ia v s)) = masterVolume s
     \<and> masterGain (state_of (volume_ia v s)) = masterGain s
     \<and> (\<not> valid_volume v \<longrightarrow>
          state_of (volume_ia v s) = s\<lparr> iaVolume := v \<rparr>
          \<and> (presetAudios s \<noteq> [] \<or> ttsAudio s \<noteq> None \<longrightarrow>
                volume_ia v s = Thrown IndexSizeError (s\<lparr> iaVolume := v \<rparr>)))"
proof -
  have w: "wf s" by (rule reachable_wf [OF assms])
  have ok: "valid_volume v \<longrightarrow>
          volume_ia v s = Returned (state_of (volume_ia v s))
          \<and> (\<forall>i r. map_of (presetAudios s) i = Some r \<longrightarrow>
                els (state_of (volume_ia v s)) ! r = (els s ! r)\<lparr> volume := v \<rparr>)
          \<and> (\<forall>r. ttsAudio s = Some r \<longrightarrow>
                els (state_of (volume_ia v s)) ! r = (els s ! r)\<lparr> volume := v \<rparr>)"
  proof
    assume v: "valid_volume v"
    have r: "volume_ia v s = Returned (state_of (volume_ia v s))"
      using v by (simp add: volume_ia_eq)
    have p: "\<forall>i r. map_of (presetAudios s) i = Some r \<longrightarrow>
           els (state_of (volume_ia v s)) ! r = (els s ! r)\<lparr> volume := v \<rparr>"
    proof (intro allI impI)
      fix i r assume m: "map_of (presetAudios s) i = Some r"
      then have "(i, r) \<in> set (presetAudios s)" by (rule map_of_SomeD)
      then have "r \<in> snd ` set (presetAudios s)" by force
      then show "els (state_of (volume_ia v s)) ! r = (els s ! r)\<lparr> volume := v \<rparr>"
        using wf_preD [OF w m] v by (simp add: nth_volume_ia)
    qed
    have t: "\<forall>r. ttsAudio s = Some r \<longrightarrow>
        els (state_of (volume_ia v s)) ! r = (els s ! r)\<lparr> volume := v \<rparr>"
      using wf_ttsD [OF w] v by (simp add: nth_volume_ia)
    from r p t show "volume_ia v s = Returned (state_of (volume_ia v s))
          \<and> (\<forall>i r. map_of (presetAudios s) i = Some r \<longrightarrow>
                els (state_of (volume_ia v s)) ! r = (els s ! r)\<lparr> volume := v \<rparr>)
          \<and> (\<forall>r. ttsAudio s = Some r \<longrightarrow>
                els (state_of (volume_ia v s)) ! r = (els s ! r)\<lparr> volume := v \<rparr>)"
      by blast
  qed
  have a: "\<forall>k r. map_of (ambientAudios s) k = Some r \<longrightarrow> els (state_of (volume_ia v s)) ! r = els s ! r"
  proof (intro allI impI)
    fix k r assume m: "map_of (ambientAudios s) k = Some r"
    note d = wf_ambD [OF w m]
    show "els (state_of (volume_ia v s)) ! r = els s ! r"
    proof (cases "valid_volume v")
      case False
      then show ?thesis by (simp add: volume_ia_invalid(1))
    next
      case True
      have "r \<notin> snd ` set (presetAudios s)"
      proof
        assume "r \<in> snd ` set (presetAudios s)"
        then obtain i where "(i, r) \<in> set (presetAudios s)" by force
        then have "map_of (presetAudios s) i = Some r"
          using wf_keys [OF w] by simp
        from wf_preD [OF w this] d show False by simp
      qed
      then show ?thesis
        using d True by (auto simp add: nth_volume_ia)
    qed
  qed
  have bad: "\<not> valid_volume v \<longrightarrow>
          state_of (volume_ia v s) = s\<lparr> iaVolume := v \<rparr>
          \<and> (presetAudios s \<noteq> [] \<or> ttsAudio s \<noteq> None \<longrightarrow>
                volume_ia v s = Thrown IndexSizeError (s\<lparr> iaVolume := v \<rparr>))"
    using volume_ia_invalid [of v s] by blast
  from ok a bad volume_ia_frame [of v s] show ?thesis by blast
qed

theorem volume_ia_presets_and_speech_only_witness:
  "volume (els (state_of (volume_ia 0.2
      (run [Gesture ''click'', Inbound (PlayAmbient ''rain'' ''rain.mp3'' None),
            Inbound (PlayPreset 0 ''a.mp3''), Inbound (PlayTTS ''AAAA'' None)] init))) ! 0) = 0.5
   \<and> volume (els (state_of (volume_ia 0.2
      (run [Gesture ''click'', Inbound (PlayAmbient ''rain'' ''rain.mp3'' None),
            Inbound (PlayPreset 0 ''a.mp3''), Inbound (PlayTTS ''AAAA'' None)] init))) ! 1) = 0.2
   \<and> volume (els (state_of (volume_ia 0.2
      (run [Gesture ''click'', Inbound (PlayAmbient ''rain'' ''rain.mp3'' None),
            Inbound (PlayPreset 0 ''a.mp3''), Inbound (PlayTTS ''AAAA'' None)] init))) ! 2) = 0.2
   \<and> volume (els (state_of (volume_ia 1.5
      (run [Gesture ''click'', Inbound (PlayAmbient ''rain'' ''rain.mp3'' None),
            Inbound (PlayPreset 0 ''a.mp3''), Inbound (PlayTTS ''AAAA'' None)] init))) ! 1) = 1"
proof -
  let ?s = "run [Gesture ''click'', Inbound (PlayAmbient ''rain'' ''rain.mp3'' None),
            Inbound (PlayPreset 0 ''a.mp3''), Inbound (PlayTTS ''AAAA'' None)] init"
  have r: "reachable ?s" by (rule reachable_run [OF reachable_init])
  have m: "map_of (ambientAudios ?s) ''rain'' = Some 0" "map_of (presetAudios ?s) 0 = Some 1"
    "ttsAudio ?s = Some 2"
    unfolding mixed_state by (simp_all add: init_def)
  have e: "volume (els ?s ! 0) = 0.5" "volume (els ?s ! 1) = 1"
    unfolding mixed_state by (simp_all add: init_def)
  have v: "valid_volume 0.2" "\<not> valid_volume 1.5" by (simp_all add: valid_volume_def)
  note th = volume_ia_presets_and_speech_only [OF r, of "0.2"]
  note ok = th [THEN conjunct2, THEN conjunct1, rule_format, OF v(1)]
  from ok [THEN conjunct2, THEN conjunct1, rule_format, OF m(2)]
  have b: "volume (els (state_of (volume_ia 0.2 ?s)) ! 1) = 0.2" by simp
  from ok [THEN conjunct2, THEN conjunct2, rule_format, OF m(3)]
  have c: "volume (els (state_of (volume_ia 0.2 ?s)) ! 2) = 0.2" by simp
  from th [THEN conjunct2, THEN conjunct2, THEN conjunct1, rule_format, OF m(1)] e(1)
  have a: "volume (els (state_of (volume_ia 0.2 ?s)) ! 0) = 0.5" by simp
  note th' = volume_ia_presets_and_speech_only [OF r, of "1.5"]
  from th' v(2) have "state_of (volume_ia 1.5 ?s) = ?s\<lparr> iaVolume := 1.5 \<rparr>" by blast
  with e(2) have d: "volume (els (state_of (volume_ia 1.5 ?s)) ! 1) = 1" by simp
  from a b c d show ?thesis by blast
qed

lemma invalid_ia_mixed_state:
  "run [Gesture ''click'', Inbound (PlayAmbient ''rain'' ''rain.mp3'' None),
        Inbound (PlayPreset 0 ''a.mp3''), Inbound (PlayTTS ''AAAA'' None),
        Inbound (VolumeIA 1.5)] init =
   init\<lparr> audioUnlocked := True, audioCtx := True, masterGain := Some 1, primerStarts := 1,
         emitted := [RegisterAudioPlayer], progressInterval := Some 0, timerCount := 1,
         unlockListeners := [], iaVolume := 1.5,
         els := [\<lparr> src = ''http://192.168.10.1:3000/sounds/rain.mp3'', volume = 0.5, loop = True,
                   paused = False, currentTime = 0, duration = None, ended = False,
                   onended = NoHandler, routed = True \<rparr>,
                 \<lparr> src = ''http://192.168.10.1:3000/presets/a.mp3'', volume = 1, loop = False,
                   paused = False, currentTime = 0, duration = None, ended = False,
                   onended = PresetEnd 0, routed = True \<rparr>,
                 \<lparr> src = ''blob:0'', volume = 1, loop = False,
                   paused = False, currentTime = 0, duration = None, ended = False,
                   onended = TtsEnd ''blob:0'', routed = True \<rparr>],
         ambientAudios := [(''rain'', 0)], presetAudios := [(0, 1)], ttsAudio := Some 2,
         objectURLs := [''blob:0''], urlCount := 1 \<rparr>"
  by (simp add: run_defs)

text \<open>
  C7 as stated fails for the value 1.5 in a reachable state with a live preset and a
  live speech clip: the handler stores 1.5 as the IA volume and throws
  \<open>IndexSizeError\<close> at the first volume assignment; the preset and the speech clip keep
  the volume 1.
\<close>

theorem volume_ia_out_of_range_sets_no_volume:
  "handle (VolumeIA 1.5)
      (run [Gesture ''click'', Inbound (PlayAmbient ''rain'' ''rain.mp3'' None),
            Inbound (PlayPreset 0 ''a.mp3''), Inbound (PlayTTS ''AAAA'' None)] init) =
     Thrown IndexSizeError
      (run [Gesture ''click'', Inbound (PlayAmbient ''rain'' ''rain.mp3'' None),
            Inbound (PlayPreset 0 ''a.mp3''), Inbound (PlayTTS ''AAAA'' None),
            Inbound (VolumeIA 1.5)] init)
   \<and> iaVolume
      (run [Gesture ''click'', Inbound (PlayAmbient ''rain'' ''rain.mp3'' None),
            Inbound (PlayPreset 0 ''a.mp3''), Inbound (PlayTTS ''AAAA'' None),
            Inbound (VolumeIA 1.5)] init) = 1.5
   \<and> presetAudios
      (run [Gesture ''click'', Inbound (PlayAmbient ''rain'' ''rain.mp3'' None),
            Inbound (PlayPreset 0 ''a.mp3''), Inbound (PlayTTS ''AAAA'' None),
            Inbound (VolumeIA 1.5)] init) = [(0, 1)]
   \<and> ttsAudio
      (run [Gesture ''click'', Inbound (PlayAmbient ''rain'' ''rain.mp3'' None),
            Inbound (PlayPreset 0 ''a.mp3''), Inbound (PlayTTS ''AAAA'' None),
            Inbound (VolumeIA 1.5)] init) = Some 2
   \<and> map volume (els
      (run [Gesture ''click'', Inbound (PlayAmbient ''rain'' ''rain.mp3'' None),
            Inbound (PlayPreset 0 ''a.mp3''), Inbound (PlayTTS ''AAAA'' None),
            Inbound (VolumeIA 1.5)] init)) = [0.5, 1, 1]"
  unfolding invalid_ia_mixed_state mixed_state
  by (simp add: run_defs)

subsection \<open>The gate and the handlers\<close>

lemma gated_noop:
  "\<not> isAudioReady s \<Longrightarrow> gated ev \<Longrightarrow> handle ev s = Returned s"
  by (cases ev) (simp_all add: isAudioReady_def play_ambient_def play_preset_def play_tts_def)

lemma ungated_ignores_gate:
  "\<not> gated ev \<Longrightarrow> handle ev (set_gate u e s) = map_outcome (set_gate u e) (handle ev s)"
  by (cases ev)
    (simp_all add: set_gate_def stop_ambient_def volume_ambient_eq pause_preset_def
      seek_preset_def stop_preset_def volume_ia_eq master_volume_eq stop_all_def
      stopAllAudio_eq teardown_def upd_el_def Let_def split: option.splits)

lemma ungated_returns:
  assumes "\<not> gated ev" "\<forall>k v. ev \<noteq> VolumeAmbient k v" "\<forall>v. ev \<noteq> VolumeIA v"
  shows "handle ev s = Returned (state_of (handle ev s))"
  using assms by (cases ev) simp_all

lemma ambient_effects:
  assumes "map_of (ambientAudios s) k = Some r" "r < length (els s)"
  shows "valid_volume v \<longrightarrow>
           handle (VolumeAmbient k v) s =
             Returned (s\<lparr> els := (els s)[r := (els s ! r)\<lparr> volume := v \<rparr>] \<rparr>)"
    "\<not> valid_volume v \<longrightarrow> handle (VolumeAmbient k v) s = Thrown IndexSizeError s"
    "paused (els (state_of (handle (StopAmbient k) s)) ! r)"
    "src (els (state_of (handle (StopAmbient k) s)) ! r) = []"
  using assms
  by (simp_all add: volume_ambient_eq stop_ambient_eq)

lemma preset_effects:
  assumes "map_of (presetAudios s) i = Some r" "r < length (els s)"
  shows "paused (els (state_of (handle (PausePreset i) s)) ! r)"
    "currentTime (els (state_of (handle (SeekPreset i x) s)) ! r) = x"
    "paused (els (state_of (handle (StopPreset i) s)) ! r)"
    "src (els (state_of (handle (StopPreset i) s)) ! r) = []"
    "valid_volume v \<longrightarrow> volume (els (state_of (handle (VolumeIA v) s)) ! r) = v"
proof -
  show "paused (els (state_of (handle (PausePreset i) s)) ! r)"
    "currentTime (els (state_of (handle (SeekPreset i x) s)) ! r) = x"
    "paused (els (state_of (handle (StopPreset i) s)) ! r)"
    "src (els (state_of (handle (StopPreset i) s)) ! r) = []"
    using assms
    by (simp_all add: pause_preset_def seek_preset_def stop_preset_def teardown_def upd_el_def)
  from assms(1) have "(i, r) \<in> set (presetAudios s)" by (rule map_of_SomeD)
  then have "r \<in> snd ` set (presetAudios s)" by force
  then show "valid_volume v \<longrightarrow> volume (els (state_of (handle (VolumeIA v) s)) ! r) = v"
    using assms(2) by (simp add: nth_volume_ia)
qed

lemma removal_effects:
  "map_of (ambientAudios (state_of (handle (StopAmbient k) s))) k = None"
  "map_of (presetAudios (state_of (handle (StopPreset i) s))) i = None"
  "ambientAudios (state_of (handle StopAll s)) = []" "presetAudios (state_of (handle StopAll s)) = []"
  "ttsAudio (state_of (handle StopAll s)) = None"
  by (simp_all add: stop_ambient_def stop_preset_def stop_all_def stopAllAudio_eq teardown_def
      upd_el_def AList.delete_conv' split: option.splits)

lemma stop_all_effects:
  assumes "r < length (els s)"
    "r \<in> snd ` set (ambientAudios s) \<union> snd ` set (presetAudios s) \<union> set_option (ttsAudio s)"
  shows "paused (els (state_of (handle StopAll s)) ! r)"
    "src (els (state_of (handle StopAll s)) ! r) = []"
  using assms by (simp_all add: stop_all_def nth_stopAllAudio)

text \<open>
  C2, as amended. While the gate is closed (not unlocked, or audio disabled) the
  handlers of \<open>play-ambient\<close>, \<open>play-preset\<close> and \<open>play-tts\<close> return the state as it is:
  no element is allocated, no field changes, nothing is emitted. Every other handler does
  not read the gate: running it with the two flags set to any values gives the outcome
  it gives otherwise, with those flags. So, whatever the gate: the stop, pause, seek and
  master-volume handlers return; \<open>volume-ia\<close> and \<open>master-volume\<close> store their value;
  \<open>pause-preset\<close> and \<open>seek-preset\<close> change the element their map holds; the stop
  handlers tear the element down and remove it, and \<open>stop-all\<close> empties both maps and
  the speech reference and leaves every element they referred to paused with its source
  released; \<open>master-volume\<close> writes the gain if it exists; and for a value within 0
  and 1, \<open>volume-ambient\<close> sets the volume of the element of its id and \<open>volume-ia\<close>
  that of every preset element and of the speech clip. For a value outside 0 and 1
  \<open>volume-ambient\<close> on an existing id throws and changes nothing.
\<close>

theorem closed_gate_blocks_play_only:
  "(\<not> isAudioReady s \<longrightarrow>
      play_ambient k f vol s = Returned s \<and> play_preset i f s = Returned s
      \<and> play_tts b m s = Returned s)
   \<and> (\<not> gated ev \<longrightarrow> handle ev (set_gate u e s) = map_outcome (set_gate u e) (handle ev s))
   \<and> (\<not> gated ev \<and> (\<forall>k v. ev \<noteq> VolumeAmbient k v) \<and> (\<forall>v. ev \<noteq> VolumeIA v) \<longrightarrow>
        handle ev s = Returned (state_of (handle ev s)))
   \<and> iaVolume (state_of (handle (VolumeIA v) s)) = v
   \<and> masterVolume (state_of (handle (MasterVolume v) s)) = v
   \<and> map_of (ambientAudios (state_of (handle (StopAmbient k) s))) k = None
   \<and> map_of (presetAudios (state_of (handle (StopPreset i) s))) i = None
   \<and> ambientAudios (state_of (handle StopAll s)) = []
   \<and> presetAudios (state_of (handle StopAll s)) = []
   \<and> ttsAudio (state_of (handle StopAll s)) = None
   \<and> (\<forall>r. r < length (els s) \<and>
          r \<in> snd ` set (ambientAudios s) \<union> snd ` set (presetAudios s) \<union> set_option (ttsAudio s) \<longrightarrow>
          paused (els (state_of (handle StopAll s)) ! r)
          \<and> src (els (state_of (handle StopAll s)) ! r) = [])
   \<and> (\<forall>r. map_of (ambientAudios s) k = Some r \<and> r < length (els s) \<longrightarrow>
         (valid_volume v \<longrightarrow>
            handle (VolumeAmbient k v) s =
              Returned (s\<lparr> els := (els s)[r := (els s ! r)\<lparr> volume := v \<rparr>] \<rparr>))
         \<and> (\<not> valid_volume v \<longrightarrow> handle (VolumeAmbient k v) s = Thrown IndexSizeError s)
         \<and> paused (els (state_of (handle (StopAmbient k) s)) ! r)
         \<and> src (els (state_of (handle (StopAmbient k) s)) ! r) = [])
   \<and> (\<forall>r. map_of (presetAudios s) i = Some r \<and> r < length (els s) \<longrightarrow>
         paused (els (state_of (handle (PausePreset i) s)) ! r)
         \<and> currentTime (els (state_of (handle (SeekPreset i x) s)) ! r) = x
         \<and> paused (els (state_of (handle (StopPreset i) s)) ! r)
         \<and> src (els (state_of (handle (StopPreset i) s)) ! r) = []
         \<and> (valid_volume v \<longrightarrow> volume (els (state_of (handle (VolumeIA v) s)) ! r) = v))
   \<and> (\<forall>r. ttsAudio s = Some r \<and> r < length (els s) \<and> valid_volume v \<longrightarrow>
         volume (els (state_of (handle (VolumeIA v) s)) ! r) = v)
   \<and> (masterGain s \<noteq> None \<longrightarrow> masterGain (state_of (handle (MasterVolume v) s)) = Some v)"
proof -
  have a: "\<not> isAudioReady s \<longrightarrow>
      play_ambient k f vol s = Returned s \<and> play_preset i f s = Returned s
      \<and> play_tts b m s = Returned s"
    using gated_noop [of s "PlayAmbient k f vol"] gated_noop [of s "PlayPreset i f"]
      gated_noop [of s "PlayTTS b m"] by simp
  have c: "iaVolume (state_of (handle (VolumeIA v) s)) = v
      \<and> masterVolume (state_of (handle (MasterVolume v) s)) = v"
    by (simp add: volume_ia_frame master_volume_eq)
  have d: "\<not> gated ev \<longrightarrow> handle ev (set_gate u e s) = map_outcome (set_gate u e) (handle ev s)"
    by (simp add: ungated_ignores_gate)
  have t: "\<not> gated ev \<and> (\<forall>k v. ev \<noteq> VolumeAmbient k v) \<and> (\<forall>v. ev \<noteq> VolumeIA v) \<longrightarrow>
        handle ev s = Returned (state_of (handle ev s))"
    using ungated_returns [of ev s] by blast
  have r: "map_of (ambientAudios (state_of (handle (StopAmbient k) s))) k = None
     \<and> map_of (presetAudios (state_of (handle (StopPreset i) s))) i = None
     \<and> ambientAudios (state_of (handle StopAll s)) = []
     \<and> presetAudios (state_of (handle StopAll s)) = []
     \<and> ttsAudio (state_of (handle StopAll s)) = None"
    by (simp only: removal_effects simp_thms)
  have al: "\<forall>r. r < length (els s) \<and>
          r \<in> snd ` set (ambientAudios s) \<union> snd ` set (presetAudios s) \<union> set_option (ttsAudio s) \<longrightarrow>
          paused (els (state_of (handle StopAll s)) ! r)
          \<and> src (els (state_of (handle StopAll s)) ! r) = []"
    using stop_all_effects [of _ s] by blast
  have am: "\<forall>r. map_of (ambientAudios s) k = Some r \<and> r < length (els s) \<longrightarrow>
         (valid_volume v \<longrightarrow>
            handle (VolumeAmbient k v) s =
              Returned (s\<lparr> els := (els s)[r := (els s ! r)\<lparr> volume := v \<rparr>] \<rparr>))
         \<and> (\<not> valid_volume v \<longrightarrow> handle (VolumeAmbient k v) s = Thrown IndexSizeError s)
         \<and> paused (els (state_of (handle (StopAmbient k) s)) ! r)
         \<and> src (els (state_of (handle (StopAmbient k) s)) ! r) = []"
    using ambient_effects [of s k] by blast
  have pr: "\<forall>r. map_of (presetAudios s) i = Some r \<and> r < length (els s) \<longrightarrow>
         paused (els (state_of (handle (PausePreset i) s)) ! r)
         \<and> currentTime (els (state_of (handle (SeekPreset i x) s)) ! r) = x
         \<and> paused (els (state_of (handle (StopPreset i) s)) ! r)
         \<and> src (els (state_of (handle (StopPreset i) s)) ! r) = []
         \<and> (valid_volume v \<longrightarrow> volume (els (state_of (handle (VolumeIA v) s)) ! r) = v)"
    using preset_effects [of s i] by blast
  have ts: "\<forall>r. ttsAudio s = Some r \<and> r < length (els s) \<and> valid_volume v \<longrightarrow>
         volume (els (state_of (handle (VolumeIA v) s)) ! r) = v"
    by (simp add: nth_volume_ia)
  have mg: "masterGain s \<noteq> None \<longrightarrow> masterGain (state_of (handle (MasterVolume v) s)) = Some v"
    by (simp add: master_volume_eq)
  from a c d t r al am pr ts mg show ?thesis by blast
qed

lemma closed_mixed_state:
  "run [Gesture ''click'', Inbound (PlayAmbient ''rain'' ''rain.mp3'' None),
        Inbound (PlayPreset 0 ''a.mp3''), Inbound (PlayTTS ''AAAA'' None),
        ConfigureAudio \<lparr> enabled_opt = Undefined, autoUnlock_opt = Absent, debug_opt = Absent \<rparr>] init =
   init\<lparr> audioConfig := \<lparr> enabled = False, autoUnlock = True, debug = False \<rparr>,
         audioUnlocked := True, audioCtx := True, masterGain := Some 1, primerStarts := 1,
         emitted := [RegisterAudioPlayer], progressInterval := Some 0, timerCount := 1,
         unlockListeners := [],
         els := [\<lparr> src = ''http://192.168.10.1:3000/sounds/rain.mp3'', volume = 0.5, loop = True,
                   paused = False, currentTime = 0, duration = None, ended = False,
                   onended = NoHandler, routed = True \<rparr>,
                 \<lparr> src = ''http://192.168.10.1:3000/presets/a.mp3'', volume = 1, loop = False,
                   paused = False, currentTime = 0, duration = None, ended = False,
                   onended = PresetEnd 0, routed = True \<rparr>,
                 \<lparr> src = ''blob:0'', volume = 1, loop = False,
                   paused = False, currentTime = 0, duration = None, ended = False,
                   onended = TtsEnd ''blob:0'', routed = True \<rparr>],
         ambientAudios := [(''rain'', 0)], presetAudios := [(0, 1)], ttsAudio := Some 2,
         objectURLs := [''blob:0''], urlCount := 1 \<rparr>"
  by (simp add: run_defs merge_config_def merge_field_def)

theorem closed_gate_blocks_play_only_witness:
  "\<not> isAudioReady
      (run [Gesture ''click'', Inbound (PlayAmbient ''rain'' ''rain.mp3'' None),
            Inbound (PlayPreset 0 ''a.mp3''), Inbound (PlayTTS ''AAAA'' None),
            ConfigureAudio \<lparr> enabled_opt = Undefined, autoUnlock_opt = Absent, debug_opt = Absent \<rparr>] init)
   \<and> play_ambient ''wind'' ''wind.mp3'' None
      (run [Gesture ''click'', Inbound (PlayAmbient ''rain'' ''rain.mp3'' None),
            Inbound (PlayPreset 0 ''a.mp3''), Inbound (PlayTTS ''AAAA'' None),
            ConfigureAudio \<lparr> enabled_opt = Undefined, autoUnlock_opt = Absent, debug_opt = Absent \<rparr>] init) =
     Returned
      (run [Gesture ''click'', Inbound (PlayAmbient ''rain'' ''rain.mp3'' None),
            Inbound (PlayPreset 0 ''a.mp3''), Inbound (PlayTTS ''AAAA'' None),
            ConfigureAudio \<lparr> enabled_opt = Undefined, autoUnlock_opt = Absent, debug_opt = Absent \<rparr>] init)
   \<and> src (els (state_of (handle (StopAmbient ''rain'')
      (run [Gesture ''click'', Inbound (PlayAmbient ''rain'' ''rain.mp3'' None),
            Inbound (PlayPreset 0 ''a.mp3''), Inbound (PlayTTS ''AAAA'' None),
            ConfigureAudio \<lparr> enabled_opt = Undefined, autoUnlock_opt = Absent, debug_opt = Absent \<rparr>] init))) ! 0) = []
   \<and> currentTime (els (state_of (handle (SeekPreset 0 30)
      (run [Gesture ''click'', Inbound (PlayAmbient ''rain'' ''rain.mp3'' None),
            Inbound (PlayPreset 0 ''a.mp3''), Inbound (PlayTTS ''AAAA'' None),
            ConfigureAudio \<lparr> enabled_opt = Undefined, autoUnlock_opt = Absent, debug_opt = Absent \<rparr>] init))) ! 1) = 30
   \<and> volume (els (state_of (handle (VolumeIA 0.2)
      (run [Gesture ''click'', Inbound (PlayAmbient ''rain'' ''rain.mp3'' None),
            Inbound (PlayPreset 0 ''a.mp3''), Inbound (PlayTTS ''AAAA'' None),
            ConfigureAudio \<lparr> enabled_opt = Undefined, autoUnlock_opt = Absent, debug_opt = Absent \<rparr>] init))) ! 1) = 0.2
   \<and> volume (els (state_of (handle (VolumeIA 0.2)
      (run [Gesture ''click'', Inbound (PlayAmbient ''rain'' ''rain.mp3'' None),
            Inbound (PlayPreset 0 ''a.mp3''), Inbound (PlayTTS ''AAAA'' None),
            ConfigureAudio \<lparr> enabled_opt = Undefined, autoUnlock_opt = Absent, debug_opt = Absent \<rparr>] init))) ! 2) = 0.2
   \<and> paused (els (state_of (handle StopAll
      (run [Gesture ''click'', Inbound (PlayAmbient ''rain'' ''rain.mp3'' None),
            Inbound (PlayPreset 0 ''a.mp3''), Inbound (PlayTTS ''AAAA'' None),
            ConfigureAudio \<lparr> enabled_opt = Undefined, autoUnlock_opt = Absent, debug_opt = Absent \<rparr>] init))) ! 2)
   \<and> src (els (state_of (handle StopAll
      (run [Gesture ''click'', Inbound (PlayAmbient ''rain'' ''rain.mp3'' None),
            Inbound (PlayPreset 0 ''a.mp3''), Inbound (PlayTTS ''AAAA'' None),
            ConfigureAudio \<lparr> enabled_opt = Undefined, autoUnlock_opt = Absent, debug_opt = Absent \<rparr>] init))) ! 2) = []
   \<and> handle (PausePreset 0) (set_gate False True
      (run [Gesture ''click'', Inbound (PlayAmbient ''rain'' ''rain.mp3'' None),
            Inbound (PlayPreset 0 ''a.mp3''), Inbound (PlayTTS ''AAAA'' None),
            ConfigureAudio \<lparr> enabled_opt = Undefined, autoUnlock_opt = Absent, debug_opt = Absent \<rparr>] init)) =
     map_outcome (set_gate False True) (handle (PausePreset 0)
      (run [Gesture ''click'', Inbound (PlayAmbient ''rain'' ''rain.mp3'' None),
            Inbound (PlayPreset 0 ''a.mp3''), Inbound (PlayTTS ''AAAA'' None),
            ConfigureAudio \<lparr> enabled_opt = Undefined, autoUnlock_opt = Absent, debug_opt = Absent \<rparr>] init))"
proof -
  let ?s = "run [Gesture ''click'', Inbound (PlayAmbient ''rain'' ''rain.mp3'' None),
            Inbound (PlayPreset 0 ''a.mp3''), Inbound (PlayTTS ''AAAA'' None),
            ConfigureAudio \<lparr> enabled_opt = Undefined, autoUnlock_opt = Absent, debug_opt = Absent \<rparr>] init"
  have g: "\<not> isAudioReady ?s"
    unfolding closed_mixed_state by (simp add: init_def isAudioReady_def)
  have m: "map_of (ambientAudios ?s) ''rain'' = Some 0 \<and> 0 < length (els ?s)"
    "map_of (presetAudios ?s) 0 = Some 1 \<and> 1 < length (els ?s)"
    "2 < length (els ?s) \<and>
       2 \<in> snd ` set (ambientAudios ?s) \<union> snd ` set (presetAudios ?s) \<union> set_option (ttsAudio ?s)"
    unfolding closed_mixed_state by (simp_all add: init_def)
  have n: "\<not> gated (PausePreset 0)" by simp
  have v: "valid_volume 0.2" by (simp add: valid_volume_def)
  note th = closed_gate_blocks_play_only
    [where s = ?s and k = "''rain''" and f = "''wind.mp3''" and vol = None and i = 0
       and b = "''AAAA''" and m = None and ev = "PausePreset 0" and u = False and e = True
       and v = "0.2" and x = 30]
  note rest = th [THEN conjunct2, THEN conjunct2, THEN conjunct2, THEN conjunct2, THEN conjunct2,
      THEN conjunct2, THEN conjunct2, THEN conjunct2, THEN conjunct2, THEN conjunct2]
  note all = rest [THEN conjunct1, rule_format, OF m(3)]
  note amb = rest [THEN conjunct2, THEN conjunct1, rule_format, OF m(1)]
  note pre = rest [THEN conjunct2, THEN conjunct2, THEN conjunct1, rule_format, OF m(2)]
  note tts = rest [THEN conjunct2, THEN conjunct2, THEN conjunct2, THEN conjunct1, rule_format]
  from amb have a: "src (els (state_of (handle (StopAmbient ''rain'') ?s)) ! 0) = []"
    by blast
  from pre have b: "currentTime (els (state_of (handle (SeekPreset 0 30) ?s)) ! 1) = 30"
    by blast
  from pre v have b': "volume (els (state_of (handle (VolumeIA 0.2) ?s)) ! 1) = 0.2"
    by blast
  have mt: "ttsAudio ?s = Some 2 \<and> 2 < length (els ?s) \<and> valid_volume 0.2"
    unfolding closed_mixed_state by (simp add: init_def valid_volume_def)
  from tts [OF mt] have b'': "volume (els (state_of (handle (VolumeIA 0.2) ?s)) ! 2) = 0.2" .
  from all have s: "paused (els (state_of (handle StopAll ?s)) ! 2)"
    "src (els (state_of (handle StopAll ?s)) ! 2) = []"
    by blast+
  from closed_gate_blocks_play_only
    [where s = ?s and k = "''wind''" and f = "''wind.mp3''" and vol = None and i = 0
       and b = "''AAAA''" and m = None and ev = "PausePreset 0" and u = False and e = True
       and v = "0.2" and x = 30, THEN conjunct1, rule_format, OF g]
  have c: "play_ambient ''wind'' ''wind.mp3'' None ?s = Returned ?s"
    by (rule conjunct1)
  from th [THEN conjunct2, THEN conjunct1, rule_format, OF n]
  have d: "handle (PausePreset 0) (set_gate False True ?s) =
      map_outcome (set_gate False True) (handle (PausePreset 0) ?s)" .
  from g a b b' b'' s c d show ?thesis by blast
qed

text \<open>
  C2 as stated fails for the volume handlers at the value 1.5. In a reachable state
  with the gate closed (audio disabled by \<open>enabled: undefined\<close>) and a live ambient
  sound, preset and speech clip, \<open>volume-ambient\<close> throws \<open>IndexSizeError\<close> and changes
  nothing, and \<open>volume-ia\<close> throws after storing the value, with every element's volume
  as before.
\<close>

theorem volume_out_of_range_has_no_effect:
  "\<not> isAudioReady
      (run [Gesture ''click'', Inbound (PlayAmbient ''rain'' ''rain.mp3'' None),
            Inbound (PlayPreset 0 ''a.mp3''), Inbound (PlayTTS ''AAAA'' None),
            ConfigureAudio \<lparr> enabled_opt = Undefined, autoUnlock_opt = Absent, debug_opt = Absent \<rparr>] init)
   \<and> map_of (ambientAudios
      (run [Gesture ''click'', Inbound (PlayAmbient ''rain'' ''rain.mp3'' None),
            Inbound (PlayPreset 0 ''a.mp3''), Inbound (PlayTTS ''AAAA'' None),
            ConfigureAudio \<lparr> enabled_opt = Undefined, autoUnlock_opt = Absent, debug_opt = Absent \<rparr>] init))
        ''rain'' = Some 0
   \<and> handle (VolumeAmbient ''rain'' 1.5)
      (run [Gesture ''click'', Inbound (PlayAmbient ''rain'' ''rain.mp3'' None),
            Inbound (PlayPreset 0 ''a.mp3''), Inbound (PlayTTS ''AAAA'' None),
            ConfigureAudio \<lparr> enabled_opt = Undefined, autoUnlock_opt = Absent, debug_opt = Absent \<rparr>] init) =
     Thrown IndexSizeError
      (run [Gesture ''click'', Inbound (PlayAmbient ''rain'' ''rain.mp3'' None),
            Inbound (PlayPreset 0 ''a.mp3''), Inbound (PlayTTS ''AAAA'' None),
            ConfigureAudio \<lparr> enabled_opt = Undefined, autoUnlock_opt = Absent, debug_opt = Absent \<rparr>] init)
   \<and> map volume (els
      (run [Gesture ''click'', Inbound (PlayAmbient ''rain'' ''rain.mp3'' None),
            Inbound (PlayPreset 0 ''a.mp3''), Inbound (PlayTTS ''AAAA'' None),
            ConfigureAudio \<lparr> enabled_opt = Undefined, autoUnlock_opt = Absent, debug_opt = Absent \<rparr>] init)) =
       [0.5, 1, 1]
   \<and> map volume (els (state_of (handle (VolumeIA 1.5)
      (run [Gesture ''click'', Inbound (PlayAmbient ''rain'' ''rain.mp3'' None),
            Inbound (PlayPreset 0 ''a.mp3''), Inbound (PlayTTS ''AAAA'' None),
            ConfigureAudio \<lparr> enabled_opt = Undefined, autoUnlock_opt = Absent, debug_opt = Absent \<rparr>] init)))) =
       [0.5, 1, 1]"
  unfolding closed_mixed_state
  by (simp add: run_defs isAudioReady_def)

subsection \<open>Registration of listeners\<close>

lemma listeners_of_Nil: "listeners_of n [] = []"
  by (simp add: listeners_of_def)

lemma listeners_of_on:
  "listeners_of n (socket_on n' l reg) = listeners_of n reg @ (if n' = n then [l] else [])"
  by (simp add: listeners_of_def socket_on_def)

lemma listeners_of_off:
  "listeners_of n (socket_off n' reg) = (if n' = n then [] else listeners_of n reg)"
  by (induction reg) (auto simp add: listeners_of_def socket_off_def)

lemma listeners_of_off_fn:
  "listeners_of n (socket_off_fn n' l reg) =
     (if n' = n then remove1 l (listeners_of n reg) else listeners_of n reg)"
  by (induction reg) (auto simp add: listeners_of_def socket_off_fn_def)

lemma listeners_of_fold_on:
  "distinct ns \<Longrightarrow>
   listeners_of n (fold (\<lambda>n. socket_on n (AudioHandler n)) ns reg) =
     listeners_of n reg @ (if n \<in> set ns then [AudioHandler n] else [])"
  by (induction ns arbitrary: reg) (auto simp add: listeners_of_on)

lemma distinct_audio_event_names: "distinct audio_event_names"
  by (simp add: audio_event_names_def)

lemma listeners_of_setup:
  "listeners_of n (setupAudioEventListeners reg) =
     listeners_of n reg @ (if n \<in> set audio_event_names then [AudioHandler n] else [])"
  unfolding setupAudioEventListeners_def
  by (rule listeners_of_fold_on [OF distinct_audio_event_names])

lemma event_name_known: "event_name ev \<in> set audio_event_names"
  by (cases ev) (simp_all add: audio_event_names_def)

lemma audio_name_not_api:
  "n \<in> set audio_event_names \<Longrightarrow>
     n \<noteq> ''command'' \<and> n \<noteq> ''game-message'' \<and> n \<noteq> ''connect'' \<and> n \<noteq> ''disconnect''"
  by (auto simp add: audio_event_names_def)

lemma listeners_of_module:
  "listeners_of n module_registry =
     (if n = ''connect'' then [ModuleConnect] else if n = ''disconnect'' then [ModuleDisconnect]
      else if n \<in> set audio_event_names then [AudioHandler n] else [])"
  using audio_name_not_api [of n]
  by (auto simp add: module_registry_def listeners_of_setup listeners_of_on listeners_of_Nil)

text \<open>After the module has loaded, and after any registration through the exported
  object, a delivered audio event runs the handler written for it, once.\<close>

lemma deliver_module_registry: "deliver module_registry ev s = handle ev s"
proof -
  have "listeners_of (event_name ev) module_registry = [AudioHandler (event_name ev)]"
    using event_name_known [of ev] audio_name_not_api [of "event_name ev"]
    by (simp add: listeners_of_module)
  then show ?thesis
    by (cases "handle ev s") (simp_all add: deliver_def)
qed

lemma deliver_after_app_effect:
  "deliver (app_effect k2 (app_effect k1 module_registry)) ev s = handle ev s"
proof -
  have "listeners_of (event_name ev) (app_effect k2 (app_effect k1 module_registry)) =
      [AudioHandler (event_name ev)]"
    using event_name_known [of ev] audio_name_not_api [of "event_name ev"]
    by (auto simp add: app_effect_def onCommand_def onConnect_def onDisconnect_def listeners_of_on
        listeners_of_off listeners_of_off_fn listeners_of_module)
  then show ?thesis
    by (cases "handle ev s") (simp_all add: deliver_def)
qed


subsection \<open>The voice cache\<close>








end
